(* ===== verification/Arkhe_Prelude.thy ===== *)
theory Arkhe_Prelude
  imports Main "HOL-Library.Word" "HOL-Library.Finite_Map" "HOL-Library.Product_Lexorder" "HOL-Library.Sublist"
begin

text \<open>
  What every component shares: the machine integers and byte buffers of the Rust source, the
  saturating arithmetic the kernel uses throughout, panics as a value, and the ordered
  containers of the Rust standard library.

  \<^item> \<open>u8\<close> \dots \<open>u128\<close> are words of the given width; \<open>usize\<close> (a length) is a \<open>nat\<close>.
  \<^item> \<open>BTreeMap<K,V>\<close> is a finite map \<open>('k, 'v) fmap\<close> over a linearly ordered key type; its
    iteration order is \<^const>\<open>sorted_list_of_fmap\<close>. \<open>BTreeSet<K>\<close> is an \<open>'k fset\<close>.
  \<^item> \<open>Result<T,E>\<close> is \<open>'e + 't\<close> (\<open>Inl\<close> the error), \<open>Option<T>\<close> is \<open>'t option\<close>.
  \<^item> a panic (\<open>expect\<close>, \<open>unreachable!\<close>) is the value \<open>Panic\<close> of the type \<open>'a outcome\<close>.
\<close>

section \<open>Machine integers and byte buffers\<close>

type_synonym u8 = "8 word"
type_synonym u16 = "16 word"
type_synonym u32 = "32 word"
type_synonym u64 = "64 word"
type_synonym u128 = "128 word"
type_synonym bytes = "u8 list"

named_theorems sat_simps \<open>saturating arithmetic read as natural numbers\<close>
named_theorems kernel_defs \<open>the operations of the model, unfolded\<close>

text \<open>\<open>[0u8; 32]\<close>, the sentinel digest.\<close>

definition zero32 :: bytes where
  "zero32 = replicate 32 0"

text \<open>The bytes of an ASCII literal (\<open>b"..."\<close>).\<close>

definition bytes_of_string :: "string \<Rightarrow> bytes" where
  "bytes_of_string s = map of_char s"

lemma length_zero32 [simp]: "length zero32 = 32"
  by (simp add: zero32_def)

section \<open>Saturating arithmetic\<close>

definition saturating_add :: "'a::len word \<Rightarrow> 'a word \<Rightarrow> 'a word" where
  "saturating_add a b = (if unat a + unat b < 2 ^ LENGTH('a) then a + b else - 1)"

definition saturating_sub :: "'a::len word \<Rightarrow> 'a word \<Rightarrow> 'a word" where
  "saturating_sub a b = (if b \<le> a then a - b else 0)"

definition saturating_mul :: "'a::len word \<Rightarrow> 'a word \<Rightarrow> 'a word" where
  "saturating_mul a b = (if unat a * unat b < 2 ^ LENGTH('a) then a * b else - 1)"

lemma unat_max_word: "unat (- 1 :: 'a::len word) = 2 ^ LENGTH('a) - 1"
  by (simp add: unsigned_minus_1_eq_mask mask_eq_exp_minus_1)

lemma unat_le_max: "unat (a :: 'a::len word) \<le> 2 ^ LENGTH('a) - 1"
proof -
  have "unat a < 2 ^ LENGTH('a)" by (rule unsigned_less)
  then show ?thesis by linarith
qed

lemma min_exp_minus_1: "n < 2 ^ k \<Longrightarrow> min n (2 ^ k - 1) = (n::nat)"
  by simp

lemma min_exp_minus_1_ge: "\<not> n < 2 ^ k \<Longrightarrow> min n (2 ^ k - 1) = (2 ^ k - 1 :: nat)"
  by simp

lemma unat_saturating_add [sat_simps]:
  "unat (saturating_add a b :: 'a::len word) = min (unat a + unat b) (2 ^ LENGTH('a) - 1)"
proof (cases "unat a + unat b < 2 ^ LENGTH('a)")
  case True
  then show ?thesis by (simp add: saturating_add_def unat_word_ariths min_exp_minus_1)
next
  case False
  then show ?thesis by (simp add: saturating_add_def unat_max_word min_exp_minus_1_ge)
qed

lemma unat_saturating_sub [sat_simps]:
  "unat (saturating_sub a b :: 'a::len word) = unat a - unat b"
  by (auto simp: saturating_sub_def unat_sub word_le_nat_alt)

lemma unat_saturating_mul [sat_simps]:
  "unat (saturating_mul a b :: 'a::len word) = min (unat a * unat b) (2 ^ LENGTH('a) - 1)"
proof (cases "unat a * unat b < 2 ^ LENGTH('a)")
  case True
  then show ?thesis by (simp add: saturating_mul_def unat_word_ariths min_exp_minus_1)
next
  case False
  then show ?thesis by (simp add: saturating_mul_def unat_max_word min_exp_minus_1_ge)
qed

lemma saturating_add_0 [simp]: "saturating_add a 0 = a" "saturating_add 0 a = a"
  by (simp_all add: saturating_add_def)

lemma saturating_sub_0 [simp]: "saturating_sub a 0 = a"
  by (simp add: saturating_sub_def)

lemma saturating_add_ge: "a \<le> saturating_add a b"
  using unat_le_max [of a] by (simp add: word_le_nat_alt sat_simps)

lemma saturating_add_1_neq_0 [simp]: "saturating_add (a :: 'a::len word) 1 \<noteq> 0"
proof -
  have "(2::nat) ^ 1 \<le> 2 ^ LENGTH('a)"
    by (rule power_increasing) (auto simp: Suc_le_eq)
  then have "unat (saturating_add a 1) \<noteq> 0"
    by (simp add: sat_simps min_def)
  then show ?thesis by auto
qed

lemma saturating_add_1_less: "(a :: 'a::len word) \<noteq> - 1 \<Longrightarrow> a < saturating_add a 1"
proof -
  assume "a \<noteq> - 1"
  then have "unat a \<noteq> 2 ^ LENGTH('a) - 1"
    by (metis unat_max_word word_unat_eq_iff)
  with unat_le_max [of a] show ?thesis
    by (simp add: word_less_nat_alt sat_simps)
qed

text \<open>\<open>u32::try_from(n).unwrap_or(u32::MAX)\<close> on a length.\<close>

definition u32_try_from :: "nat \<Rightarrow> u32" where
  "u32_try_from n = (if n < 2 ^ 32 then of_nat n else - 1)"

section \<open>Panics\<close>

datatype 'a outcome = Done 'a | Panic

fun obind :: "'a outcome \<Rightarrow> ('a \<Rightarrow> 'b outcome) \<Rightarrow> 'b outcome" where
  "obind (Done x) f = f x"
| "obind Panic f = Panic"

text \<open>\<open>Option::expect\<close>.\<close>

fun expect :: "'a option \<Rightarrow> 'a outcome" where
  "expect (Some x) = Done x"
| "expect None = Panic"

lemma obind_Done [simp]: "obind m Done = m"
  by (cases m) auto

lemma obind_assoc: "obind (obind m f) g = obind m (\<lambda>x. obind (f x) g)"
  by (cases m) auto

lemma obind_eq_Done: "obind m f = Done y \<longleftrightarrow> (\<exists>x. m = Done x \<and> f x = Done y)"
  by (cases m) auto

lemma obind_eq_Panic: "obind m f = Panic \<longleftrightarrow> m = Panic \<or> (\<exists>x. m = Done x \<and> f x = Panic)"
  by (cases m) auto

lemma obind_cong [fundef_cong]:
  "m = m' \<Longrightarrow> (\<And>x. m' = Done x \<Longrightarrow> f x = f' x) \<Longrightarrow> obind m f = obind m' f'"
  by (cases m) auto

text \<open>A \<open>for\<close> loop whose body may panic.\<close>

fun ofold :: "('a \<Rightarrow> 's \<Rightarrow> 's outcome) \<Rightarrow> 'a list \<Rightarrow> 's \<Rightarrow> 's outcome" where
  "ofold f [] s = Done s"
| "ofold f (x # xs) s = obind (f x s) (ofold f xs)"

lemma ofold_append: "ofold f (xs @ ys) s = obind (ofold f xs s) (ofold f ys)"
  by (induction xs arbitrary: s) (auto simp: obind_assoc fun_eq_iff intro!: obind_cong)

lemma ofold_Done:
  assumes "\<And>x s. x \<in> set xs \<Longrightarrow> f x s = Done (g x s)"
  shows "ofold f xs s = Done (fold g xs s)"
  using assms by (induction xs arbitrary: s) auto

lemma ofold_invariant:
  assumes "ofold f xs s = Done t" and "I s"
    and "\<And>x s s'. x \<in> set xs \<Longrightarrow> I s \<Longrightarrow> f x s = Done s' \<Longrightarrow> I s'"
  shows "I t"
  using assms
proof (induction xs arbitrary: s)
  case Nil
  then show ?case by simp
next
  case (Cons x xs)
  from Cons.prems(1) obtain s' where s': "f x s = Done s'" "ofold f xs s' = Done t"
    by (auto simp: obind_eq_Done)
  with Cons.prems(2,3) have "I s'" by (meson list.set_intros(1))
  with s' Cons show ?case by (meson list.set_intros(2))
qed

lemma ofold_no_panic:
  assumes "\<And>x s. x \<in> set xs \<Longrightarrow> f x s \<noteq> Panic"
  shows "ofold f xs s \<noteq> Panic"
  using assms by (induction xs arbitrary: s) (auto simp: obind_eq_Panic)

section \<open>Ordered containers\<close>

text \<open>The library's congruence rule for \<^const>\<open>fmfilter\<close> keeps the simplifier out of its map.\<close>

declare fmfilter_cong [cong del]

definition bt_keys :: "('k::linorder, 'v) fmap \<Rightarrow> 'k list" where
  "bt_keys m = map fst (sorted_list_of_fmap m)"

definition bt_values :: "('k::linorder, 'v) fmap \<Rightarrow> 'v list" where
  "bt_values m = map snd (sorted_list_of_fmap m)"

definition bt_len :: "('k, 'v) fmap \<Rightarrow> nat" where
  "bt_len m = fcard (fmdom m)"

text \<open>\<open>BTreeMap::first_key_value\<close>.\<close>

definition bt_first :: "('k::linorder, 'v) fmap \<Rightarrow> ('k \<times> 'v) option" where
  "bt_first m = (case sorted_list_of_fmap m of [] \<Rightarrow> None | kv # _ \<Rightarrow> Some kv)"

lemma set_sorted_list_of_fmap:
  "(k, v) \<in> set (sorted_list_of_fmap m) \<longleftrightarrow> fmlookup m k = Some v"
  by (auto simp: sorted_list_of_fmap_def fmlookup_dom_iff image_iff)

lemma bt_keys_eq: "bt_keys m = sorted_list_of_fset (fmdom m)"
  by (simp add: bt_keys_def sorted_list_of_fmap_def comp_def)

lemma set_bt_keys [simp]: "set (bt_keys m) = fset (fmdom m)"
  by (simp add: bt_keys_eq)

lemma sorted_bt_keys: "sorted (bt_keys m)" "distinct (bt_keys m)"
  by (simp_all add: bt_keys_eq sorted_list_of_fset.rep_eq)

lemma bt_keys_empty [simp]: "bt_keys fmempty = []"
  by (simp add: bt_keys_eq sorted_list_of_fset.rep_eq)

lemma sorted_list_of_fmap_empty [simp]: "sorted_list_of_fmap fmempty = []"
  by (simp add: sorted_list_of_fmap_def sorted_list_of_fset.rep_eq)

lemma bt_len_empty [simp]: "bt_len fmempty = 0"
  by (simp add: bt_len_def)

lemma bt_len_upd:
  "bt_len (fmupd k v m) = (if k |\<in>| fmdom m then bt_len m else Suc (bt_len m))"
  by (simp add: bt_len_def fcard_finsert_if finsert_absorb)

lemma bt_len_upd_le: "bt_len (fmupd k v m) \<le> Suc (bt_len m)"
  by (simp add: bt_len_upd)

lemma bt_len_drop:
  "bt_len (fmdrop k m) = (if k |\<in>| fmdom m then bt_len m - 1 else bt_len m)"
  by (auto simp: bt_len_def fcard.rep_eq)

lemma bt_first_None: "bt_first m = None \<longleftrightarrow> m = fmempty"
proof
  assume "bt_first m = None"
  then have "sorted_list_of_fmap m = []"
    by (auto simp: bt_first_def split: list.splits)
  then have "fmlookup m k = None" for k
    using set_sorted_list_of_fmap [of k _ m] by (cases "fmlookup m k") auto
  then show "m = fmempty" by (auto intro: fmap_ext)
qed (simp add: bt_first_def)

lemma bt_first_lookup: "bt_first m = Some (k, v) \<Longrightarrow> fmlookup m k = Some v"
  by (auto simp: bt_first_def set_sorted_list_of_fmap [symmetric] split: list.splits)

lemma bt_first_least:
  assumes "bt_first m = Some (k, v)" and "fmlookup m k' = Some v'"
  shows "k \<le> k'"
proof -
  from assms(1) obtain kvs where kvs: "sorted_list_of_fmap m = (k, v) # kvs"
    by (auto simp: bt_first_def split: list.splits)
  then have "bt_keys m = k # map fst kvs" by (simp add: bt_keys_def)
  moreover have "k' \<in> set (bt_keys m)" using assms(2) by (simp add: fmdomI)
  ultimately show ?thesis
    using sorted_bt_keys(1) [of m] by auto
qed

lemma bt_keys_drop_head:
  assumes "bt_keys m = k # ks"
  shows "bt_keys (fmdrop k m) = ks"
proof -
  have "sorted ks" "distinct ks" "k \<notin> set ks"
    using sorted_bt_keys [of m] assms by auto
  moreover have "set ks = fset (fmdom (fmdrop k m))"
    using set_bt_keys [of m] assms \<open>k \<notin> set ks\<close> by auto
  ultimately show ?thesis
    using sorted_bt_keys [of "fmdrop k m"] by (metis set_bt_keys sorted_distinct_set_unique)
qed

lemma bt_keys_head_least: "bt_keys m = k # ks \<Longrightarrow> j |\<in>| fmdom m \<Longrightarrow> k \<le> j"
  using sorted_bt_keys(1) [of m] set_bt_keys [of m] by (metis list.set_cases list.set_intros(1)
      set_ConsD sorted_simps(2) order.refl)

text \<open>Removing a list of keys one by one.\<close>

lemma fold_fmdrop: "fold fmdrop ks m = fmfilter (\<lambda>k. k \<notin> set ks) m"
  by (induction ks arbitrary: m) (auto intro!: fmap_ext)

text \<open>Sums over a finite map, the reference for cached totals.\<close>

definition fmsum :: "('v \<Rightarrow> nat) \<Rightarrow> ('k, 'v) fmap \<Rightarrow> nat" where
  "fmsum f m = (\<Sum>k\<in>fset (fmdom m). f (the (fmlookup m k)))"

lemma fmsum_empty [simp]: "fmsum f fmempty = 0"
  by (simp add: fmsum_def)

lemma fmsum_drop:
  "fmsum f (fmdrop k m) = fmsum f m - (case fmlookup m k of None \<Rightarrow> 0 | Some v \<Rightarrow> f v)"
proof (cases "fmlookup m k")
  case None
  then show ?thesis by (simp add: fmdrop_idle fmdom_notI)
next
  case (Some v)
  then have k: "k \<in> fset (fmdom m)" by (simp add: fmdomI)
  have "fmsum f (fmdrop k m) = (\<Sum>j\<in>fset (fmdom m) - {k}. f (the (fmlookup m j)))"
    by (auto simp: fmsum_def intro!: sum.cong)
  with k Some show ?thesis
    by (simp add: fmsum_def sum_diff1_nat)
qed

lemma fmsum_upd:
  "fmsum f (fmupd k v m) = f v + fmsum f (fmdrop k m)"
proof -
  have dom: "fset (fmdom (fmupd k v m)) = insert k (fset (fmdom (fmdrop k m)))" by auto
  have "fmsum f (fmupd k v m) =
      f v + (\<Sum>j\<in>fset (fmdom (fmdrop k m)). f (the (fmlookup (fmupd k v m) j)))"
    unfolding fmsum_def dom by (subst sum.insert) auto
  also have "(\<Sum>j\<in>fset (fmdom (fmdrop k m)). f (the (fmlookup (fmupd k v m) j))) = fmsum f (fmdrop k m)"
    unfolding fmsum_def by (rule sum.cong) (auto split: if_splits)
  finally show ?thesis .
qed

lemma fmsum_lookup_le:
  assumes "fmlookup m k = Some v"
  shows "f v \<le> fmsum f m"
proof -
  have "f (the (fmlookup m k)) \<le> fmsum f m"
    unfolding fmsum_def by (rule member_le_sum) (use assms in \<open>auto intro: fmdomI\<close>)
  with assms show ?thesis by simp
qed

text \<open>\<open>BTreeMap::range(lo..=hi)\<close>: the keys in the closed interval, in ascending order.\<close>

definition bt_range :: "'k::linorder \<Rightarrow> 'k \<Rightarrow> ('k, 'v) fmap \<Rightarrow> ('k \<times> 'v) list" where
  "bt_range lo hi m = filter (\<lambda>(k, _). lo \<le> k \<and> k \<le> hi) (sorted_list_of_fmap m)"

lemma set_bt_range: "(k, v) \<in> set (bt_range lo hi m) \<longleftrightarrow> fmlookup m k = Some v \<and> lo \<le> k \<and> k \<le> hi"
  by (auto simp: bt_range_def set_sorted_list_of_fmap)

lemma distinct_bt_range: "distinct (map fst (bt_range lo hi m))"
  using sorted_bt_keys(2) [of m]
  by (simp add: bt_range_def bt_keys_def distinct_map_filter)

lemma fmsum_list: "fmsum f m = (\<Sum>(k, v)\<leftarrow>sorted_list_of_fmap m. f v)"
proof -
  have "(\<Sum>(k, v)\<leftarrow>sorted_list_of_fmap m. f v) = (\<Sum>k\<leftarrow>bt_keys m. f (the (fmlookup m k)))"
    by (simp add: sorted_list_of_fmap_def bt_keys_eq comp_def)
  also have "\<dots> = fmsum f m"
    by (simp add: sum_list_distinct_conv_sum_set sorted_bt_keys(2) fmsum_def)
  finally show ?thesis by simp
qed

text \<open>One-element maps, for the examples.\<close>

lemma bt_keys_single [simp]: "bt_keys (fmupd k v fmempty) = [k]"
  by (rule sorted_distinct_set_unique) (simp_all add: sorted_bt_keys)

lemma bt_first_single [simp]: "bt_first (fmupd k v fmempty) = Some (k, v)"
proof (cases "bt_first (fmupd k v fmempty)")
  case None
  then have "fmlookup (fmupd k v fmempty) k = None" by (simp only: bt_first_None fmempty_lookup)
  then show ?thesis by simp
next
  case (Some kv)
  then show ?thesis by (cases kv) (auto dest!: bt_first_lookup split: if_splits)
qed

lemma fmdrop_single [simp]: "fmdrop k (fmupd k v fmempty) = fmempty"
  by (rule fmap_ext) simp

end
