(* ===== verification/Fmt.thy ===== *)
theory Fmt
  imports Arkhe_Prelude
begin

text \<open>
  Text as \<open>core::fmt\<close> writes it, as far as the source uses it: \<open>{}\<close> of an unsigned integer, \<open>{:02x}\<close>
  of a byte, right alignment \<open>{:>n}\<close>, and the derived \<open>{:?}\<close> of tuples, byte arrays and newtypes. The
  lemmas read the texts back: a number followed by a character that is no digit, and a hexadecimal
  string followed by one that is no hexadecimal digit, determine the value and the rest.
\<close>

section \<open>Numbers\<close>

definition digit :: "nat \<Rightarrow> char" where
  "digit n = char_of (48 + n)"

fun dec :: "nat \<Rightarrow> string" where
  "dec n = (if n < 10 then [digit n] else dec (n div 10) @ [digit (n mod 10)])"

declare dec.simps [simp del]

definition is_digit :: "char \<Rightarrow> bool" where
  "is_digit c \<longleftrightarrow> 48 \<le> (of_char c :: nat) \<and> (of_char c :: nat) < 58"

definition undec :: "string \<Rightarrow> nat" where
  "undec s = foldl (\<lambda>n c. 10 * n + (of_char c - 48)) 0 s"

lemma of_char_digit [simp]: "n < 10 \<Longrightarrow> of_char (digit n) = 48 + n"
  by (simp add: digit_def of_char_of take_bit_eq_mod)

lemma dec_digits: "c \<in> set (dec n) \<Longrightarrow> is_digit c"
  by (induction n rule: dec.induct) (subst (asm) (2) dec.simps, auto simp: is_digit_def split: if_splits)

lemma undec_dec [simp]: "undec (dec n) = n"
proof (induction n rule: dec.induct)
  case (1 n)
  then show ?case by (subst dec.simps) (auto simp: undec_def)
qed

lemma dec_inject [simp]: "dec m = dec n \<longleftrightarrow> m = n"
  by (metis undec_dec)

text \<open>Two texts that start in one class of characters and leave it at the same kind of place.\<close>

lemma span_inject:
  assumes "xs @ ys = us @ vs" and "\<forall>c\<in>set xs. P c" and "\<forall>c\<in>set us. P c"
    and "ys = [] \<or> \<not> P (hd ys)" and "vs = [] \<or> \<not> P (hd vs)"
  shows "xs = us \<and> ys = vs"
proof -
  have "takeWhile P (xs @ ys) = xs" "takeWhile P (us @ vs) = us"
    using assms(2-5) by (cases ys; cases vs; simp add: takeWhile_append2)+
  with assms(1) have "xs = us" by simp
  with assms(1) show ?thesis by simp
qed

lemma dec_span [simp]:
  assumes "ys = [] \<or> \<not> is_digit (hd ys)" and "vs = [] \<or> \<not> is_digit (hd vs)"
  shows "dec m @ ys = dec n @ vs \<longleftrightarrow> m = n \<and> ys = vs"
  using span_inject [of "dec m" ys "dec n" vs is_digit] assms dec_digits by auto

section \<open>Bytes in hexadecimal\<close>

lemma unat_word_inject [simp]: "unat (a :: 'a::len word) = unat b \<longleftrightarrow> a = b"
  by (rule word_unat_eq_iff [symmetric])

definition hex_digit :: "nat \<Rightarrow> char" where
  "hex_digit n = (if n < 10 then digit n else char_of (87 + n))"

text \<open>\<open>format!("{:02x}", b)\<close>.\<close>

definition hex2 :: "u8 \<Rightarrow> string" where
  "hex2 b = [hex_digit (unat b div 16), hex_digit (unat b mod 16)]"

definition hex_bytes :: "bytes \<Rightarrow> string" where
  "hex_bytes bs = concat (map hex2 bs)"

definition is_hex :: "char \<Rightarrow> bool" where
  "is_hex c \<longleftrightarrow> is_digit c \<or> 97 \<le> (of_char c :: nat) \<and> (of_char c :: nat) < 103"

lemma of_char_hex_digit: "n < 16 \<Longrightarrow> of_char (hex_digit n) = (if n < 10 then 48 + n else 87 + n)"
  by (simp add: hex_digit_def of_char_of take_bit_eq_mod)

lemma hex_digit_inject: "m < 16 \<Longrightarrow> n < 16 \<Longrightarrow> hex_digit m = hex_digit n \<longleftrightarrow> m = n"
proof
  assume "m < 16" "n < 16" and eq: "hex_digit m = hex_digit n"
  then have "(if m < 10 then 48 + m else 87 + m) = (if n < 10 then 48 + n else 87 + n)"
    unfolding of_char_hex_digit [OF \<open>m < 16\<close>, symmetric] of_char_hex_digit [OF \<open>n < 16\<close>, symmetric] by (simp only:)
  then show "m = n" by (simp split: if_splits)
qed simp

lemma hex2_inject [simp]: "hex2 a = hex2 b \<longleftrightarrow> a = b"
proof
  assume "hex2 a = hex2 b"
  moreover have "unat a div 16 < 16" "unat b div 16 < 16" using unat_le_max [of a] unat_le_max [of b] by simp_all
  ultimately have "unat a div 16 = unat b div 16" "unat a mod 16 = unat b mod 16"
    by (simp_all add: hex2_def hex_digit_inject)
  then have "unat a = unat b" by (metis div_mult_mod_eq)
  then show "a = b" by simp
qed simp

lemma hex_bytes_inject [simp]: "hex_bytes as = hex_bytes bs \<longleftrightarrow> as = bs"
proof
  show "hex_bytes as = hex_bytes bs \<Longrightarrow> as = bs"
  proof (induction as arbitrary: bs)
    case Nil
    then show ?case by (cases bs) (simp_all add: hex_bytes_def hex2_def)
  next
    case (Cons a as)
    then obtain b bs' where bs: "bs = b # bs'" by (cases bs) (simp_all add: hex_bytes_def hex2_def)
    have "length (hex2 a) = length (hex2 b)" by (simp add: hex2_def)
    with Cons.prems bs have "hex2 a = hex2 b" "hex_bytes as = hex_bytes bs'" by (simp_all add: hex_bytes_def)
    with Cons.IH bs show ?case by simp
  qed
qed simp

lemma hex_bytes_chars: "c \<in> set (hex_bytes bs) \<Longrightarrow> is_hex c"
proof -
  assume "c \<in> set (hex_bytes bs)"
  then obtain b where "c \<in> set (hex2 b)" by (auto simp: hex_bytes_def)
  then have b: "c = hex_digit (unat b div 16) \<or> c = hex_digit (unat b mod 16)" by (auto simp: hex2_def)
  have "unat b div 16 < 16" "unat b mod 16 < 16" using unat_le_max [of b] by simp_all
  with b obtain n where "n < 16" "c = hex_digit n" by blast
  then show ?thesis using of_char_hex_digit [of n] by (auto simp: is_hex_def is_digit_def split: if_splits)
qed

lemma hex_span [simp]:
  assumes "ys = [] \<or> \<not> is_hex (hd ys)" and "vs = [] \<or> \<not> is_hex (hd vs)"
  shows "hex_bytes as @ ys = hex_bytes bs @ vs \<longleftrightarrow> as = bs \<and> ys = vs"
  using span_inject [of "hex_bytes as" ys "hex_bytes bs" vs is_hex] assms hex_bytes_chars by auto

section \<open>Alignment and derived Debug\<close>

text \<open>\<open>{:>w}\<close>.\<close>

definition pad_left :: "nat \<Rightarrow> string \<Rightarrow> string" where
  "pad_left w s = replicate (w - length s) CHR '' '' @ s"

fun comma_sep :: "string list \<Rightarrow> string" where
  "comma_sep [] = []"
| "comma_sep [s] = s"
| "comma_sep (s # t # ss) = s @ '', '' @ comma_sep (t # ss)"

definition show_bool :: "bool \<Rightarrow> string" where
  "show_bool b = (if b then ''true'' else ''false'')"

text \<open>\<open>{:?}\<close> of a byte array.\<close>

definition debug_bytes :: "bytes \<Rightarrow> string" where
  "debug_bytes bs = ''['' @ comma_sep (map (\<lambda>b. dec (unat b)) bs) @ '']''"

text \<open>\<open>{:?}\<close> of a tuple of integers, and of a newtype around one.\<close>

definition debug_pair :: "u16 \<times> u16 \<Rightarrow> string" where
  "debug_pair p = ''('' @ dec (unat (fst p)) @ '', '' @ dec (unat (snd p)) @ '')''"

definition debug_triple :: "u16 \<times> u16 \<times> u16 \<Rightarrow> string" where
  "debug_triple p =
     ''('' @ dec (unat (fst p)) @ '', '' @ dec (unat (fst (snd p))) @ '', '' @ dec (unat (snd (snd p))) @ '')''"

definition debug_newtype :: "string \<Rightarrow> 'a::len word \<Rightarrow> string" where
  "debug_newtype name n = name @ ''('' @ dec (unat n) @ '')''"

lemma is_digit_literals [simp]:
  "\<not> is_digit CHR '',''" "\<not> is_digit CHR '')''" "\<not> is_digit CHR '']''" "\<not> is_digit CHR '':''" "\<not> is_digit CHR '' ''"
  by (simp_all add: is_digit_def)

lemma is_hex_literals [simp]: "\<not> is_hex CHR '',''"
  by (simp add: is_hex_def is_digit_def)

lemma debug_pair_span [simp]: "debug_pair p @ ys = debug_pair q @ vs \<longleftrightarrow> p = q \<and> ys = vs"
  by (cases p; cases q) (auto simp: debug_pair_def)

lemma debug_triple_span [simp]: "debug_triple p @ ys = debug_triple q @ vs \<longleftrightarrow> p = q \<and> ys = vs"
  by (cases p; cases q) (auto simp: debug_triple_def)

lemma comma_sep_dec_inject:
  "comma_sep (map (\<lambda>b. dec (unat b)) as) @ '']'' @ ys = comma_sep (map (\<lambda>b. dec (unat b)) bs) @ '']'' @ vs \<Longrightarrow>
   (as :: bytes) = bs \<and> ys = vs"
proof (induction as arbitrary: bs)
  have dec_ne: "dec n \<noteq> []" for n by (subst dec.simps) simp
  have hd_dec: "hd (dec n @ xs) \<noteq> CHR '']''" for n xs
    using dec_ne [of n] dec_digits [of "hd (dec n)" n] by auto
  have start: "comma_sep (map (\<lambda>b. dec (unat b)) (a # as)) @ zs = dec (unat a) @
      (case as of [] \<Rightarrow> [] | _ \<Rightarrow> '', '' @ comma_sep (map (\<lambda>b. dec (unat b)) as)) @ zs" for a :: u8 and as zs
    by (cases as) simp_all
  {
    case Nil
    show ?case
    proof (cases bs)
      case (Cons b bs')
      have "hd (comma_sep (map (\<lambda>b. dec (unat b)) bs) @ '']'' @ vs) \<noteq> CHR '']''"
        unfolding Cons start by (rule hd_dec)
      with Nil have False by (metis append_Nil comma_sep.simps(1) list.map(1) list.sel(1) append_Cons)
      then show ?thesis ..
    qed (use Nil in simp)
  next
    case (Cons a as)
    show ?case
    proof (cases bs)
      case Nil
      have "hd (comma_sep (map (\<lambda>b. dec (unat b)) (a # as)) @ '']'' @ ys) \<noteq> CHR '']''" unfolding start by (rule hd_dec)
      with Nil Cons.prems have False by simp
      then show ?thesis ..
    next
      case bs: (Cons b bs')
      from Cons.prems [unfolded bs start]
      have "a = b \<and> comma_sep (map (\<lambda>b. dec (unat b)) as) @ '']'' @ ys = comma_sep (map (\<lambda>b. dec (unat b)) bs') @ '']'' @ vs"
        by (cases as; cases bs') auto
      then show ?thesis using Cons.IH [of bs'] bs by blast
    qed
  }
qed

lemma debug_bytes_span [simp]: "debug_bytes as @ ys = debug_bytes bs @ vs \<longleftrightarrow> as = bs \<and> ys = vs"
  using comma_sep_dec_inject [of as ys bs vs] by (auto simp: debug_bytes_def)

lemma debug_newtype_span [simp]: "debug_newtype name a @ ys = debug_newtype name b @ vs \<longleftrightarrow> a = b \<and> ys = vs"
  by (auto simp: debug_newtype_def)

text \<open>The same for whole texts.\<close>

lemma debug_inject [simp]:
  "debug_pair p = debug_pair q \<longleftrightarrow> p = q" "debug_triple t = debug_triple u \<longleftrightarrow> t = u"
  "debug_bytes as = debug_bytes bs \<longleftrightarrow> as = bs" "debug_newtype name a = debug_newtype name b \<longleftrightarrow> a = b"
  using debug_pair_span [of p "[]" q "[]"] debug_triple_span [of t "[]" u "[]"] debug_bytes_span [of as "[]" bs "[]"]
    debug_newtype_span [of name a "[]" b "[]"] by simp_all

end
