(* ===== verification/Abi.thy ===== *)
theory Abi
  imports Fmt
begin

text \<open>
  The ABI stratum (\<open>arkhe-kernel/src/abi\<close>): identifier newtypes with their total orders,
  principals, capability masks and the top-level error type.

  A Rust newtype is a one-constructor datatype. \<open>InstanceId\<close>, \<open>EntityId\<close> and
  \<open>ScheduledActionId\<close> wrap a \<open>NonZeroU64\<close>: the only way the source builds one is \<open>new\<close>,
  which rejects zero; the value \<open>EntityId 0\<close> exists in the model but no operation makes it.
\<close>

unbundle bit_operations_syntax

section \<open>Identifiers (\<open>ids.rs\<close>)\<close>

datatype InstanceId = InstanceId (instance_id_get: u64)
datatype EntityId = EntityId (entity_id_get: u64)
datatype Tick = Tick (tick_val: u64)
datatype TypeCode = TypeCode (type_code_val: u32)
datatype RouteId = RouteId (route_id_val: u32)

definition InstanceId_new :: "u64 \<Rightarrow> InstanceId option" where
  "InstanceId_new v = (if v = 0 then None else Some (InstanceId v))"

definition EntityId_new :: "u64 \<Rightarrow> EntityId option" where
  "EntityId_new v = (if v = 0 then None else Some (EntityId v))"

text \<open>The derived \<open>Debug\<close> of the newtypes that reach an error text.\<close>

definition debug_InstanceId :: "InstanceId \<Rightarrow> string" where
  "debug_InstanceId i = debug_newtype ''InstanceId'' (instance_id_get i)"

definition debug_TypeCode :: "TypeCode \<Rightarrow> string" where
  "debug_TypeCode tc = debug_newtype ''TypeCode'' (type_code_val tc)"

definition tick_advance :: "Tick \<Rightarrow> u64 \<Rightarrow> Tick" where
  "tick_advance t delta = Tick (saturating_add (tick_val t) delta)"

instantiation InstanceId :: linorder
begin
definition less_eq_InstanceId :: "InstanceId \<Rightarrow> InstanceId \<Rightarrow> bool" where
  "less_eq_InstanceId a b = (instance_id_get a \<le> instance_id_get b)"
definition less_InstanceId :: "InstanceId \<Rightarrow> InstanceId \<Rightarrow> bool" where
  "less_InstanceId a b = (instance_id_get a < instance_id_get b)"
instance
  by standard (auto simp: less_eq_InstanceId_def less_InstanceId_def InstanceId.expand)
end

instantiation EntityId :: linorder
begin
definition less_eq_EntityId :: "EntityId \<Rightarrow> EntityId \<Rightarrow> bool" where
  "less_eq_EntityId a b = (entity_id_get a \<le> entity_id_get b)"
definition less_EntityId :: "EntityId \<Rightarrow> EntityId \<Rightarrow> bool" where
  "less_EntityId a b = (entity_id_get a < entity_id_get b)"
instance
  by standard (auto simp: less_eq_EntityId_def less_EntityId_def EntityId.expand)
end

instantiation Tick :: linorder
begin
definition less_eq_Tick :: "Tick \<Rightarrow> Tick \<Rightarrow> bool" where
  "less_eq_Tick a b = (tick_val a \<le> tick_val b)"
definition less_Tick :: "Tick \<Rightarrow> Tick \<Rightarrow> bool" where
  "less_Tick a b = (tick_val a < tick_val b)"
instance
  by standard (auto simp: less_eq_Tick_def less_Tick_def Tick.expand)
end

instantiation TypeCode :: linorder
begin
definition less_eq_TypeCode :: "TypeCode \<Rightarrow> TypeCode \<Rightarrow> bool" where
  "less_eq_TypeCode a b = (type_code_val a \<le> type_code_val b)"
definition less_TypeCode :: "TypeCode \<Rightarrow> TypeCode \<Rightarrow> bool" where
  "less_TypeCode a b = (type_code_val a < type_code_val b)"
instance
  by standard (auto simp: less_eq_TypeCode_def less_TypeCode_def TypeCode.expand)
end

instantiation RouteId :: linorder
begin
definition less_eq_RouteId :: "RouteId \<Rightarrow> RouteId \<Rightarrow> bool" where
  "less_eq_RouteId a b = (route_id_val a \<le> route_id_val b)"
definition less_RouteId :: "RouteId \<Rightarrow> RouteId \<Rightarrow> bool" where
  "less_RouteId a b = (route_id_val a < route_id_val b)"
instance
  by standard (auto simp: less_eq_RouteId_def less_RouteId_def RouteId.expand)
end

lemmas id_order_defs =
  less_eq_InstanceId_def less_InstanceId_def less_eq_EntityId_def less_EntityId_def
  less_eq_Tick_def less_Tick_def less_eq_TypeCode_def less_TypeCode_def
  less_eq_RouteId_def less_RouteId_def

section \<open>Principals (\<open>principal.rs\<close>)\<close>

datatype ExternalId = ExternalId (external_id_val: u64)

datatype Principal = Unauthenticated | External ExternalId | System

section \<open>Capability masks (\<open>caps.rs\<close>)\<close>

text \<open>
  \<open>CapabilityMask\<close> is a 64-bit flag set: \<open>&\<close> is the bitwise conjunction, \<open>contains\<close> the
  subset test on bits, \<open>bits\<close> and \<open>from_bits_retain\<close> the identity on the 64 bits.
\<close>

type_synonym CapabilityMask = u64

definition SYSTEM :: CapabilityMask where "SYSTEM = push_bit 0 1"
definition ADMIN_UNLOAD :: CapabilityMask where "ADMIN_UNLOAD = push_bit 1 1"
definition OBSERVER_REGISTER :: CapabilityMask where "OBSERVER_REGISTER = push_bit 2 1"
definition INTROSPECT :: CapabilityMask where "INTROSPECT = push_bit 3 1"

definition contains :: "'a::len word \<Rightarrow> 'a word \<Rightarrow> bool" where
  "contains self other \<longleftrightarrow> self AND other = other"

section \<open>Errors (\<open>error.rs\<close>)\<close>

datatype ArkheError =
    InstanceNotFound
  | CapabilityDenied
  | QuotaExceeded
  | Domain (code: u32) (payload: bytes)

section \<open>Lemmas\<close>

lemma InstanceId_new_get: "InstanceId_new v = Some i \<Longrightarrow> instance_id_get i = v \<and> v \<noteq> 0"
  by (auto simp: InstanceId_new_def split: if_splits)

lemma EntityId_new_get: "EntityId_new v = Some i \<Longrightarrow> entity_id_get i = v \<and> v \<noteq> 0"
  by (auto simp: EntityId_new_def split: if_splits)

lemma InstanceId_new_succ [simp]:
  "InstanceId_new (saturating_add n 1) = Some (InstanceId (saturating_add n 1))"
  by (simp add: InstanceId_new_def)

lemma tick_advance_mono: "t \<le> tick_advance t d"
  by (simp add: less_eq_Tick_def tick_advance_def saturating_add_ge)

lemma contains_refl [simp]: "contains a a"
  by (simp add: contains_def)

lemma contains_and [simp]: "contains (a AND b) c \<longleftrightarrow> contains a c \<and> contains b c"
  by (auto simp: contains_def bit_eq_iff bit_simps)

lemma contains_trans: "contains a b \<Longrightarrow> contains b c \<Longrightarrow> contains a c"
  by (auto simp: contains_def bit_eq_iff bit_simps)

lemma contains_0_iff [simp]: "contains 0 a \<longleftrightarrow> a = 0"
  by (auto simp: contains_def)

lemma contains_left [simp]: "contains a (a AND b)" "contains b (a AND b)"
  by (auto simp: contains_def bit_eq_iff bit_simps)

lemma contains_0 [simp]: "contains a 0"
  by (simp add: contains_def)

lemma SYSTEM_neq_0 [simp]: "SYSTEM \<noteq> 0"
  by (simp add: SYSTEM_def)

end
