(* ===== verification/Quota.thy ===== *)
theory Quota
  imports Abi
begin

text \<open>
  Quota reduction (\<open>state/quota.rs\<close>): what happens to the children of an instance whose quota is
  lowered. The three policies are translated at their machine widths (64-bit usages, 128-bit
  intermediate products); under the throttling policy the children's new quotas add up to
  exactly the new quota.
\<close>

section \<open>Data and algorithm\<close>

datatype QuotaReductionPolicy = Reject | GrandfatherExisting | ThrottleProportional

datatype QuotaReductionError = WouldViolateChildren (wv_current_usage: u64) (wv_new_quota: u64)

definition current_total :: "(InstanceId \<times> u64) list \<Rightarrow> u64" where
  "current_total children = fold (\<lambda>(_, u) acc. saturating_add acc u) children 0"

text \<open>The scaling loop: the scaled children and the 128-bit total allocated to them.\<close>

definition scaled_share :: "u128 \<Rightarrow> u128 \<Rightarrow> u64 \<Rightarrow> u128" where
  "scaled_share target tot current = saturating_mul (ucast current) target div tot"

definition throttle_scale ::
  "u128 \<Rightarrow> u128 \<Rightarrow> (InstanceId \<times> u64) list \<Rightarrow> (InstanceId \<times> u64) list \<times> u128" where
  "throttle_scale target tot children =
     fold (\<lambda>(cid, current) (out, allocated).
        let scaled = scaled_share target tot current
        in (out @ [(cid, ucast (min scaled (ucast (- 1 :: u64))))], saturating_add allocated scaled))
       children ([], 0)"

text \<open>The remainder loop: one more byte per child in order, until the remainder is used up.\<close>

fun throttle_remainder :: "u128 \<Rightarrow> (InstanceId \<times> u64) list \<Rightarrow> (InstanceId \<times> u64) list" where
  "throttle_remainder r [] = []"
| "throttle_remainder r ((cid, q) # out) =
     (if r = 0 then (cid, q) # out
      else (cid, saturating_add q 1) # throttle_remainder (r - 1) out)"

definition apply_quota_reduction ::
  "QuotaReductionPolicy \<Rightarrow> u64 \<Rightarrow> (InstanceId \<times> u64) list
    \<Rightarrow> QuotaReductionError + (InstanceId \<times> u64) list" where
  "apply_quota_reduction policy new_quota children =
     (let ct = current_total children
      in case policy of
           Reject \<Rightarrow> if new_quota < ct then Inl (WouldViolateChildren ct new_quota) else Inr children
         | GrandfatherExisting \<Rightarrow> Inr children
         | ThrottleProportional \<Rightarrow>
             if children = [] \<or> ct = 0 \<or> ct \<le> new_quota then Inr children
             else let target = ucast new_quota;
                      (out, allocated) = throttle_scale target (ucast ct) children;
                      remainder = saturating_sub target allocated
                  in Inr (throttle_remainder remainder out))"

section \<open>Arithmetic of the throttle\<close>

definition usage :: "(InstanceId \<times> u64) list \<Rightarrow> nat" where
  "usage xs = (\<Sum>(_, u)\<leftarrow>xs. unat u)"

lemma usage_simps [simp]: "usage [] = 0" "usage ((i, u) # xs) = unat u + usage xs"
  "usage (xs @ ys) = usage xs + usage ys"
  by (simp_all add: usage_def)

lemma unat_current_total: "unat (current_total xs) = min (usage xs) (2 ^ 64 - 1)"
proof -
  have "unat (fold (\<lambda>(_, u) acc. saturating_add acc u) xs acc) = min (unat acc + usage xs) (2 ^ 64 - 1)"
    for acc :: u64
  proof (induction xs arbitrary: acc)
    case Nil
    then show ?case using unat_le_max [of acc] by simp
  next
    case (Cons x xs)
    then show ?case by (cases x) (simp add: sat_simps)
  qed
  from this [of 0] show ?thesis by (simp add: current_total_def)
qed

lemma unat_ucast_64_128 [simp]: "unat (ucast (x :: u64) :: u128) = unat x"
proof -
  have "unat (ucast x :: u128) = unat x mod 2 ^ 128" by (simp add: unsigned_ucast_eq take_bit_eq_mod)
  moreover have "unat x < 2 ^ 128" using unat_le_max [of x] by simp
  ultimately show ?thesis by simp
qed

lemma unat_scaled_share:
  "unat (scaled_share (ucast (q :: u64)) (ucast (t :: u64)) c) = unat c * unat q div unat t"
proof -
  have "unat c * unat q \<le> (2 ^ 64 - 1) * (2 ^ 64 - 1)"
    using unat_le_max [of c] unat_le_max [of q] by (intro mult_le_mono) simp_all
  also have "\<dots> < (2 ^ 128 :: nat)" by simp
  finally have "min (unat c * unat q) (2 ^ 128 - 1) = unat c * unat q" by simp
  then show ?thesis by (simp add: scaled_share_def unat_div sat_simps)
qed

lemma share_le_child: "q \<le> t \<Longrightarrow> c * q div t \<le> (c::nat)"
  by (metis div_le_mono div_mult_self_is_m mult_le_mono2 div_by_0 le0 neq0_conv)

lemma share_less_child: "q < t \<Longrightarrow> 0 < c \<Longrightarrow> c * q div t < (c::nat)"
  by (simp add: div_less_iff_less_mult)

definition shares :: "nat \<Rightarrow> nat \<Rightarrow> (InstanceId \<times> u64) list \<Rightarrow> nat" where
  "shares q t xs = (\<Sum>(_, c)\<leftarrow>xs. unat c * q div t)"

lemma shares_simps [simp]: "shares q t [] = 0"
  "shares q t ((i, c) # xs) = unat c * q div t + shares q t xs"
  by (simp_all add: shares_def)

text \<open>The floors lose less than one unit per child.\<close>

lemma shares_bounds:
  "Suc s * shares q (Suc s) xs \<le> usage xs * q \<and>
   usage xs * q \<le> Suc s * shares q (Suc s) xs + length xs * s"
proof (induction xs)
  case (Cons x xs)
  obtain i c where x: "x = (i, c)" by (cases x)
  let ?m = "unat c * q" and ?t = "Suc s"
  have m: "?t * (?m div ?t) + ?m mod ?t = ?m" by (rule mult_div_mod_eq)
  have r: "?m mod ?t \<le> s" using mod_less_divisor [of ?t ?m] by linarith
  have "usage (x # xs) * q = ?m + usage xs * q"
    and "?t * shares q ?t (x # xs) = ?t * (?m div ?t) + ?t * shares q ?t xs"
    and "length (x # xs) * s = s + length xs * s"
    using x by (simp_all only: usage_simps shares_simps add_mult_distrib add_mult_distrib2 list.size
        plus_1_eq_Suc mult_Suc)
  with m r Cons show ?case by linarith
qed simp

definition share64 :: "u64 \<Rightarrow> u64 \<Rightarrow> u64 \<Rightarrow> u64" where
  "share64 q t c = ucast (min (scaled_share (ucast q) (ucast t) c) (ucast (- 1 :: u64)))"

lemma unat_share64:
  assumes "q \<le> t"
  shows "unat (share64 q t c) = unat c * unat q div unat t"
proof -
  let ?s = "scaled_share (ucast q) (ucast t) c"
  have s: "unat ?s \<le> unat c"
    using assms by (simp add: unat_scaled_share share_le_child word_le_nat_alt)
  then have "?s \<le> ucast (- 1 :: u64)"
    using unat_le_max [of c] by (simp add: word_le_nat_alt unat_max_word)
  then have "share64 q t c = ucast ?s" by (simp add: share64_def min_def)
  moreover have "unat (ucast ?s :: u64) = unat ?s mod 2 ^ 64"
    by (simp add: unsigned_ucast_eq take_bit_eq_mod)
  moreover have "unat ?s < 2 ^ 64" using s unat_le_max [of c] by simp
  ultimately show ?thesis by (simp add: unat_scaled_share)
qed

lemma throttle_scale_eq:
  "fst (throttle_scale (ucast q) (ucast t) xs) = map (\<lambda>(i, c). (i, share64 q t c)) xs"
  "unat (snd (throttle_scale (ucast q) (ucast t) xs)) = min (shares (unat q) (unat t) xs) (2 ^ 128 - 1)"
proof -
  let ?f = "\<lambda>(cid, current) (out, allocated).
        let scaled = scaled_share (ucast q) (ucast t) current
        in (out @ [(cid, ucast (min scaled (ucast (- 1 :: u64))))], saturating_add allocated scaled)"
  have "fst (fold ?f xs (out, al)) = out @ map (\<lambda>(i, c). (i, share64 q t c)) xs \<and>
     unat (snd (fold ?f xs (out, al))) = min (unat al + shares (unat q) (unat t) xs) (2 ^ 128 - 1)"
    for out :: "(InstanceId \<times> u64) list" and al :: u128
  proof (induction xs arbitrary: out al)
    case Nil
    then show ?case using unat_le_max [of al] by simp
  next
    case (Cons x xs)
    then show ?case
      by (cases x) (simp add: Let_def share64_def sat_simps unat_scaled_share)
  qed
  from this [of "[]" 0]
  show "fst (throttle_scale (ucast q) (ucast t) xs) = map (\<lambda>(i, c). (i, share64 q t c)) xs"
    "unat (snd (throttle_scale (ucast q) (ucast t) xs)) = min (shares (unat q) (unat t) xs) (2 ^ 128 - 1)"
    by (simp_all add: throttle_scale_def)
qed

lemma throttle_remainder_length [simp]: "length (throttle_remainder r xs) = length xs"
  by (induction r xs rule: throttle_remainder.induct) simp_all

lemma throttle_remainder_nth:
  "i < length xs \<Longrightarrow> throttle_remainder r xs ! i =
     (if i < unat r then (fst (xs ! i), saturating_add (snd (xs ! i)) 1) else xs ! i)"
proof (induction r xs arbitrary: i rule: throttle_remainder.induct)
  case (2 r cid q out)
  show ?case
  proof (cases "r = 0")
    case False
    then have "unat (r - 1) = unat r - 1" "0 < unat r" by (simp_all add: unat_minus_one unat_gt_0)
    with 2 False show ?thesis by (cases i) (auto simp: less_diff_conv)
  qed simp
qed simp

lemma usage_remainder:
  assumes "unat r \<le> length xs" and "\<And>i u. (i, u) \<in> set xs \<Longrightarrow> unat u < 2 ^ 64 - 1"
  shows "usage (throttle_remainder r xs) = usage xs + unat r"
  using assms
proof (induction r xs rule: throttle_remainder.induct)
  case (2 r cid q out)
  show ?case
  proof (cases "r = 0")
    case False
    then have "unat (r - 1) = unat r - 1" "0 < unat r" by (simp_all add: unat_minus_one unat_gt_0)
    moreover have "unat (saturating_add q 1) = unat q + 1"
      using 2(3) [of cid q] by (simp add: sat_simps)
    moreover have "usage (throttle_remainder (r - 1) out) = usage out + unat (r - 1)"
    proof (rule 2(1) [OF False])
      show "unat (r - 1) \<le> length out" using 2(2) calculation by simp
      show "\<And>i u. (i, u) \<in> set out \<Longrightarrow> unat u < 2 ^ 64 - 1" using 2(3) by (meson list.set_intros(2))
    qed
    ultimately show ?thesis using False by simp
  qed simp
qed simp

section \<open>The throttle meets its target\<close>

lemma usage_shares: "q \<le> t \<Longrightarrow> usage (map (\<lambda>(i, c). (i, share64 q t c)) xs) = shares (unat q) (unat t) xs"
  by (induction xs) (auto simp: unat_share64)

lemma throttle_unfold:
  assumes "usage xs < 2 ^ 64" and "unat q < usage xs"
  defines "t \<equiv> current_total xs"
  shows "apply_quota_reduction ThrottleProportional q xs =
      Inr (throttle_remainder (of_nat (unat q - shares (unat q) (unat t) xs))
             (map (\<lambda>(i, c). (i, share64 q t c)) xs))"
    and "unat t = usage xs" and "q < t" and "shares (unat q) (unat t) xs \<le> unat q"
    and "unat q - shares (unat q) (unat t) xs < length xs"
proof -
  show t: "unat t = usage xs" using assms(1) by (simp add: t_def unat_current_total)
  then show q: "q < t" using assms(2) by (simp add: word_less_nat_alt)
  obtain s where s: "usage xs = Suc s" using assms(2) by (cases "usage xs") auto
  let ?S = "shares (unat q) (unat t) xs"
  have b: "Suc s * ?S \<le> Suc s * unat q" "Suc s * unat q \<le> Suc s * ?S + length xs * s"
    using shares_bounds [of s "unat q" xs] s t by simp_all
  then show le: "?S \<le> unat q" by (simp del: mult_Suc)
  have ne: "xs \<noteq> []" using assms(2) by auto
  have "Suc s * (unat q - ?S) \<le> length xs * s" using b(2) by (simp add: diff_mult_distrib2 del: mult_Suc)
  also have "\<dots> < Suc s * length xs" using ne by simp
  finally show "unat q - ?S < length xs" by (simp del: mult_Suc)
  obtain out al where sc: "throttle_scale (ucast q) (ucast t) xs = (out, al)" by fastforce
  have al: "unat al = ?S" using throttle_scale_eq(2) [of q t xs] sc le unat_le_max [of q] by simp
  have "saturating_sub (ucast q) al = of_nat (unat q - ?S)"
    by (metis al unat_saturating_sub unat_ucast_64_128 of_nat_unat ucast_id)
  moreover have "out = map (\<lambda>(i, c). (i, share64 q t c)) xs"
    using throttle_scale_eq(1) [of q t xs] sc by simp
  moreover have "t \<noteq> 0" using q by auto
  ultimately show "apply_quota_reduction ThrottleProportional q xs =
      Inr (throttle_remainder (of_nat (unat q - ?S)) (map (\<lambda>(i, c). (i, share64 q t c)) xs))"
    using ne q sc by (simp add: apply_quota_reduction_def t_def [symmetric] Let_def not_le [symmetric])
qed

text \<open>Every child gets its share, and the first ones, as many as the remainder counts, one byte more.\<close>

lemma throttle_out:
  assumes "usage xs < 2 ^ 64" and "unat q < usage xs"
  defines "r \<equiv> unat q - shares (unat q) (usage xs) xs"
  shows "\<exists>out. apply_quota_reduction ThrottleProportional q xs = Inr out \<and>
     map fst out = map fst xs \<and> usage out = unat q \<and>
     (\<forall>i<length xs. unat (snd (out ! i)) = unat (snd (xs ! i)) * unat q div usage xs + (if i < r then 1 else 0))"
proof -
  define t where "t = current_total xs"
  note U = throttle_unfold [OF assms(1,2), folded t_def]
  have r_eq: "r = unat q - shares (unat q) (unat t) xs" by (simp add: r_def U(2))
  let ?m = "map (\<lambda>(i, c). (i, share64 q t c)) xs"
  let ?out = "throttle_remainder (of_nat r) ?m"
  have r: "unat (of_nat r :: u128) = r"
    using unat_le_max [of q] by (simp add: r_def unat_of_nat)
  have share: "unat (share64 q t c) = unat c * unat q div usage xs" for c
    using U(2,3) by (simp add: unat_share64)
  have small: "unat (share64 q t c) < 2 ^ 64 - 1" for c
  proof (cases "c = 0")
    case False
    then have "unat c * unat q div usage xs < unat c"
      using assms(2) by (intro share_less_child) (simp_all add: unat_gt_0)
    then show ?thesis using share unat_le_max [of c] by simp
  qed (simp add: share)
  have "usage ?out = usage ?m + r"
    using U(5) small by (subst usage_remainder) (auto simp: r r_eq [symmetric])
  then have "usage ?out = unat q"
    using U(3,4) usage_shares [of q t xs] by (simp add: r_eq)
  moreover have nth: "?out ! i = (fst (xs ! i), if i < r then saturating_add (share64 q t (snd (xs ! i))) 1
      else share64 q t (snd (xs ! i)))" if "i < length xs" for i
    using that by (simp add: throttle_remainder_nth r case_prod_beta)
  then have "map fst ?out = map fst xs" by (intro nth_equalityI) simp_all
  moreover have "unat (saturating_add (share64 q t c) 1) = unat (share64 q t c) + 1" for c
    using small [of c] by (simp add: sat_simps)
  ultimately show ?thesis using U(1) nth
    by (intro exI [of _ ?out]) (auto simp: r_eq [symmetric] share)
qed

lemma throttle_exact:
  assumes "usage xs < 2 ^ 64" and "unat q < usage xs"
  shows "\<exists>out. apply_quota_reduction ThrottleProportional q xs = Inr out \<and>
     map fst out = map fst xs \<and> usage out = unat q \<and>
     (\<forall>i<length xs. unat (snd (out ! i)) \<in> {unat (snd (xs ! i)) * unat q div usage xs,
                                             unat (snd (xs ! i)) * unat q div usage xs + 1} \<and>
        (0 < snd (xs ! i) \<longrightarrow> snd (out ! i) \<le> snd (xs ! i)))"
proof -
  have "unat c * unat q div usage xs + 1 \<le> unat c" if "0 < c" for c :: u64
    using share_less_child [of "unat q" "usage xs" "unat c"] that assms(2)
    by (simp add: Suc_leI unat_gt_0 word_less_nat_alt)
  then have "unat c * unat q div usage xs + (if b then 1 else 0) \<le> unat c" if "0 < c" for c :: u64 and b
    using that by (cases b) (auto dest: Suc_leD)
  with throttle_out [OF assms] show ?thesis by (auto simp: word_le_nat_alt)
qed

section \<open>Properties\<close>

text \<open>
  C36 (throttling hits the target). When the children's usages add up to less than \<open>2 ^ 64\<close> and
  the new quota is a genuine reduction, \<open>apply_quota_reduction\<close> succeeds, keeps the children in
  order, hands out exactly the new quota, gives each child the floor of its proportional share
  or one byte more, and never raises a child that was using anything above its current usage.
\<close>

theorem throttle_meets_target:
  assumes "usage children < 2 ^ 64" and "unat new_quota < usage children"
  shows "\<exists>out. apply_quota_reduction ThrottleProportional new_quota children = Inr out \<and>
     map fst out = map fst children \<and> usage out = unat new_quota \<and>
     (\<forall>i<length children.
        unat (snd (out ! i)) \<in> {unat (snd (children ! i)) * unat new_quota div usage children,
                               unat (snd (children ! i)) * unat new_quota div usage children + 1} \<and>
        (0 < snd (children ! i) \<longrightarrow> snd (out ! i) \<le> snd (children ! i)))"
  using assms by (rule throttle_exact)

theorem throttle_meets_target_witness:
  "\<exists>out. apply_quota_reduction ThrottleProportional 10 [(InstanceId 1, 7), (InstanceId 2, 7), (InstanceId 3, 7)] = Inr out
     \<and> usage out = 10"
  using throttle_meets_target [of "[(InstanceId 1, 7), (InstanceId 2, 7), (InstanceId 3, 7)]" 10]
  by auto

text \<open>
  No policy exceeds or loses children. \<open>Reject\<close> fails exactly when the (saturated) usage of
  the children exceeds the new quota, reporting both numbers, and otherwise returns the children
  unchanged; \<open>GrandfatherExisting\<close> always does; \<open>ThrottleProportional\<close> never fails and is the
  identity on a request that is not a reduction.
\<close>

theorem quota_policy_cases:
  "apply_quota_reduction Reject new_quota children =
     (if min (usage children) (2 ^ 64 - 1) \<le> unat new_quota then Inr children
      else Inl (WouldViolateChildren (current_total children) new_quota)) \<and>
   apply_quota_reduction GrandfatherExisting new_quota children = Inr children \<and>
   (\<exists>out. apply_quota_reduction ThrottleProportional new_quota children = Inr out \<and>
      length out = length children \<and> (min (usage children) (2 ^ 64 - 1) \<le> unat new_quota \<longrightarrow> out = children))"
proof -
  obtain out al where "throttle_scale (ucast new_quota) (ucast (current_total children)) children = (out, al)"
    by fastforce
  moreover from this have "length out = length children"
    using throttle_scale_eq(1) [of new_quota "current_total children" children] by simp
  moreover have "new_quota < current_total children \<longleftrightarrow>
      \<not> min (usage children) (2 ^ 64 - 1) \<le> unat new_quota"
    by (simp only: word_less_nat_alt unat_current_total not_le)
  ultimately show ?thesis
    by (auto simp: apply_quota_reduction_def Let_def not_less [symmetric])
qed

theorem quota_policy_cases_witness:
  "apply_quota_reduction Reject 5 [(InstanceId 1, 4), (InstanceId 2, 3)] = Inl (WouldViolateChildren 7 5)"
  using quota_policy_cases [of 5 "[(InstanceId 1, 4), (InstanceId 2, 3)]"]
  by (simp add: current_total_def saturating_add_def)

text \<open>
  C40 (which children the throttle raises). In a genuine reduction of children whose usages add up to less
  than \<open>2 ^ 64\<close>, the throttle allocates a child more than it uses exactly when the child uses nothing and
  stands among the first children, as many as the rounded-down shares leave bytes of the new quota over.
  So the claim in the documentation of \<open>ThrottleProportional\<close>, that it never inflates a child above its
  current usage, holds for requests that are no reduction and for children in use, and fails for these.
\<close>

theorem throttle_raises_exactly_idle:
  assumes "usage children < 2 ^ 64" and "unat new_quota < usage children"
    and "apply_quota_reduction ThrottleProportional new_quota children = Inr out" and "i < length children"
  shows "snd (children ! i) < snd (out ! i) \<longleftrightarrow>
     snd (children ! i) = 0 \<and> i < unat new_quota - shares (unat new_quota) (usage children) children"
proof -
  let ?c = "snd (children ! i)" and ?r = "unat new_quota - shares (unat new_quota) (usage children) children"
  have o: "unat (snd (out ! i)) = unat ?c * unat new_quota div usage children + (if i < ?r then 1 else 0)"
    using throttle_out [OF assms(1,2)] assms(3,4) by auto
  show ?thesis
  proof (cases "?c = 0")
    case True
    then show ?thesis using o by (simp add: word_less_nat_alt)
  next
    case False
    then have "unat ?c * unat new_quota div usage children < unat ?c"
      using assms(2) by (intro share_less_child) (simp_all add: unat_gt_0)
    then show ?thesis using o False by (simp add: word_less_nat_alt)
  qed
qed

theorem throttle_raises_exactly_idle_witness:
  "\<exists>out. apply_quota_reduction ThrottleProportional 1 [(InstanceId 1, 0), (InstanceId 2, 1), (InstanceId 3, 1)] = Inr out \<and>
     0 < snd (out ! 0) \<and> \<not> 1 < snd (out ! 1)"
proof -
  let ?xs = "[(InstanceId 1, 0), (InstanceId 2, 1), (InstanceId 3, 1)] :: (InstanceId \<times> u64) list"
  have u: "usage ?xs < 2 ^ 64" "unat (1::u64) < usage ?xs" by simp_all
  obtain out where o: "apply_quota_reduction ThrottleProportional 1 ?xs = Inr out" using throttle_out [OF u] by blast
  have "shares (unat (1::u64)) (usage ?xs) ?xs = 0" by simp
  with throttle_raises_exactly_idle [OF u o, of 0] throttle_raises_exactly_idle [OF u o, of 1] o show ?thesis by simp
qed

end
