(* ===== verification/Scheduler.thy ===== *)
theory Scheduler
  imports Abi
begin

text \<open>
  The scheduler (\<open>state/scheduler.rs\<close>): three tables kept in lockstep, the execution queue
  \<open>ready\<close> ordered by \<open>(at, seq, id)\<close>, the cancel index \<open>by_id\<close> and the actor index
  \<open>by_actor\<close>. The operations are translated one by one; \<open>sched_inv\<close> is the declarative
  three-table invariant, \<open>validate\<close> decides it (\<open>validate_iff\<close>), every operation keeps it, and
  the locale \<open>due_queue\<close> states what the kernel relies on when it pops.
\<close>

section \<open>Data\<close>

datatype ScheduledActionId = ScheduledActionId (scheduled_id_get: u64)

definition ScheduledActionId_new :: "u64 \<Rightarrow> ScheduledActionId option" where
  "ScheduledActionId_new v = (if v = 0 then None else Some (ScheduledActionId v))"

instantiation ScheduledActionId :: linorder
begin
definition less_eq_ScheduledActionId :: "ScheduledActionId \<Rightarrow> ScheduledActionId \<Rightarrow> bool" where
  "less_eq_ScheduledActionId a b = (scheduled_id_get a \<le> scheduled_id_get b)"
definition less_ScheduledActionId :: "ScheduledActionId \<Rightarrow> ScheduledActionId \<Rightarrow> bool" where
  "less_ScheduledActionId a b = (scheduled_id_get a < scheduled_id_get b)"
instance
  by standard (auto simp: less_eq_ScheduledActionId_def less_ScheduledActionId_def
      ScheduledActionId.expand)
end

datatype SchedKey = SchedKey (key_at: Tick) (key_seq: u64) (key_id: ScheduledActionId)

text \<open>The derived \<open>Ord\<close>: lexicographic in declaration order.\<close>

definition key_tuple :: "SchedKey \<Rightarrow> Tick \<times> u64 \<times> ScheduledActionId" where
  "key_tuple k = (key_at k, key_seq k, key_id k)"

lemma key_tuple_inject: "key_tuple a = key_tuple b \<Longrightarrow> a = b"
  by (auto simp: key_tuple_def SchedKey.expand)

instantiation SchedKey :: linorder
begin
definition less_eq_SchedKey :: "SchedKey \<Rightarrow> SchedKey \<Rightarrow> bool" where
  "less_eq_SchedKey a b = (key_tuple a \<le> key_tuple b)"
definition less_SchedKey :: "SchedKey \<Rightarrow> SchedKey \<Rightarrow> bool" where
  "less_SchedKey a b = (key_tuple a < key_tuple b)"
instance
  by standard (auto simp: less_eq_SchedKey_def less_SchedKey_def key_tuple_inject)
end

record ScheduledEntry =
  entry_id :: ScheduledActionId
  entry_at :: Tick
  entry_actor :: "EntityId option"
  entry_principal :: Principal
  action_type_code :: TypeCode
  action_bytes :: bytes
  caps_ceiling :: CapabilityMask

record Scheduler =
  ready :: "(SchedKey, ScheduledEntry) fmap"
  by_id :: "(ScheduledActionId, SchedKey) fmap"
  by_actor :: "(EntityId, ScheduledActionId fset) fmap"
  next_seq :: u64
  next_id :: u64

section \<open>Operations\<close>

definition Scheduler_new :: Scheduler where
  "Scheduler_new = \<lparr>ready = fmempty, by_id = fmempty, by_actor = fmempty, next_seq = 0, next_id = 0\<rparr>"

text \<open>\<open>by_actor.entry(actor_id).or_default().insert(sid)\<close>, when the entry names an actor.\<close>

definition index_insert ::
  "EntityId option \<Rightarrow> ScheduledActionId \<Rightarrow> (EntityId, ScheduledActionId fset) fmap
    \<Rightarrow> (EntityId, ScheduledActionId fset) fmap" where
  "index_insert actor sid m =
     (case actor of None \<Rightarrow> m
      | Some a \<Rightarrow> fmupd a (finsert sid (case fmlookup m a of None \<Rightarrow> {||} | Some s \<Rightarrow> s)) m)"

text \<open>The actor-index removal shared by \<open>cancel\<close> and \<open>pop_due\<close>: an emptied set is dropped.\<close>

definition index_remove ::
  "EntityId option \<Rightarrow> ScheduledActionId \<Rightarrow> (EntityId, ScheduledActionId fset) fmap
    \<Rightarrow> (EntityId, ScheduledActionId fset) fmap" where
  "index_remove actor sid m =
     (case actor of None \<Rightarrow> m
      | Some a \<Rightarrow>
         (case fmlookup m a of None \<Rightarrow> m
          | Some s \<Rightarrow> (let s' = s |-| {|sid|}
                       in if s' = {||} then fmdrop a m else fmupd a s' m)))"

definition schedule_with_id ::
  "ScheduledActionId \<Rightarrow> Tick \<Rightarrow> EntityId option \<Rightarrow> Principal \<Rightarrow> CapabilityMask \<Rightarrow> TypeCode
    \<Rightarrow> bytes \<Rightarrow> Scheduler \<Rightarrow> Scheduler" where
  "schedule_with_id sid at actor prin caps tc bs s =
     (let nid = (if next_id s < scheduled_id_get sid then scheduled_id_get sid else next_id s);
          seq = next_seq s;
          key = SchedKey at seq sid;
          entry = \<lparr>entry_id = sid, entry_at = at, entry_actor = actor, entry_principal = prin,
                   action_type_code = tc, action_bytes = bs, caps_ceiling = caps\<rparr>
      in \<lparr>ready = fmupd key entry (ready s), by_id = fmupd sid key (by_id s),
          by_actor = index_insert actor sid (by_actor s),
          next_seq = saturating_add seq 1, next_id = nid\<rparr>)"

definition schedule ::
  "Tick \<Rightarrow> EntityId option \<Rightarrow> Principal \<Rightarrow> CapabilityMask \<Rightarrow> TypeCode \<Rightarrow> bytes
    \<Rightarrow> Scheduler \<Rightarrow> (ScheduledActionId \<times> Scheduler) outcome" where
  "schedule at actor prin caps tc bs s =
     (let nid = saturating_add (next_id s) 1
      in obind (expect (ScheduledActionId_new nid)) (\<lambda>sid.
         let seq = next_seq s;
             key = SchedKey at seq sid;
             entry = \<lparr>entry_id = sid, entry_at = at, entry_actor = actor, entry_principal = prin,
                      action_type_code = tc, action_bytes = bs, caps_ceiling = caps\<rparr>
         in Done (sid, \<lparr>ready = fmupd key entry (ready s), by_id = fmupd sid key (by_id s),
                       by_actor = index_insert actor sid (by_actor s),
                       next_seq = saturating_add seq 1, next_id = nid\<rparr>)))"

definition cancel ::
  "ScheduledActionId \<Rightarrow> Scheduler \<Rightarrow> (ScheduledEntry option \<times> Scheduler) outcome" where
  "cancel sid s =
     (case fmlookup (by_id s) sid of
        None \<Rightarrow> Done (None, s)
      | Some key \<Rightarrow>
          obind (expect (fmlookup (ready s) key)) (\<lambda>entry.
            Done (Some entry,
                  s\<lparr>by_id := fmdrop sid (by_id s), ready := fmdrop key (ready s),
                    by_actor := index_remove (entry_actor entry) sid (by_actor s)\<rparr>)))"

text \<open>The loop body of \<open>cancel_by_actor\<close>: one id of the removed actor set.\<close>

definition cancel_one ::
  "ScheduledActionId \<Rightarrow> ScheduledEntry list \<times> Scheduler \<Rightarrow> ScheduledEntry list \<times> Scheduler" where
  "cancel_one sid st =
     (let (cancelled, s) = st
      in case fmlookup (by_id s) sid of
           None \<Rightarrow> (cancelled, s)
         | Some key \<Rightarrow>
             (case fmlookup (ready s) key of
                None \<Rightarrow> (cancelled, s\<lparr>by_id := fmdrop sid (by_id s)\<rparr>)
              | Some entry \<Rightarrow>
                  (cancelled @ [entry],
                   s\<lparr>by_id := fmdrop sid (by_id s), ready := fmdrop key (ready s)\<rparr>)))"

definition cancel_by_actor :: "EntityId \<Rightarrow> Scheduler \<Rightarrow> ScheduledEntry list \<times> Scheduler" where
  "cancel_by_actor actor s =
     (case fmlookup (by_actor s) actor of
        None \<Rightarrow> ([], s)
      | Some ids \<Rightarrow>
          fold cancel_one (sorted_list_of_fset ids) ([], s\<lparr>by_actor := fmdrop actor (by_actor s)\<rparr>))"

definition pop_due :: "Tick \<Rightarrow> Scheduler \<Rightarrow> (ScheduledEntry option \<times> Scheduler) outcome" where
  "pop_due now s =
     (case bt_first (ready s) of
        None \<Rightarrow> Done (None, s)
      | Some (key, _) \<Rightarrow>
          if now < key_at key then Done (None, s)
          else obind (expect (fmlookup (ready s) key)) (\<lambda>entry.
            Done (Some entry,
                  s\<lparr>ready := fmdrop key (ready s), by_id := fmdrop (entry_id entry) (by_id s),
                    by_actor := index_remove (entry_actor entry) (entry_id entry) (by_actor s)\<rparr>)))"

definition sched_len :: "Scheduler \<Rightarrow> nat" where
  "sched_len s = bt_len (ready s)"

definition sched_is_empty :: "Scheduler \<Rightarrow> bool" where
  "sched_is_empty s = (ready s = fmempty)"

subsection \<open>\<open>validate\<close>\<close>

text \<open>A loop that returns the first error of its body.\<close>

fun first_err :: "('a \<Rightarrow> 'e option) \<Rightarrow> 'a list \<Rightarrow> 'e option" where
  "first_err f [] = None"
| "first_err f (x # xs) = (case f x of Some e \<Rightarrow> Some e | None \<Rightarrow> first_err f xs)"

definition check_ready :: "Scheduler \<Rightarrow> SchedKey \<times> ScheduledEntry \<Rightarrow> string option" where
  "check_ready s ke =
     (let (key, entry) = ke
      in if entry_id entry \<noteq> key_id key then Some ''scheduler entry id does not match its key''
         else case fmlookup (by_id s) (entry_id entry) of
                Some k \<Rightarrow> if k = key then None
                          else Some ''scheduler by_id does not map back to the ready key''
              | None \<Rightarrow> Some ''scheduler by_id does not map back to the ready key'')"

definition check_actor_id :: "Scheduler \<Rightarrow> EntityId \<Rightarrow> ScheduledActionId \<Rightarrow> string option" where
  "check_actor_id s actor sid =
     (case fmlookup (by_id s) sid of
        None \<Rightarrow> Some ''scheduler by_actor references an unknown id''
      | Some key \<Rightarrow>
          (case fmlookup (ready s) key of
             Some entry \<Rightarrow> if entry_actor entry = Some actor then None
                           else Some ''scheduler by_actor actor mismatch''
           | None \<Rightarrow> Some ''scheduler by_actor actor mismatch''))"

definition check_actor ::
  "Scheduler \<Rightarrow> EntityId \<times> ScheduledActionId fset \<Rightarrow> string option" where
  "check_actor s ai =
     (let (actor, ids) = ai
      in if ids = {||} then Some ''scheduler by_actor holds an empty actor set''
         else first_err (check_actor_id s actor) (sorted_list_of_fset ids))"

definition check_indexed :: "Scheduler \<Rightarrow> ScheduledEntry \<Rightarrow> string option" where
  "check_indexed s entry =
     (case entry_actor entry of
        None \<Rightarrow> None
      | Some actor \<Rightarrow>
          (case fmlookup (by_actor s) actor of
             Some ids \<Rightarrow> if entry_id entry |\<in>| ids then None
                         else Some ''scheduler ready entry missing from its by_actor index''
           | None \<Rightarrow> Some ''scheduler ready entry missing from its by_actor index''))"

definition check_counters :: "Scheduler \<Rightarrow> SchedKey \<Rightarrow> string option" where
  "check_counters s key =
     (if next_seq s \<le> key_seq key then Some ''scheduler next_seq not monotonic over live keys''
      else if next_id s < scheduled_id_get (key_id key)
           then Some ''scheduler next_id not monotonic over live ids''
      else None)"

definition validate :: "Scheduler \<Rightarrow> string + unit" where
  "validate s =
     (if bt_len (ready s) \<noteq> bt_len (by_id s) then Inl ''scheduler ready/by_id size mismatch''
      else case first_err (check_ready s) (sorted_list_of_fmap (ready s)) of
        Some e \<Rightarrow> Inl e
      | None \<Rightarrow> (case first_err (check_actor s) (sorted_list_of_fmap (by_actor s)) of
        Some e \<Rightarrow> Inl e
      | None \<Rightarrow> (case first_err (check_indexed s) (bt_values (ready s)) of
        Some e \<Rightarrow> Inl e
      | None \<Rightarrow> (case first_err (check_counters s) (bt_keys (ready s)) of
        Some e \<Rightarrow> Inl e
      | None \<Rightarrow> Inr ()))))"

section \<open>The three-table invariant\<close>

definition ids_of :: "(EntityId, ScheduledActionId fset) fmap \<Rightarrow> EntityId \<Rightarrow> ScheduledActionId fset" where
  "ids_of m a = (case fmlookup m a of None \<Rightarrow> {||} | Some ids \<Rightarrow> ids)"

definition owned :: "Scheduler \<Rightarrow> EntityId \<Rightarrow> ScheduledActionId \<Rightarrow> bool" where
  "owned s a i \<longleftrightarrow>
     (\<exists>k e. fmlookup (by_id s) i = Some k \<and> fmlookup (ready s) k = Some e \<and> entry_actor e = Some a)"

definition sched_inv :: "Scheduler \<Rightarrow> bool" where
  "sched_inv s \<longleftrightarrow>
     (\<forall>k e. fmlookup (ready s) k = Some e \<longrightarrow>
        entry_id e = key_id k \<and> fmlookup (by_id s) (key_id k) = Some k \<and>
        key_seq k < next_seq s \<and> scheduled_id_get (key_id k) \<le> next_id s) \<and>
     (\<forall>i k. fmlookup (by_id s) i = Some k \<longrightarrow> key_id k = i \<and> fmlookup (ready s) k \<noteq> None) \<and>
     (\<forall>a i. i |\<in>| ids_of (by_actor s) a \<longleftrightarrow> owned s a i) \<and>
     (\<forall>a. fmlookup (by_actor s) a \<noteq> Some {||})"

lemma sched_invD:
  assumes "sched_inv s"
  shows "fmlookup (ready s) k = Some e \<Longrightarrow> entry_id e = key_id k"
    and "fmlookup (ready s) k = Some e \<Longrightarrow> fmlookup (by_id s) (key_id k) = Some k"
    and "fmlookup (ready s) k = Some e \<Longrightarrow> key_seq k < next_seq s"
    and "fmlookup (ready s) k = Some e \<Longrightarrow> scheduled_id_get (key_id k) \<le> next_id s"
    and "fmlookup (by_id s) i = Some k \<Longrightarrow> key_id k = i"
    and "fmlookup (by_id s) i = Some k \<Longrightarrow> fmlookup (ready s) k \<noteq> None"
    and "i |\<in>| ids_of (by_actor s) a \<longleftrightarrow> owned s a i"
    and "fmlookup (by_actor s) a \<noteq> Some {||}"
  using assms unfolding sched_inv_def by blast+

lemma sched_inv_new: "sched_inv Scheduler_new"
  by (simp add: sched_inv_def Scheduler_new_def ids_of_def owned_def)

lemma ids_of_index_insert:
  "ids_of (index_insert act sid m) a = (if act = Some a then finsert sid (ids_of m a) else ids_of m a)"
  by (auto simp: ids_of_def index_insert_def split: option.splits)

lemma index_insert_nonempty:
  "(\<And>a. fmlookup m a \<noteq> Some {||}) \<Longrightarrow> fmlookup (index_insert act sid m) a \<noteq> Some {||}"
  by (auto simp: index_insert_def split: option.splits)

lemma ids_of_index_remove:
  "ids_of (index_remove act sid m) a = (if act = Some a then ids_of m a |-| {|sid|} else ids_of m a)"
  by (auto simp: ids_of_def index_remove_def Let_def split: option.splits)

lemma index_remove_nonempty:
  "(\<And>a. fmlookup m a \<noteq> Some {||}) \<Longrightarrow> fmlookup (index_remove act sid m) a \<noteq> Some {||}"
  by (auto simp: index_remove_def Let_def split: option.splits)

lemma ScheduledActionId_new_succ [simp]:
  "ScheduledActionId_new (saturating_add n 1) = Some (ScheduledActionId (saturating_add n 1))"
  by (simp add: ScheduledActionId_new_def)

text \<open>\<open>schedule\<close> is \<open>schedule_with_id\<close> at the next id, and never panics.\<close>

lemma schedule_eq:
  "schedule at actor prin caps tc bs s =
     Done (ScheduledActionId (saturating_add (next_id s) 1),
           schedule_with_id (ScheduledActionId (saturating_add (next_id s) 1))
             at actor prin caps tc bs s)"
proof -
  have "next_id s < saturating_add (next_id s) 1 \<or> next_id s = saturating_add (next_id s) 1"
    using saturating_add_ge [of "next_id s" 1] by (auto simp: le_less)
  then show ?thesis
    by (auto simp: schedule_def schedule_with_id_def Let_def)
qed

subsection \<open>Every operation keeps the invariant\<close>

lemma schedule_with_id_inv:
  assumes inv: "sched_inv s" and fresh: "sid |\<notin>| fmdom (by_id s)" and seq: "next_seq s \<noteq> - 1"
  shows "sched_inv (schedule_with_id sid at actor p c tc bs s)"
proof -
  let ?t = "schedule_with_id sid at actor p c tc bs s"
  let ?key = "SchedKey at (next_seq s) sid"
  from seq have less: "next_seq s < saturating_add (next_seq s) 1"
    by (rule saturating_add_1_less)
  have key: "fmlookup (ready s) ?key = None"
    using sched_invD(3) [OF inv, of ?key] by (cases "fmlookup (ready s) ?key") auto
  have byid: "fmlookup (by_id s) sid = None" using fresh by auto
  have other: "key_id k \<noteq> sid" if "fmlookup (ready s) k = Some e" for k e
    using sched_invD(2) [OF inv that] byid by auto
  have own: "owned ?t a i \<longleftrightarrow> (if i = sid then actor = Some a else owned s a i)" for a i
    using byid key sched_invD(5) [OF inv, of i]
    by (auto simp: owned_def schedule_with_id_def Let_def)
  have not_own: "\<not> owned s a sid" for a using byid by (simp add: owned_def)
  have 1: "\<forall>k e. fmlookup (ready ?t) k = Some e \<longrightarrow>
        entry_id e = key_id k \<and> fmlookup (by_id ?t) (key_id k) = Some k \<and>
        key_seq k < next_seq ?t \<and> scheduled_id_get (key_id k) \<le> next_id ?t"
  proof (intro allI impI)
    fix k e assume e: "fmlookup (ready ?t) k = Some e"
    show "entry_id e = key_id k \<and> fmlookup (by_id ?t) (key_id k) = Some k \<and>
        key_seq k < next_seq ?t \<and> scheduled_id_get (key_id k) \<le> next_id ?t"
    proof (cases "k = ?key")
      case True
      with e less show ?thesis by (auto simp: schedule_with_id_def Let_def)
    next
      case False
      with e have e': "fmlookup (ready s) k = Some e" by (simp add: schedule_with_id_def Let_def)
      from sched_invD(1-4) [OF inv e'] other [OF e'] less show ?thesis
        by (auto simp: schedule_with_id_def Let_def)
    qed
  qed
  have 2: "\<forall>i k. fmlookup (by_id ?t) i = Some k \<longrightarrow> key_id k = i \<and> fmlookup (ready ?t) k \<noteq> None"
    using sched_invD(5,6) [OF inv] by (auto simp: schedule_with_id_def Let_def)
  have 3: "\<forall>a i. i |\<in>| ids_of (by_actor ?t) a \<longleftrightarrow> owned ?t a i"
    using sched_invD(7) [OF inv] not_own own
    by (auto simp: schedule_with_id_def Let_def ids_of_index_insert)
  have 4: "\<forall>a. fmlookup (by_actor ?t) a \<noteq> Some {||}"
    using sched_invD(8) [OF inv] by (simp add: schedule_with_id_def Let_def index_insert_nonempty)
  from 1 2 3 4 show ?thesis unfolding sched_inv_def by blast
qed

text \<open>The common effect of \<open>cancel\<close> and \<open>pop_due\<close>: one entry leaves all three tables.\<close>

definition remove_entry :: "SchedKey \<Rightarrow> ScheduledEntry \<Rightarrow> Scheduler \<Rightarrow> Scheduler" where
  "remove_entry key e s =
     s\<lparr>ready := fmdrop key (ready s), by_id := fmdrop (key_id key) (by_id s),
       by_actor := index_remove (entry_actor e) (key_id key) (by_actor s)\<rparr>"

lemma remove_entry_inv:
  assumes inv: "sched_inv s" and e: "fmlookup (ready s) key = Some e"
  shows "sched_inv (remove_entry key e s)"
proof -
  let ?t = "remove_entry key e s"
  have byid: "fmlookup (by_id s) (key_id key) = Some key" by (rule sched_invD(2) [OF inv e])
  have uniq: "key_id k = key_id key \<Longrightarrow> k = key" if "fmlookup (ready s) k = Some e'" for k e'
    using sched_invD(2) [OF inv that] byid by (metis option.inject)
  have other: "k \<noteq> key" if "fmlookup (by_id s) i = Some k" and "i \<noteq> key_id key" for i k
    using sched_invD(5) [OF inv that(1)] that(2) by auto
  have own: "owned ?t a i \<longleftrightarrow> i \<noteq> key_id key \<and> owned s a i" for a i
    unfolding owned_def remove_entry_def by (auto dest: other split: if_splits)
  have own_key: "owned s a (key_id key) \<longleftrightarrow> entry_actor e = Some a" for a
    using byid e by (simp add: owned_def)
  have 1: "\<forall>k e. fmlookup (ready ?t) k = Some e \<longrightarrow>
        entry_id e = key_id k \<and> fmlookup (by_id ?t) (key_id k) = Some k \<and>
        key_seq k < next_seq ?t \<and> scheduled_id_get (key_id k) \<le> next_id ?t"
  proof (intro allI impI)
    fix k e' assume "fmlookup (ready ?t) k = Some e'"
    then have e': "fmlookup (ready s) k = Some e'" "k \<noteq> key"
      by (auto simp: remove_entry_def split: if_splits)
    from sched_invD(1-4) [OF inv e'(1)] uniq [OF e'(1)] e'(2)
    show "entry_id e' = key_id k \<and> fmlookup (by_id ?t) (key_id k) = Some k \<and>
        key_seq k < next_seq ?t \<and> scheduled_id_get (key_id k) \<le> next_id ?t"
      by (auto simp: remove_entry_def)
  qed
  have 2: "\<forall>i k. fmlookup (by_id ?t) i = Some k \<longrightarrow> key_id k = i \<and> fmlookup (ready ?t) k \<noteq> None"
  proof (intro allI impI)
    fix i k assume "fmlookup (by_id ?t) i = Some k"
    then have i: "fmlookup (by_id s) i = Some k" "i \<noteq> key_id key"
      by (auto simp: remove_entry_def split: if_splits)
    from sched_invD(5,6) [OF inv i(1)] other [OF i]
    show "key_id k = i \<and> fmlookup (ready ?t) k \<noteq> None" by (simp add: remove_entry_def)
  qed
  have 3: "\<forall>a i. i |\<in>| ids_of (by_actor ?t) a \<longleftrightarrow> owned ?t a i"
  proof (intro allI)
    fix a i
    have "i |\<in>| ids_of (by_actor ?t) a \<longleftrightarrow>
        owned s a i \<and> (entry_actor e = Some a \<longrightarrow> i \<noteq> key_id key)"
      using sched_invD(7) [OF inv] by (simp add: remove_entry_def ids_of_index_remove)
    with own own_key show "i |\<in>| ids_of (by_actor ?t) a \<longleftrightarrow> owned ?t a i" by auto
  qed
  have 4: "\<forall>a. fmlookup (by_actor ?t) a \<noteq> Some {||}"
    using sched_invD(8) [OF inv] by (simp add: remove_entry_def index_remove_nonempty)
  from 1 2 3 4 show ?thesis unfolding sched_inv_def by blast
qed

lemma cancel_eq:
  assumes inv: "sched_inv s"
  shows "cancel sid s =
     (case fmlookup (by_id s) sid of None \<Rightarrow> Done (None, s)
      | Some key \<Rightarrow> Done (fmlookup (ready s) key, remove_entry key (the (fmlookup (ready s) key)) s))"
  using sched_invD(5,6) [OF inv, of sid]
  by (auto simp: cancel_def remove_entry_def split: option.splits)

text \<open>\<open>pop_due\<close> never panics, on any scheduler.\<close>

lemma pop_due_eq:
  "pop_due now s =
     (case bt_first (ready s) of None \<Rightarrow> Done (None, s)
      | Some (key, e) \<Rightarrow>
          if now < key_at key then Done (None, s)
          else Done (Some e, s\<lparr>ready := fmdrop key (ready s), by_id := fmdrop (entry_id e) (by_id s),
                 by_actor := index_remove (entry_actor e) (entry_id e) (by_actor s)\<rparr>))"
  by (auto simp: pop_due_def dest!: bt_first_lookup split: option.splits)

lemma pop_due_Done: "pop_due now s \<noteq> Panic"
  by (auto simp: pop_due_eq split: option.splits)

lemma pop_due_inv_eq:
  assumes "sched_inv s"
  shows "pop_due now s =
     (case bt_first (ready s) of None \<Rightarrow> Done (None, s)
      | Some (key, e) \<Rightarrow> if now < key_at key then Done (None, s)
                      else Done (Some e, remove_entry key e s))"
  using sched_invD(1) [OF assms]
  by (auto simp: pop_due_eq remove_entry_def dest!: bt_first_lookup split: option.splits)

lemma pop_due_inv:
  "sched_inv s \<Longrightarrow> pop_due now s = Done (r, t) \<Longrightarrow> sched_inv t"
  by (auto simp: pop_due_inv_eq remove_entry_inv [OF _ bt_first_lookup]
      split: option.splits if_splits)

lemma cancel_inv: "sched_inv s \<Longrightarrow> cancel sid s = Done (r, t) \<Longrightarrow> sched_inv t"
  by (fastforce simp: cancel_eq intro: remove_entry_inv dest: sched_invD(6) split: option.splits)

text \<open>An id above \<open>next_id\<close> is not in use.\<close>

lemma fresh_above:
  assumes inv: "sched_inv s" and "next_id s < scheduled_id_get sid"
  shows "sid |\<notin>| fmdom (by_id s)"
proof
  assume "sid |\<in>| fmdom (by_id s)"
  then obtain k where k: "fmlookup (by_id s) sid = Some k" by (auto simp: fmlookup_dom_iff)
  then obtain e where "fmlookup (ready s) k = Some e" using sched_invD(6) [OF inv] by blast
  with sched_invD(4) [OF inv] sched_invD(5) [OF inv k] have "scheduled_id_get sid \<le> next_id s" by blast
  with assms(2) show False by simp
qed

lemma schedule_above_inv:
  assumes "sched_inv s" and "next_id s < scheduled_id_get sid" and "next_seq s < scheduled_id_get sid"
  shows "sched_inv (schedule_with_id sid at actor p c tc bs s)"
    and "next_id (schedule_with_id sid at actor p c tc bs s) = scheduled_id_get sid"
    and "next_seq (schedule_with_id sid at actor p c tc bs s) \<le> scheduled_id_get sid"
proof -
  have "next_seq s \<noteq> - 1" using assms(3) word_n1_ge [of "scheduled_id_get sid"] by auto
  then show "sched_inv (schedule_with_id sid at actor p c tc bs s)"
    using schedule_with_id_inv [OF assms(1) fresh_above [OF assms(1,2)]] by blast
  show "next_id (schedule_with_id sid at actor p c tc bs s) = scheduled_id_get sid"
    using assms(2) by (simp add: schedule_with_id_def Let_def)
  have "unat (next_seq s) < unat (scheduled_id_get sid)" using assms(3) by (simp add: word_less_nat_alt)
  then show "next_seq (schedule_with_id sid at actor p c tc bs s) \<le> scheduled_id_get sid"
    by (simp add: schedule_with_id_def Let_def word_le_nat_alt sat_simps)
qed

lemma pop_due_counters:
  assumes "sched_inv s" and "pop_due now s = Done (r, t)"
  shows "next_id t = next_id s" and "next_seq t = next_seq s"
  using assms by (auto simp: pop_due_inv_eq remove_entry_def split: option.splits if_splits)

subsection \<open>\<open>validate\<close> decides the invariant\<close>

lemma first_err_None: "first_err f xs = None \<longleftrightarrow> (\<forall>x\<in>set xs. f x = None)"
  by (induction xs) (auto split: option.splits)

lemma check_ready_None:
  "check_ready s (k, e) = None \<longleftrightarrow> entry_id e = key_id k \<and> fmlookup (by_id s) (key_id k) = Some k"
  by (auto simp: check_ready_def split: option.splits)

lemma check_actor_id_None:
  "check_actor_id s a i = None \<longleftrightarrow> owned s a i"
  by (auto simp: check_actor_id_def owned_def split: option.splits)

lemma check_actor_None:
  "check_actor s (a, ids) = None \<longleftrightarrow> ids \<noteq> {||} \<and> (\<forall>i. i |\<in>| ids \<longrightarrow> owned s a i)"
  by (auto simp: check_actor_def first_err_None check_actor_id_None)

lemma check_indexed_None:
  "check_indexed s e = None \<longleftrightarrow> (\<forall>a. entry_actor e = Some a \<longrightarrow> entry_id e |\<in>| ids_of (by_actor s) a)"
  by (auto simp: check_indexed_def ids_of_def split: option.splits)

lemma check_counters_None:
  "check_counters s k = None \<longleftrightarrow> key_seq k < next_seq s \<and> scheduled_id_get (key_id k) \<le> next_id s"
  by (auto simp: check_counters_def not_le not_less)

lemma all_entries: "(\<forall>x\<in>set (sorted_list_of_fmap m). P x) \<longleftrightarrow> (\<forall>k v. fmlookup m k = Some v \<longrightarrow> P (k, v))"
  using set_sorted_list_of_fmap [of _ _ m] by fast

lemma all_values: "(\<forall>x\<in>set (bt_values m). P x) \<longleftrightarrow> (\<forall>k v. fmlookup m k = Some v \<longrightarrow> P v)"
  using all_entries [of m "\<lambda>x. P (snd x)"] by (simp add: bt_values_def)

lemma all_keys: "(\<forall>k\<in>set (bt_keys m). P k) \<longleftrightarrow> (\<forall>k v. fmlookup m k = Some v \<longrightarrow> P k)"
  by (auto simp: fmlookup_dom_iff)

lemma validate_Inr:
  "validate s = Inr () \<longleftrightarrow>
     bt_len (ready s) = bt_len (by_id s) \<and>
     (\<forall>k e. fmlookup (ready s) k = Some e \<longrightarrow>
        entry_id e = key_id k \<and> fmlookup (by_id s) (key_id k) = Some k) \<and>
     (\<forall>a ids. fmlookup (by_actor s) a = Some ids \<longrightarrow> ids \<noteq> {||} \<and> (\<forall>i. i |\<in>| ids \<longrightarrow> owned s a i)) \<and>
     (\<forall>k e. fmlookup (ready s) k = Some e \<longrightarrow>
        (\<forall>a. entry_actor e = Some a \<longrightarrow> entry_id e |\<in>| ids_of (by_actor s) a)) \<and>
     (\<forall>k e. fmlookup (ready s) k = Some e \<longrightarrow>
        key_seq k < next_seq s \<and> scheduled_id_get (key_id k) \<le> next_id s)"
proof -
  have "validate s = Inr () \<longleftrightarrow>
      bt_len (ready s) = bt_len (by_id s) \<and>
      first_err (check_ready s) (sorted_list_of_fmap (ready s)) = None \<and>
      first_err (check_actor s) (sorted_list_of_fmap (by_actor s)) = None \<and>
      first_err (check_indexed s) (bt_values (ready s)) = None \<and>
      first_err (check_counters s) (bt_keys (ready s)) = None"
    by (auto simp: validate_def split: option.splits)
  then show ?thesis
    by (simp only: first_err_None all_entries all_values all_keys check_ready_None
        check_actor_None check_indexed_None check_counters_None)
qed

lemma by_id_from_ready:
  assumes inverse_tables: "\<And>k e. fmlookup (ready s) k = Some e \<Longrightarrow> fmlookup (by_id s) (key_id k) = Some k"
  shows "inj_on key_id (fset (fmdom (ready s)))"
    and "key_id ` fset (fmdom (ready s)) \<subseteq> fset (fmdom (by_id s))"
proof -
  show "inj_on key_id (fset (fmdom (ready s)))"
    by (rule inj_onI) (metis inverse_tables fmlookup_dom_iff option.inject)
  show "key_id ` fset (fmdom (ready s)) \<subseteq> fset (fmdom (by_id s))"
    by (auto dest!: inverse_tables simp: fmlookup_dom_iff)
qed

lemma same_len_iff_onto:
  assumes inverse_tables: "\<And>k e. fmlookup (ready s) k = Some e \<Longrightarrow> fmlookup (by_id s) (key_id k) = Some k"
  shows "bt_len (ready s) = bt_len (by_id s) \<longleftrightarrow>
     (\<forall>i k. fmlookup (by_id s) i = Some k \<longrightarrow> key_id k = i \<and> fmlookup (ready s) k \<noteq> None)"
    (is "?len \<longleftrightarrow> ?onto")
proof
  let ?K = "key_id ` fset (fmdom (ready s))"
  note inj = by_id_from_ready(1) [OF inverse_tables] and sub = by_id_from_ready(2) [OF inverse_tables]
  assume ?len
  then have "card ?K = card (fset (fmdom (by_id s)))"
    by (simp add: bt_len_def fcard.rep_eq card_image [OF inj])
  with sub have eq: "?K = fset (fmdom (by_id s))"
    by (simp add: card_subset_eq)
  show ?onto
  proof (intro allI impI)
    fix i k assume i: "fmlookup (by_id s) i = Some k"
    with eq have "i \<in> ?K" by (simp add: fmdomI)
    then obtain k' e where k': "fmlookup (ready s) k' = Some e" "i = key_id k'"
      by (auto simp: fmlookup_dom_iff)
    with inverse_tables i have "k' = k" by fastforce
    with k' show "key_id k = i \<and> fmlookup (ready s) k \<noteq> None" by simp
  qed
next
  let ?K = "key_id ` fset (fmdom (ready s))"
  note inj = by_id_from_ready(1) [OF inverse_tables] and sub = by_id_from_ready(2) [OF inverse_tables]
  assume onto: ?onto
  have "fset (fmdom (by_id s)) \<subseteq> ?K"
  proof
    fix i assume "i \<in> fset (fmdom (by_id s))"
    then obtain k where "fmlookup (by_id s) i = Some k" by (auto simp: fmlookup_dom_iff)
    with onto have "key_id k = i" "k |\<in>| fmdom (ready s)" by (auto intro: fmdomI)
    then show "i \<in> ?K" by blast
  qed
  with sub have "?K = fset (fmdom (by_id s))" by simp
  then show ?len
    by (simp add: bt_len_def fcard.rep_eq flip: card_image [OF inj])
qed

lemma validate_iff: "validate s = Inr () \<longleftrightarrow> sched_inv s"
proof
  assume v: "validate s = Inr ()"
  note v' = v [unfolded validate_Inr]
  have inverse_tables: "fmlookup (by_id s) (key_id k) = Some k" if "fmlookup (ready s) k = Some e" for k e
    using v' that by blast
  have onto: "\<forall>i k. fmlookup (by_id s) i = Some k \<longrightarrow> key_id k = i \<and> fmlookup (ready s) k \<noteq> None"
    using v' same_len_iff_onto [of s] inverse_tables by blast
  have "i |\<in>| ids_of (by_actor s) a \<longleftrightarrow> owned s a i" for a i
  proof
    assume "i |\<in>| ids_of (by_actor s) a"
    then obtain ids where "fmlookup (by_actor s) a = Some ids" "i |\<in>| ids"
      by (auto simp: ids_of_def split: option.splits)
    then show "owned s a i" using v' by blast
  next
    assume "owned s a i"
    then obtain k e where ke: "fmlookup (by_id s) i = Some k" "fmlookup (ready s) k = Some e"
        "entry_actor e = Some a"
      by (auto simp: owned_def)
    then have "entry_id e = i" using v' onto by metis
    then show "i |\<in>| ids_of (by_actor s) a" using v' ke by metis
  qed
  moreover have "fmlookup (by_actor s) a \<noteq> Some {||}" for a using v' by blast
  ultimately show "sched_inv s" using v' onto unfolding sched_inv_def by blast
next
  assume inv: "sched_inv s"
  note D = sched_invD [OF inv]
  have "bt_len (ready s) = bt_len (by_id s)"
    using same_len_iff_onto [of s] D(2,5,6) by blast
  moreover have "ids \<noteq> {||} \<and> (\<forall>i. i |\<in>| ids \<longrightarrow> owned s a i)"
    if "fmlookup (by_actor s) a = Some ids" for a ids
    using D(7) [of _ a] D(8) [of a] that by (auto simp: ids_of_def)
  moreover have "entry_id e |\<in>| ids_of (by_actor s) a"
    if "fmlookup (ready s) k = Some e" "entry_actor e = Some a" for k e a
    using that D(1,2) [OF that(1)] by (auto simp: D(7) owned_def)
  ultimately show "validate s = Inr ()"
    unfolding validate_Inr using D(1-4) by blast
qed

subsection \<open>Bulk cancellation\<close>

lemma cancel_one_fold:
  assumes "distinct xs"
    and "\<And>k e. fmlookup (ready s) k = Some e \<Longrightarrow> fmlookup (by_id s) (key_id k) = Some k"
    and "\<And>i. i \<in> set xs \<Longrightarrow> \<exists>k e. fmlookup (by_id s) i = Some k \<and> fmlookup (ready s) k = Some e \<and> key_id k = i"
  shows "fold cancel_one xs (c, s) =
     (c @ map (\<lambda>i. the (fmlookup (ready s) (the (fmlookup (by_id s) i)))) xs,
      s\<lparr>by_id := fmfilter (\<lambda>i. i \<notin> set xs) (by_id s),
        ready := fmfilter (\<lambda>k. key_id k \<notin> set xs) (ready s)\<rparr>)"
  using assms
proof (induction xs arbitrary: c s)
  case Nil
  then show ?case by simp
next
  case (Cons i xs)
  from Cons.prems(3) [of i] obtain k e where
    k: "fmlookup (by_id s) i = Some k" "fmlookup (ready s) k = Some e" "key_id k = i"
    by auto
  let ?t = "s\<lparr>by_id := fmdrop i (by_id s), ready := fmdrop k (ready s)\<rparr>"
  have one: "cancel_one i (c, s) = (c @ [e], ?t)"
    using k by (simp add: cancel_one_def)
  have uniq: "key_id k' = i \<Longrightarrow> k' = k" if "fmlookup (ready s) k' = Some e'" for k' e'
    using Cons.prems(2) [OF that] k(1) by (metis option.inject)
  have tables: "fmlookup (by_id ?t) (key_id k') = Some k'" if "fmlookup (ready ?t) k' = Some e'" for k' e'
  proof -
    from that have k': "fmlookup (ready s) k' = Some e'" "k' \<noteq> k" by (auto split: if_splits)
    with uniq [OF k'(1)] have "key_id k' \<noteq> i" by blast
    with Cons.prems(2) [OF k'(1)] show ?thesis by simp
  qed
  have live: "\<exists>k e. fmlookup (by_id ?t) j = Some k \<and> fmlookup (ready ?t) k = Some e \<and> key_id k = j"
    if "j \<in> set xs" for j
  proof -
    from that Cons.prems(1) have "j \<noteq> i" by auto
    moreover from that Cons.prems(3) [of j] obtain k' e' where
      "fmlookup (by_id s) j = Some k'" "fmlookup (ready s) k' = Some e'" "key_id k' = j" by auto
    ultimately show ?thesis using k(3) by (intro exI [of _ k'] exI [of _ e']) auto
  qed
  have same: "fmlookup (ready ?t) (the (fmlookup (by_id ?t) j)) = fmlookup (ready s) (the (fmlookup (by_id s) j))"
    if "j \<in> set xs" for j
  proof -
    from live [OF that] obtain k' e' where "fmlookup (by_id ?t) j = Some k'"
      "fmlookup (ready ?t) k' = Some e'" by blast
    then show ?thesis by (auto split: if_splits)
  qed
  have r: "fmfilter (\<lambda>k. key_id k \<notin> set xs) (fmdrop k (ready s)) =
      fmfilter (\<lambda>k. key_id k \<noteq> i \<and> key_id k \<notin> set xs) (ready s)"
  proof (rule fmap_ext)
    fix k'
    show "fmlookup (fmfilter (\<lambda>k. key_id k \<notin> set xs) (fmdrop k (ready s))) k' =
      fmlookup (fmfilter (\<lambda>k. key_id k \<noteq> i \<and> key_id k \<notin> set xs) (ready s)) k'"
    proof (cases "fmlookup (ready s) k'")
      case None
      then show ?thesis by simp
    next
      case (Some e')
      from uniq [OF Some] k(3) have "k' = k \<longleftrightarrow> key_id k' = i" by blast
      then show ?thesis by simp
    qed
  qed
  have b: "fmfilter (\<lambda>j. j \<notin> set xs) (fmdrop i (by_id s)) =
      fmfilter (\<lambda>j. j \<noteq> i \<and> j \<notin> set xs) (by_id s)"
    by (rule fmap_ext) simp
  have "fold cancel_one (i # xs) (c, s) = fold cancel_one xs (c @ [e], ?t)"
    by (simp add: one)
  also have "\<dots> = ((c @ [e]) @ map (\<lambda>j. the (fmlookup (ready ?t) (the (fmlookup (by_id ?t) j)))) xs,
      ?t\<lparr>by_id := fmfilter (\<lambda>j. j \<notin> set xs) (by_id ?t),
         ready := fmfilter (\<lambda>k. key_id k \<notin> set xs) (ready ?t)\<rparr>)"
  proof (rule Cons.IH)
    show "distinct xs" using Cons.prems(1) by simp
  qed (fact tables, fact live)
  finally have "fold cancel_one (i # xs) (c, s) =
      (c @ e # map (\<lambda>j. the (fmlookup (ready s) (the (fmlookup (by_id s) j)))) xs,
       ?t\<lparr>by_id := fmfilter (\<lambda>j. j \<notin> set xs) (by_id ?t),
         ready := fmfilter (\<lambda>k. key_id k \<notin> set xs) (ready ?t)\<rparr>)"
    using same by (simp cong: map_cong)
  then show ?case
    using k(1,2) by (simp add: r b)
qed

lemma cancel_by_actor_eq:
  assumes inv: "sched_inv s"
  shows "cancel_by_actor a s =
     (map (\<lambda>i. the (fmlookup (ready s) (the (fmlookup (by_id s) i)))) (sorted_list_of_fset (ids_of (by_actor s) a)),
      s\<lparr>by_id := fmfilter (\<lambda>i. i |\<notin>| ids_of (by_actor s) a) (by_id s),
        ready := fmfilter (\<lambda>k. key_id k |\<notin>| ids_of (by_actor s) a) (ready s),
        by_actor := fmdrop a (by_actor s)\<rparr>)"
proof (cases "fmlookup (by_actor s) a")
  case None
  then show ?thesis
    by (simp add: cancel_by_actor_def ids_of_def sorted_list_of_fset.rep_eq fmdrop_idle fmdom_notI)
next
  case (Some ids)
  let ?s = "s\<lparr>by_actor := fmdrop a (by_actor s)\<rparr>"
  have ids: "ids_of (by_actor s) a = ids" using Some by (simp add: ids_of_def)
  have "fold cancel_one (sorted_list_of_fset ids) ([], ?s) =
     ([] @ map (\<lambda>i. the (fmlookup (ready ?s) (the (fmlookup (by_id ?s) i)))) (sorted_list_of_fset ids),
      ?s\<lparr>by_id := fmfilter (\<lambda>i. i \<notin> set (sorted_list_of_fset ids)) (by_id ?s),
        ready := fmfilter (\<lambda>k. key_id k \<notin> set (sorted_list_of_fset ids)) (ready ?s)\<rparr>)"
  proof (rule cancel_one_fold)
    show "distinct (sorted_list_of_fset ids)" by (simp add: sorted_list_of_fset.rep_eq)
    show "fmlookup (by_id ?s) (key_id k) = Some k" if "fmlookup (ready ?s) k = Some e" for k e
      using that sched_invD(2) [OF inv] by simp
    show "\<exists>k e. fmlookup (by_id ?s) i = Some k \<and> fmlookup (ready ?s) k = Some e \<and> key_id k = i"
      if "i \<in> set (sorted_list_of_fset ids)" for i
    proof -
      from that have "owned s a i" using sched_invD(7) [OF inv, of i a] ids by simp
      then show ?thesis using sched_invD(5) [OF inv, of i] by (auto simp: owned_def)
    qed
  qed
  then show ?thesis using Some ids by (simp add: cancel_by_actor_def)
qed

lemma cancel_by_actor_inv:
  assumes inv: "sched_inv s"
  shows "sched_inv (snd (cancel_by_actor a s))"
proof -
  let ?I = "ids_of (by_actor s) a"
  let ?t = "s\<lparr>by_id := fmfilter (\<lambda>i. i |\<notin>| ?I) (by_id s),
        ready := fmfilter (\<lambda>k. key_id k |\<notin>| ?I) (ready s), by_actor := fmdrop a (by_actor s)\<rparr>"
  note D = sched_invD [OF inv]
  have own: "owned ?t b i \<longleftrightarrow> owned s b i \<and> i |\<notin>| ?I" for b i
    unfolding owned_def using D(5) by (auto split: if_splits)
  have excl: "owned s b i \<Longrightarrow> i |\<in>| ?I \<Longrightarrow> b = a" for b i
    unfolding D(7) by (auto simp: owned_def)
  have "i |\<in>| ids_of (by_actor ?t) b \<longleftrightarrow> owned ?t b i" for b i
  proof -
    have "i |\<in>| ids_of (by_actor ?t) b \<longleftrightarrow> b \<noteq> a \<and> owned s b i"
      using D(7) [of i b] by (auto simp: ids_of_def)
    also have "\<dots> \<longleftrightarrow> owned s b i \<and> i |\<notin>| ?I"
      using excl [of b i] D(7) [of i a] by auto
    finally show ?thesis using own by simp
  qed
  moreover have "fmlookup (by_actor ?t) b \<noteq> Some {||}" for b
    using D(8) [of b] by simp
  moreover have "key_id k = i \<and> fmlookup (ready ?t) k \<noteq> None" if "fmlookup (by_id ?t) i = Some k" for i k
    using that D(5,6) [of i k] by (auto split: if_splits)
  moreover have "entry_id e = key_id k \<and> fmlookup (by_id ?t) (key_id k) = Some k \<and>
      key_seq k < next_seq ?t \<and> scheduled_id_get (key_id k) \<le> next_id ?t"
    if "fmlookup (ready ?t) k = Some e" for k e
    using that D(1-4) [of k e] by (auto split: if_splits)
  ultimately have "sched_inv ?t" unfolding sched_inv_def by blast
  then show ?thesis by (simp add: cancel_by_actor_eq [OF inv])
qed

text \<open>The entries of an actor and the ids its index holds.\<close>

lemma actor_entry:
  assumes "sched_inv s" and "fmlookup (ready s) k = Some e"
  shows "key_id k |\<in>| ids_of (by_actor s) actor \<longleftrightarrow> entry_actor e = Some actor"
    and "the (fmlookup (ready s) (the (fmlookup (by_id s) (key_id k)))) = e"
  using sched_invD(2) [OF assms] sched_invD(7) [OF assms(1), of "key_id k" actor] assms(2) by (auto simp: owned_def)

lemma actor_id_entry:
  assumes "sched_inv s" and "i |\<in>| ids_of (by_actor s) actor"
  defines "e \<equiv> the (fmlookup (ready s) (the (fmlookup (by_id s) i)))"
  shows "\<exists>k. fmlookup (ready s) k = Some e \<and> key_id k = i \<and> entry_id e = i \<and> entry_actor e = Some actor"
proof -
  note D = sched_invD [OF assms(1)]
  from assms(2) D(7) [of i actor] obtain k e' where
    k: "fmlookup (by_id s) i = Some k" "fmlookup (ready s) k = Some e'" "entry_actor e' = Some actor"
    by (auto simp: owned_def)
  then show ?thesis using D(5) [OF k(1)] D(1) [OF k(2)] by (auto simp: e_def)
qed

section \<open>What the kernel relies on: the due queue\<close>

text \<open>Popping \<open>n\<close> times at one tick, stopping at the first empty answer.\<close>

fun pop_n :: "('t \<Rightarrow> 'q \<Rightarrow> ('e option \<times> 'q) outcome) \<Rightarrow> 't \<Rightarrow> nat \<Rightarrow> 'q \<Rightarrow> ('e list \<times> 'q) outcome" where
  "pop_n pop t 0 q = Done ([], q)"
| "pop_n pop t (Suc n) q =
     obind (pop t q) (\<lambda>(r, q'). case r of
        None \<Rightarrow> Done ([], q')
      | Some e \<Rightarrow> obind (pop_n pop t n q') (\<lambda>(es, q''). Done (e # es, q'')))"

locale due_queue =
  fixes pop :: "'t \<Rightarrow> 'q \<Rightarrow> ('e option \<times> 'q) outcome"
    and pending :: "'q \<Rightarrow> ('k::linorder, 'e) fmap"
    and due :: "'t \<Rightarrow> 'k \<Rightarrow> bool"
    and invar :: "'q \<Rightarrow> bool"
  assumes pop_none: "invar q \<Longrightarrow> (\<And>k. k |\<in>| fmdom (pending q) \<Longrightarrow> \<not> due t k) \<Longrightarrow> pop t q = Done (None, q)"
    and pop_some: "invar q \<Longrightarrow> k |\<in>| fmdom (pending q) \<Longrightarrow> (\<And>j. j |\<in>| fmdom (pending q) \<Longrightarrow> k \<le> j) \<Longrightarrow>
      due t k \<Longrightarrow> \<exists>q'. pop t q = Done (fmlookup (pending q) k, q') \<and> invar q' \<and> pending q' = fmdrop k (pending q)"
    and due_down: "due t k \<Longrightarrow> j \<le> k \<Longrightarrow> due t j"
begin

lemma pops_in_order:
  assumes "invar q" and "n \<le> length (bt_keys (pending q))"
    and "\<forall>k\<in>set (take n (bt_keys (pending q))). due t k"
  shows "\<exists>q'. pop_n pop t n q = Done (map (\<lambda>k. the (fmlookup (pending q) k)) (take n (bt_keys (pending q))), q')
     \<and> invar q' \<and> bt_keys (pending q') = drop n (bt_keys (pending q))"
  using assms
proof (induction n arbitrary: q)
  case 0
  then show ?case by simp
next
  case (Suc n)
  from Suc.prems(2) obtain k ks where ks: "bt_keys (pending q) = k # ks"
    by (cases "bt_keys (pending q)") auto
  have k: "k |\<in>| fmdom (pending q)"
    using set_bt_keys [of "pending q"] ks by (metis list.set_intros(1))
  from Suc.prems(3) ks have "due t k" by simp
  with k obtain q1 where q1: "pop t q = Done (fmlookup (pending q) k, q1)" "invar q1"
      "pending q1 = fmdrop k (pending q)"
    using pop_some [OF Suc.prems(1) k bt_keys_head_least [OF ks]] by blast
  have keys1: "bt_keys (pending q1) = ks"
    using bt_keys_drop_head [OF ks] q1(3) by simp
  have "k \<notin> set ks" using sorted_bt_keys(2) [of "pending q"] ks by simp
  then have vals: "map (\<lambda>j. the (fmlookup (pending q1) j)) (take n ks) =
      map (\<lambda>j. the (fmlookup (pending q) j)) (take n ks)"
    using q1(3) by (auto dest: in_set_takeD)
  from k obtain e where e: "fmlookup (pending q) k = Some e" by (auto simp: fmlookup_dom_iff)
  have "\<exists>q'. pop_n pop t n q1 = Done (map (\<lambda>k. the (fmlookup (pending q1) k)) (take n (bt_keys (pending q1))), q')
     \<and> invar q' \<and> bt_keys (pending q') = drop n (bt_keys (pending q1))"
    using Suc.prems(2,3) ks keys1 by (intro Suc.IH [OF q1(2)]) auto
  then show ?case using q1(1) e ks keys1 vals by auto
qed

text \<open>No starvation: a due entry is popped by the time the entries before it are.\<close>

lemma eventually_popped:
  assumes "invar q" and "fmlookup (pending q) k = Some e" and "due t k"
  shows "\<exists>n es q'. n \<le> bt_len (pending q) \<and> pop_n pop t n q = Done (es, q') \<and> e \<in> set es \<and> k |\<notin>| fmdom (pending q')"
proof -
  let ?ks = "bt_keys (pending q)"
  have "k \<in> set ?ks" using assms(2) by (simp add: fmdomI)
  then obtain i where i: "i < length ?ks" "?ks ! i = k" by (metis in_set_conv_nth)
  have "due t j" if "j \<in> set (take (Suc i) ?ks)" for j
  proof -
    from that obtain m where "m \<le> i" "j = ?ks ! m"
      by (auto simp: in_set_conv_nth less_Suc_eq_le)
    then have "j \<le> k" using sorted_nth_mono [OF sorted_bt_keys(1)] i by blast
    then show ?thesis using assms(3) due_down by blast
  qed
  then obtain q' where q': "pop_n pop t (Suc i) q =
      Done (map (\<lambda>k. the (fmlookup (pending q) k)) (take (Suc i) ?ks), q')"
      "bt_keys (pending q') = drop (Suc i) ?ks"
    using pops_in_order [OF assms(1), of "Suc i" t] i(1) by auto
  have "k \<in> set (take (Suc i) ?ks)" using i by (auto simp: in_set_conv_nth)
  then have e: "e \<in> set (map (\<lambda>k. the (fmlookup (pending q) k)) (take (Suc i) ?ks))"
    using assms(2) by (auto simp: image_iff intro!: bexI [of _ k])
  have "k \<notin> set (drop (Suc i) ?ks)"
    using \<open>k \<in> set (take (Suc i) ?ks)\<close> sorted_bt_keys(2) [of "pending q"]
    by (metis append_take_drop_id disjoint_iff distinct_append)
  then have "k |\<notin>| fmdom (pending q')" using q'(2) set_bt_keys [of "pending q'"] by simp
  moreover have "Suc i \<le> bt_len (pending q)"
    using i(1) by (simp add: bt_len_def fcard.rep_eq bt_keys_eq sorted_list_of_fset.rep_eq)
  ultimately show ?thesis using q'(1) e by blast
qed

end

lemma bt_first_head:
  assumes "k |\<in>| fmdom m" and "\<And>j. j |\<in>| fmdom m \<Longrightarrow> k \<le> j"
  shows "\<exists>v. bt_first m = Some (k, v) \<and> fmlookup m k = Some v"
proof (cases "bt_first m")
  case None
  with assms(1) show ?thesis by (simp add: bt_first_None)
next
  case (Some kv)
  obtain k' v where kv: "kv = (k', v)" by (cases kv)
  with Some have k': "fmlookup m k' = Some v" by (simp add: bt_first_lookup)
  from assms(1) obtain w where "fmlookup m k = Some w" by (auto simp: fmlookup_dom_iff)
  with Some kv have "k' \<le> k" by (simp add: bt_first_least)
  moreover have "k \<le> k'" using assms(2) k' by (auto intro: fmdomI)
  ultimately show ?thesis using Some kv k' by simp
qed

interpretation sched: due_queue pop_due ready "\<lambda>now k. key_at k \<le> now" sched_inv
proof
  fix q now assume "sched_inv q" and none: "\<And>k. k |\<in>| fmdom (ready q) \<Longrightarrow> \<not> key_at k \<le> now"
  then show "pop_due now q = Done (None, q)"
    by (auto simp: pop_due_eq not_le dest!: bt_first_lookup fmdomI split: option.splits)
next
  fix q now k
  assume inv: "sched_inv q" and k: "k |\<in>| fmdom (ready q)" and due: "key_at k \<le> now"
    and least: "\<And>j. j |\<in>| fmdom (ready q) \<Longrightarrow> k \<le> j"
  from bt_first_head [OF k least] obtain e where
    e: "bt_first (ready q) = Some (k, e)" "fmlookup (ready q) k = Some e" by blast
  with inv due show "\<exists>q'. pop_due now q = Done (fmlookup (ready q) k, q') \<and> sched_inv q' \<and>
      ready q' = fmdrop k (ready q)"
    using remove_entry_inv [OF inv e(2)]
    by (simp add: pop_due_inv_eq not_less remove_entry_def)
next
  fix now :: Tick and k j :: SchedKey
  assume "key_at k \<le> now" and "j \<le> k"
  then show "key_at j \<le> now"
    by (auto simp: less_eq_SchedKey_def key_tuple_def less_eq_prod_def)
qed

section \<open>A sample scheduler\<close>

definition one_entry_sched :: Scheduler where
  "one_entry_sched = schedule_with_id (ScheduledActionId 1) (Tick 0) (Some (EntityId 1)) System 1 (TypeCode 7) [] Scheduler_new"

lemma one_entry_inv: "sched_inv one_entry_sched"
  unfolding one_entry_sched_def by (rule schedule_above_inv) (simp_all add: sched_inv_new, simp_all add: Scheduler_new_def)

lemma one_entry_tables:
  "ready one_entry_sched = fmupd (SchedKey (Tick 0) 0 (ScheduledActionId 1))
     \<lparr>entry_id = ScheduledActionId 1, entry_at = Tick 0, entry_actor = Some (EntityId 1), entry_principal = System,
      action_type_code = TypeCode 7, action_bytes = [], caps_ceiling = 1\<rparr> fmempty"
  "by_id one_entry_sched = fmupd (ScheduledActionId 1) (SchedKey (Tick 0) 0 (ScheduledActionId 1)) fmempty"
  "by_actor one_entry_sched = fmupd (EntityId 1) {|ScheduledActionId 1|} fmempty"
  by (simp_all add: one_entry_sched_def schedule_with_id_def Scheduler_new_def Let_def index_insert_def)

section \<open>Properties\<close>

text \<open>
  C19 (\<open>validate\<close> decides consistency). The structural check that untrusted snapshots go through accepts
  a scheduler exactly when its three tables describe the same set of actions and both counters are
  ahead of every live key. On such a scheduler neither \<open>cancel\<close> nor \<open>pop_due\<close> reaches its
  \<open>expect\<close>, and both leave a scheduler that \<open>validate\<close> accepts.
\<close>

theorem validate_decides:
  "(validate s = Inr () \<longleftrightarrow> sched_inv s) \<and>
   (validate s = Inr () \<longrightarrow>
      (\<exists>r t. cancel sid s = Done (r, t) \<and> validate t = Inr ()) \<and>
      (\<exists>r t. pop_due now s = Done (r, t) \<and> validate t = Inr ()))"
proof -
  have "\<exists>r t. cancel sid s = Done (r, t) \<and> sched_inv t" if i: "sched_inv s"
  proof -
    obtain r t where "cancel sid s = Done (r, t)" using cancel_eq [OF i, of sid] by (cases "fmlookup (by_id s) sid") auto
    with cancel_inv [OF i] show ?thesis by blast
  qed
  moreover have "\<exists>r t. pop_due now s = Done (r, t) \<and> sched_inv t" if i: "sched_inv s"
  proof -
    obtain r t where "pop_due now s = Done (r, t)" using pop_due_Done by (cases "pop_due now s") auto
    with pop_due_inv [OF i] show ?thesis by blast
  qed
  ultimately show ?thesis by (auto simp: validate_iff)
qed

theorem validate_decides_witness:
  "\<exists>r t. pop_due (Tick 3) one_entry_sched = Done (r, t) \<and> validate t = Inr ()"
  using validate_decides [of one_entry_sched] one_entry_inv by blast

text \<open>
  C20 (pops come in canonical order). Popping \<open>n\<close> times at a tick at which the first \<open>n\<close> entries are due
  returns exactly these entries, in ascending (tick, sequence, id) order, and leaves exactly the rest.
\<close>

theorem pops_in_canonical_order:
  assumes "sched_inv s" and "n \<le> length (bt_keys (ready s))" and "\<forall>k\<in>set (take n (bt_keys (ready s))). key_at k \<le> now"
  shows "sorted (bt_keys (ready s)) \<and>
    (\<exists>t. pop_n pop_due now n s = Done (map (\<lambda>k. the (fmlookup (ready s) k)) (take n (bt_keys (ready s))), t) \<and>
       sched_inv t \<and> bt_keys (ready t) = drop n (bt_keys (ready s)))"
  using sched.pops_in_order [OF assms] sorted_bt_keys(1) by blast

theorem pops_in_canonical_order_witness:
  "\<exists>t. pop_n pop_due (Tick 3) 1 one_entry_sched =
      Done ([the (fmlookup (ready one_entry_sched) (SchedKey (Tick 0) 0 (ScheduledActionId 1)))], t) \<and> bt_keys (ready t) = []"
proof -
  have k: "bt_keys (ready one_entry_sched) = [SchedKey (Tick 0) 0 (ScheduledActionId 1)]"
    by (simp add: one_entry_tables bt_keys_eq sorted_list_of_fset.rep_eq)
  from pops_in_canonical_order [OF one_entry_inv, of 1 "Tick 3"] k show ?thesis
    by (auto simp: less_eq_Tick_def)
qed

text \<open>
  C21 (no starvation). A scheduled action that is due is popped after at most as many pops as there
  are pending entries, and is then gone.
\<close>

theorem due_action_is_popped:
  assumes "sched_inv s" and "fmlookup (ready s) k = Some e" and "key_at k \<le> now"
  shows "\<exists>n es t. n \<le> sched_len s \<and> pop_n pop_due now n s = Done (es, t) \<and> e \<in> set es \<and> k |\<notin>| fmdom (ready t)"
  unfolding sched_len_def using sched.eventually_popped [OF assms] .

theorem due_action_is_popped_witness:
  "\<exists>n es t. n \<le> sched_len one_entry_sched \<and> pop_n pop_due (Tick 3) n one_entry_sched = Done (es, t) \<and>
     SchedKey (Tick 0) 0 (ScheduledActionId 1) |\<notin>| fmdom (ready t)"
  using due_action_is_popped [OF one_entry_inv, of "SchedKey (Tick 0) 0 (ScheduledActionId 1)" _ "Tick 3"]
  by (fastforce simp: one_entry_tables less_eq_Tick_def)

text \<open>
  C22 (\<open>cancel_by_actor\<close> is exact). It returns the pending actions of that actor and no others, each
  once, in ascending id order; what stays pending is exactly the actions of other actors or of none;
  and the tables stay consistent.
\<close>

theorem cancel_by_actor_exact:
  assumes "sched_inv s" and "cancel_by_actor actor s = (cancelled, t)"
  shows "set cancelled = {e. \<exists>k. fmlookup (ready s) k = Some e \<and> entry_actor e = Some actor} \<and>
    sorted (map entry_id cancelled) \<and> distinct cancelled \<and>
    ready t = fmfilter (\<lambda>k. \<forall>e. fmlookup (ready s) k = Some e \<longrightarrow> entry_actor e \<noteq> Some actor) (ready s) \<and> sched_inv t"
proof -
  let ?I = "ids_of (by_actor s) actor"
  let ?f = "\<lambda>i. the (fmlookup (ready s) (the (fmlookup (by_id s) i)))"
  have c: "cancelled = map ?f (sorted_list_of_fset ?I)" and t: "ready t = fmfilter (\<lambda>k. key_id k |\<notin>| ?I) (ready s)"
    using cancel_by_actor_eq [OF assms(1), of actor] assms(2) by auto
  note own = actor_entry [OF assms(1)] and mem = actor_id_entry [OF assms(1)]
  have ids: "map entry_id cancelled = sorted_list_of_fset ?I"
  proof -
    have "entry_id (?f i) = i" if "i |\<in>| ?I" for i using mem [OF that] by blast
    then show ?thesis unfolding c by (auto intro!: map_idI)
  qed
  have "set cancelled = {e. \<exists>k. fmlookup (ready s) k = Some e \<and> entry_actor e = Some actor}"
  proof (rule set_eqI, rule iffI)
    fix e assume "e \<in> set cancelled"
    then obtain i where "i |\<in>| ?I" "e = ?f i" unfolding c by auto
    with mem [of i] show "e \<in> {e. \<exists>k. fmlookup (ready s) k = Some e \<and> entry_actor e = Some actor}" by blast
  next
    fix e assume "e \<in> {e. \<exists>k. fmlookup (ready s) k = Some e \<and> entry_actor e = Some actor}"
    then obtain k where k: "fmlookup (ready s) k = Some e" "entry_actor e = Some actor" by blast
    with own [OF k(1)] have "key_id k |\<in>| ?I" "e = ?f (key_id k)" by simp_all
    then show "e \<in> set cancelled" unfolding c by auto
  qed
  moreover have "sorted (map entry_id cancelled)" "distinct (map entry_id cancelled)"
    unfolding ids by (simp_all add: sorted_list_of_fset.rep_eq)
  moreover from this(2) have "distinct cancelled" by (simp add: distinct_map)
  moreover have "ready t = fmfilter (\<lambda>k. \<forall>e. fmlookup (ready s) k = Some e \<longrightarrow> entry_actor e \<noteq> Some actor) (ready s)"
  proof (rule fmap_ext)
    fix k
    show "fmlookup (ready t) k = fmlookup (fmfilter (\<lambda>k. \<forall>e. fmlookup (ready s) k = Some e \<longrightarrow> entry_actor e \<noteq> Some actor) (ready s)) k"
      unfolding t using own(1) [of k] by (cases "fmlookup (ready s) k") simp_all
  qed
  moreover have "sched_inv t" using cancel_by_actor_inv [OF assms(1), of actor] assms(2) by simp
  ultimately show ?thesis by blast
qed

theorem cancel_by_actor_exact_witness:
  "set (fst (cancel_by_actor (EntityId 1) one_entry_sched)) =
     {e. \<exists>k. fmlookup (ready one_entry_sched) k = Some e \<and> entry_actor e = Some (EntityId 1)} \<and>
   sched_inv (snd (cancel_by_actor (EntityId 1) one_entry_sched))"
proof -
  obtain c t where ct: "cancel_by_actor (EntityId 1) one_entry_sched = (c, t)" by fastforce
  show ?thesis unfolding ct using cancel_by_actor_exact [OF one_entry_inv ct] by simp
qed

end
