(* ===== verification/Ledger.thy ===== *)
theory Ledger
  imports Abi
begin

text \<open>
  The resource ledger (\<open>state/ledger.rs\<close>): which entities an instance has, the declared size of
  every attached component, and a cached 64-bit total of those sizes. The theory translates the
  operations and relates the cache to the sum it stands for: it never exceeds the sum, and it is
  the sum as long as the sum fits in 64 bits.
\<close>

section \<open>Data and operations\<close>

record ResourceLedger =
  ledger_entities :: "EntityId fset"
  component_sizes :: "(EntityId \<times> TypeCode, u64) fmap"
  total_bytes :: u64

definition ledger_new :: ResourceLedger where
  "ledger_new = \<lparr>ledger_entities = {||}, component_sizes = fmempty, total_bytes = 0\<rparr>"

definition total_entities :: "ResourceLedger \<Rightarrow> u32" where
  "total_entities l = u32_try_from (fcard (ledger_entities l))"

definition component_size :: "EntityId \<Rightarrow> TypeCode \<Rightarrow> ResourceLedger \<Rightarrow> u64 option" where
  "component_size ent tc l = fmlookup (component_sizes l) (ent, tc)"

definition entity_range :: "EntityId \<Rightarrow> ResourceLedger \<Rightarrow> ((EntityId \<times> TypeCode) \<times> u64) list" where
  "entity_range eid l = bt_range (eid, TypeCode 0) (eid, TypeCode (- 1)) (component_sizes l)"

definition entity_bytes :: "EntityId \<Rightarrow> ResourceLedger \<Rightarrow> u64" where
  "entity_bytes eid l = fold (\<lambda>(_, sz) acc. saturating_add acc sz) (entity_range eid l) 0"

definition type_count :: "TypeCode \<Rightarrow> ResourceLedger \<Rightarrow> u32" where
  "type_count tc l = u32_try_from (length (filter (\<lambda>(_, t). t = tc) (bt_keys (component_sizes l))))"

definition add_entity :: "EntityId \<Rightarrow> ResourceLedger \<Rightarrow> bool \<times> ResourceLedger" where
  "add_entity eid l =
     (eid |\<notin>| ledger_entities l, l\<lparr>ledger_entities := finsert eid (ledger_entities l)\<rparr>)"

text \<open>The loop body of \<open>remove_entity\<close>: drop one component, crediting its stored size.\<close>

definition drop_component :: "EntityId \<times> TypeCode \<Rightarrow> u64 \<times> ResourceLedger \<Rightarrow> u64 \<times> ResourceLedger" where
  "drop_component k st =
     (let (freed, l) = st
      in case fmlookup (component_sizes l) k of
           None \<Rightarrow> (freed, l)
         | Some sz \<Rightarrow>
             (saturating_add freed sz,
              l\<lparr>component_sizes := fmdrop k (component_sizes l),
                total_bytes := saturating_sub (total_bytes l) sz\<rparr>))"

definition remove_entity :: "EntityId \<Rightarrow> ResourceLedger \<Rightarrow> u64 \<times> ResourceLedger" where
  "remove_entity eid l =
     (if eid |\<notin>| ledger_entities l then (0, l)
      else let l' = l\<lparr>ledger_entities := ledger_entities l |-| {|eid|}\<rparr>;
               ks = map fst (entity_range eid l')
           in fold drop_component ks (0, l'))"

definition add_component :: "EntityId \<Rightarrow> TypeCode \<Rightarrow> u64 \<Rightarrow> ResourceLedger \<Rightarrow> bool \<times> ResourceLedger" where
  "add_component ent tc sz l =
     (if ent |\<notin>| ledger_entities l then (False, l)
      else let l' = l\<lparr>component_sizes := fmupd (ent, tc) sz (component_sizes l)\<rparr>
           in (True,
               case fmlookup (component_sizes l) (ent, tc) of
                 Some old \<Rightarrow>
                   if old \<le> sz then l'\<lparr>total_bytes := saturating_add (total_bytes l) (sz - old)\<rparr>
                   else l'\<lparr>total_bytes := saturating_sub (total_bytes l) (old - sz)\<rparr>
               | None \<Rightarrow> l'\<lparr>total_bytes := saturating_add (total_bytes l) sz\<rparr>))"

definition remove_component :: "EntityId \<Rightarrow> TypeCode \<Rightarrow> u64 \<Rightarrow> ResourceLedger \<Rightarrow> bool \<times> ResourceLedger" where
  "remove_component ent tc sz l =
     (if ent |\<notin>| ledger_entities l then (False, l)
      else (True,
            case fmlookup (component_sizes l) (ent, tc) of
              Some old \<Rightarrow> l\<lparr>component_sizes := fmdrop (ent, tc) (component_sizes l),
                            total_bytes := saturating_sub (total_bytes l) old\<rparr>
            | None \<Rightarrow> l))"

section \<open>The accounted sum\<close>

text \<open>The quantity \<open>total_bytes\<close> caches, as an unbounded number.\<close>

definition accounted :: "ResourceLedger \<Rightarrow> nat" where
  "accounted l = fmsum unat (component_sizes l)"

definition ledger_owned :: "ResourceLedger \<Rightarrow> bool" where
  "ledger_owned l \<longleftrightarrow> (\<forall>k. k |\<in>| fmdom (component_sizes l) \<longrightarrow> fst k |\<in>| ledger_entities l)"

definition ledger_exact :: "ResourceLedger \<Rightarrow> bool" where
  "ledger_exact l \<longleftrightarrow> unat (total_bytes l) = accounted l"

lemma accounted_new [simp]: "accounted ledger_new = 0"
  by (simp add: accounted_def ledger_new_def)

lemma in_entity_range:
  "((e, t), v) \<in> set (entity_range eid l) \<longleftrightarrow> e = eid \<and> fmlookup (component_sizes l) (e, t) = Some v"
  by (auto simp: entity_range_def set_bt_range less_eq_TypeCode_def word_n1_ge)

text \<open>The keys of one entity, as \<open>range((id, 0)..=(id, MAX))\<close> finds them.\<close>

lemma range_keys:
  "set (map fst (bt_range (eid, TypeCode 0) (eid, TypeCode (- 1)) m)) = {k. k |\<in>| fmdom m \<and> fst k = eid}"
proof -
  have "k \<in> set (map fst (bt_range (eid, TypeCode 0) (eid, TypeCode (- 1)) m)) \<longleftrightarrow>
      k |\<in>| fmdom m \<and> fst k = eid" for k
  proof (cases k)
    case (Pair e t)
    have "k \<in> set (map fst (bt_range (eid, TypeCode 0) (eid, TypeCode (- 1)) m)) \<longleftrightarrow>
        (\<exists>v. (k, v) \<in> set (bt_range (eid, TypeCode 0) (eid, TypeCode (- 1)) m))"
      by (force simp: image_iff)
    then show ?thesis
      using Pair by (auto simp: set_bt_range less_eq_TypeCode_def word_n1_ge fmlookup_dom_iff)
  qed
  then show ?thesis by blast
qed

lemma entity_range_keys:
  "set (map fst (entity_range eid l)) = {k. k |\<in>| fmdom (component_sizes l) \<and> fst k = eid}"
  unfolding entity_range_def by (rule range_keys)

subsection \<open>One component dropped\<close>

text \<open>The cache follows the sum down, also from below it.\<close>

lemma drop_component_total:
  assumes "drop_component k (f, l) = (f', l')"
  shows "unat (total_bytes l) \<le> accounted l \<Longrightarrow> unat (total_bytes l') \<le> accounted l'"
    and "ledger_exact l \<Longrightarrow> ledger_exact l'"
    and "component_sizes l' = fmdrop k (component_sizes l)"
    and "ledger_entities l' = ledger_entities l"
  using assms
  by (auto simp: drop_component_def accounted_def ledger_exact_def fmsum_drop sat_simps
      fmdrop_idle fmdom_notI split: option.splits)

lemma drop_components:
  assumes "fold drop_component ks (f, l) = (f', l')"
  shows "unat (total_bytes l) \<le> accounted l \<Longrightarrow> unat (total_bytes l') \<le> accounted l'"
    and "ledger_exact l \<Longrightarrow> ledger_exact l'"
    and "component_sizes l' = fmfilter (\<lambda>k. k \<notin> set ks) (component_sizes l)"
    and "ledger_entities l' = ledger_entities l"
proof -
  have "(unat (total_bytes l) \<le> accounted l \<longrightarrow> unat (total_bytes l') \<le> accounted l') \<and>
    (ledger_exact l \<longrightarrow> ledger_exact l') \<and>
    component_sizes l' = fmfilter (\<lambda>k. k \<notin> set ks) (component_sizes l) \<and>
    ledger_entities l' = ledger_entities l"
    using assms
  proof (induction ks arbitrary: f l)
    case Nil
    then show ?case by simp
  next
    case (Cons k ks)
    obtain f1 l1 where l1: "drop_component k (f, l) = (f1, l1)" by fastforce
    from Cons.prems l1 have "fold drop_component ks (f1, l1) = (f', l')" by simp
    note IH = Cons.IH [OF this] and step = drop_component_total [OF l1]
    have "fmfilter (\<lambda>k. k \<notin> set ks) (fmdrop k (component_sizes l)) =
        fmfilter (\<lambda>j. j \<notin> set (k # ks)) (component_sizes l)"
      by (rule fmap_ext) auto
    with IH step show ?case by auto
  qed
  then show "unat (total_bytes l) \<le> accounted l \<Longrightarrow> unat (total_bytes l') \<le> accounted l'"
    and "ledger_exact l \<Longrightarrow> ledger_exact l'"
    and "component_sizes l' = fmfilter (\<lambda>k. k \<notin> set ks) (component_sizes l)"
    and "ledger_entities l' = ledger_entities l"
    by auto
qed

section \<open>Every operation, on the two maps and on the cache\<close>

lemma remove_entity_maps:
  "ledger_entities (snd (remove_entity eid l)) = ledger_entities l |-| {|eid|}"
  "component_sizes (snd (remove_entity eid l)) =
     (if eid |\<in>| ledger_entities l then fmfilter (\<lambda>k. fst k \<noteq> eid) (component_sizes l) else component_sizes l)"
proof -
  let ?l = "l\<lparr>ledger_entities := ledger_entities l |-| {|eid|}\<rparr>"
  let ?ks = "map fst (entity_range eid ?l)"
  obtain f' l' where f: "fold drop_component ?ks (0, ?l) = (f', l')" by fastforce
  have "fmfilter (\<lambda>k. k \<notin> set ?ks) (component_sizes l) = fmfilter (\<lambda>k. fst k \<noteq> eid) (component_sizes l)"
    unfolding entity_range_keys by (rule fmap_ext) (auto simp: fmdom_notD)
  with drop_components(3,4) [OF f] f
  show "ledger_entities (snd (remove_entity eid l)) = ledger_entities l |-| {|eid|}"
    "component_sizes (snd (remove_entity eid l)) =
     (if eid |\<in>| ledger_entities l then fmfilter (\<lambda>k. fst k \<noteq> eid) (component_sizes l) else component_sizes l)"
    by (auto simp: remove_entity_def Let_def fminus_triv)
qed

lemma add_entity_maps [simp]:
  "ledger_entities (snd (add_entity eid l)) = finsert eid (ledger_entities l)"
  "component_sizes (snd (add_entity eid l)) = component_sizes l"
  "total_bytes (snd (add_entity eid l)) = total_bytes l"
  by (simp_all add: add_entity_def)

lemma add_component_maps:
  "ledger_entities (snd (add_component ent tc sz l)) = ledger_entities l"
  "component_sizes (snd (add_component ent tc sz l)) =
     (if ent |\<in>| ledger_entities l then fmupd (ent, tc) sz (component_sizes l) else component_sizes l)"
  by (auto simp: add_component_def Let_def split: option.splits)

lemma remove_component_maps:
  "ledger_entities (snd (remove_component ent tc sz l)) = ledger_entities l"
  "component_sizes (snd (remove_component ent tc sz l)) =
     (if ent |\<in>| ledger_entities l then fmdrop (ent, tc) (component_sizes l) else component_sizes l)"
  by (auto simp: remove_component_def fmdrop_idle fmdom_notI split: option.splits)

lemmas ledger_maps = remove_entity_maps add_component_maps remove_component_maps

subsection \<open>The cache never exceeds the sum\<close>

lemma accounted_add:
  assumes "ent |\<in>| ledger_entities l"
  shows "accounted (snd (add_component ent tc sz l)) =
    accounted l - (case component_size ent tc l of None \<Rightarrow> 0 | Some old \<Rightarrow> unat old) + unat sz"
  using assms
  by (simp add: accounted_def add_component_maps fmsum_upd fmsum_drop component_size_def)

lemma stored_le_accounted:
  "fmlookup (component_sizes l) k = Some old \<Longrightarrow> unat old \<le> accounted l"
  unfolding accounted_def by (rule fmsum_lookup_le)

lemma total_add:
  assumes "ent |\<in>| ledger_entities l"
  shows "unat (total_bytes (snd (add_component ent tc sz l))) =
    (case component_size ent tc l of
       None \<Rightarrow> min (unat (total_bytes l) + unat sz) (2 ^ 64 - 1)
     | Some old \<Rightarrow> if old \<le> sz then min (unat (total_bytes l) + (unat sz - unat old)) (2 ^ 64 - 1)
                   else unat (total_bytes l) - (unat old - unat sz))"
proof (cases "component_size ent tc l")
  case None
  with assms show ?thesis
    by (simp add: add_component_def component_size_def sat_simps)
next
  case (Some old)
  have "sz \<le> old" if "\<not> old \<le> sz" using that by simp
  with assms Some show ?thesis
    by (simp add: add_component_def component_size_def sat_simps unat_sub)
qed

lemma add_component_le:
  assumes "unat (total_bytes l) \<le> accounted l"
  shows "unat (total_bytes (snd (add_component ent tc sz l))) \<le> accounted (snd (add_component ent tc sz l))"
proof (cases "ent |\<in>| ledger_entities l")
  case True
  show ?thesis
    using assms stored_le_accounted [of l "(ent, tc)"]
    unfolding total_add [OF True] accounted_add [OF True] component_size_def
    by (auto simp: word_le_nat_alt split: option.splits)
qed (use assms in \<open>simp add: add_component_def\<close>)

lemma add_component_exact:
  assumes "ledger_exact l" and "accounted (snd (add_component ent tc sz l)) < 2 ^ 64"
  shows "ledger_exact (snd (add_component ent tc sz l))"
proof (cases "ent |\<in>| ledger_entities l")
  case True
  show ?thesis
    using assms stored_le_accounted [of l "(ent, tc)"]
    unfolding ledger_exact_def total_add [OF True] accounted_add [OF True] component_size_def
    by (auto simp: word_le_nat_alt split: option.splits)
qed (use assms in \<open>simp add: add_component_def\<close>)

lemma remove_component_le:
  assumes "unat (total_bytes l) \<le> accounted l"
  shows "unat (total_bytes (snd (remove_component ent tc sz l))) \<le> accounted (snd (remove_component ent tc sz l))"
  using assms
  by (auto simp: remove_component_def accounted_def fmsum_drop sat_simps split: option.splits)

lemma remove_component_exact:
  assumes "ledger_exact l"
  shows "ledger_exact (snd (remove_component ent tc sz l))"
  using assms
  by (auto simp: ledger_exact_def remove_component_def accounted_def fmsum_drop sat_simps split: option.splits)

lemma remove_entity_total:
  shows "unat (total_bytes l) \<le> accounted l \<Longrightarrow>
      unat (total_bytes (snd (remove_entity eid l))) \<le> accounted (snd (remove_entity eid l))"
    and "ledger_exact l \<Longrightarrow> ledger_exact (snd (remove_entity eid l))"
proof -
  let ?l = "l\<lparr>ledger_entities := ledger_entities l |-| {|eid|}\<rparr>"
  obtain f' l' where f: "fold drop_component (map fst (entity_range eid ?l)) (0, ?l) = (f', l')"
    by fastforce
  have same: "accounted ?l = accounted l" "total_bytes ?l = total_bytes l"
    by (simp_all add: accounted_def)
  from drop_components(1,2) [OF f] f same
  show "unat (total_bytes l) \<le> accounted l \<Longrightarrow>
      unat (total_bytes (snd (remove_entity eid l))) \<le> accounted (snd (remove_entity eid l))"
    and "ledger_exact l \<Longrightarrow> ledger_exact (snd (remove_entity eid l))"
    by (auto simp: remove_entity_def ledger_exact_def)
qed

subsection \<open>Ownership: components only on known entities\<close>

lemma ledger_owned_new: "ledger_owned ledger_new"
  by (simp add: ledger_owned_def ledger_new_def)

lemma ledger_owned_ops:
  assumes "ledger_owned l"
  shows "ledger_owned (snd (add_entity eid l))"
    and "ledger_owned (snd (remove_entity eid l))"
    and "ledger_owned (snd (add_component ent tc sz l))"
    and "ledger_owned (snd (remove_component ent tc sz l))"
  using assms by (auto simp: ledger_owned_def ledger_maps fmlookup_dom_iff)

subsection \<open>What a despawn frees\<close>

lemma saturating_fold:
  "unat (fold (\<lambda>(_, sz) acc. saturating_add acc sz) xs (acc :: u64)) =
     min (unat acc + (\<Sum>(k, v)\<leftarrow>xs. unat v)) (2 ^ 64 - 1)"
proof (induction xs arbitrary: acc)
  case Nil
  then show ?case using unat_le_max [of acc] by simp
next
  case (Cons x xs)
  then show ?case by (cases x) (simp add: sat_simps)
qed

lemma entity_bytes_eq:
  "unat (entity_bytes eid l) = min (\<Sum>(k, v)\<leftarrow>entity_range eid l. unat v) (2 ^ 64 - 1)"
  by (simp add: entity_bytes_def saturating_fold)

lemma drop_components_freed:
  assumes "distinct (map fst kvs)" and "\<And>k v. (k, v) \<in> set kvs \<Longrightarrow> fmlookup (component_sizes l) k = Some v"
  shows "fst (fold drop_component (map fst kvs) (f, l)) = fold (\<lambda>(_, sz) acc. saturating_add acc sz) kvs f"
  using assms
proof (induction kvs arbitrary: f l)
  case Nil
  then show ?case by simp
next
  case (Cons kv kvs)
  obtain k v where kv: "kv = (k, v)" by (cases kv)
  with Cons.prems(2) have v: "fmlookup (component_sizes l) k = Some v" by simp
  let ?l = "l\<lparr>component_sizes := fmdrop k (component_sizes l), total_bytes := saturating_sub (total_bytes l) v\<rparr>"
  have "fmlookup (component_sizes ?l) j = Some w" if "(j, w) \<in> set kvs" for j w
  proof -
    from that have "j \<in> set (map fst kvs)" by force
    with Cons.prems(1) kv have "j \<noteq> k" by auto
    with that Cons.prems(2) [of j w] show ?thesis by simp
  qed
  then have "fst (fold drop_component (map fst kvs) (saturating_add f v, ?l)) =
      fold (\<lambda>(_, sz) acc. saturating_add acc sz) kvs (saturating_add f v)"
    using Cons.prems(1) by (intro Cons.IH) auto
  moreover have "drop_component k (f, l) = (saturating_add f v, ?l)"
    using v by (simp add: drop_component_def)
  ultimately show ?case using kv by simp
qed

lemma remove_entity_freed:
  "fst (remove_entity eid l) = (if eid |\<in>| ledger_entities l then entity_bytes eid l else 0)"
proof -
  let ?l = "l\<lparr>ledger_entities := ledger_entities l |-| {|eid|}\<rparr>"
  have "fst (fold drop_component (map fst (entity_range eid ?l)) (0, ?l)) =
      fold (\<lambda>(_, sz) acc. saturating_add acc sz) (entity_range eid ?l) 0"
    by (rule drop_components_freed)
      (auto simp: in_entity_range distinct_bt_range entity_range_def set_bt_range)
  moreover have "entity_range eid ?l = entity_range eid l" by (simp add: entity_range_def)
  ultimately show ?thesis by (simp add: remove_entity_def entity_bytes_def)
qed

end
