(* ===== verification/Instance.thy ===== *)
theory Instance
  imports Scheduler Ledger Quota
begin

text \<open>
  One kernel instance (\<open>state/instance.rs\<close>, \<open>state/config.rs\<close>): its configuration, entities,
  components, scheduler, counters, ledger, inbox and clocks, with the accessors and mutators the
  runtime uses, its snapshot and the digest of that snapshot. \<open>instance_sync\<close> relates the
  component store to the ledger that accounts for it.

  BLAKE3 and the postcard encoder are libraries the source only calls: they are the fields of a
  record \<open>DigestLib\<close> that the digest takes as an argument.
\<close>

section \<open>Configuration\<close>

record InstanceConfig =
  default_caps :: CapabilityMask
  max_entities :: u32
  max_scheduled :: u32
  max_inbox_per_route :: u32
  memory_budget_bytes :: u64
  config_parent :: "InstanceId option"
  quota_reduction :: QuotaReductionPolicy

definition InstanceConfig_default :: InstanceConfig where
  "InstanceConfig_default =
     \<lparr>default_caps = 0, max_entities = 0, max_scheduled = 0, max_inbox_per_route = 0,
      memory_budget_bytes = 0, config_parent = None, quota_reduction = Reject\<rparr>"

section \<open>State\<close>

record EntityMeta =
  meta_owner :: Principal
  meta_created :: Tick

record InboundSignal =
  sig_from :: InstanceId
  sig_principal :: Principal
  sig_payload :: bytes
  sig_seq :: u64

record IdCounters =
  next_entity :: u64
  next_scheduled :: u64
  next_source_seq :: u64

definition IdCounters_default :: IdCounters where
  "IdCounters_default = \<lparr>next_entity = 0, next_scheduled = 0, next_source_seq = 0\<rparr>"

record Instance =
  inst_id :: InstanceId
  inst_config :: InstanceConfig
  inst_entities :: "(EntityId, EntityMeta) fmap"
  inst_components :: "(EntityId \<times> TypeCode, bytes) fmap"
  inst_scheduler :: Scheduler
  inst_counters :: IdCounters
  inst_ledger :: ResourceLedger
  inflight_refs :: "(RouteId, u32) fmap"
  signal_inbox :: "(RouteId, InboundSignal list) fmap"
  inbox_seq :: u64
  wall_remainder :: u128
  local_tick :: u64

definition Instance_new :: "InstanceId \<Rightarrow> InstanceConfig \<Rightarrow> Instance" where
  "Instance_new iid config =
     \<lparr>inst_id = iid, inst_config = config, inst_entities = fmempty, inst_components = fmempty,
      inst_scheduler = Scheduler_new, inst_counters = IdCounters_default, inst_ledger = ledger_new,
      inflight_refs = fmempty, signal_inbox = fmempty, inbox_seq = 0, wall_remainder = 0,
      local_tick = 0\<rparr>"

section \<open>Accessors\<close>

definition entities_len :: "Instance \<Rightarrow> nat" where
  "entities_len inst = bt_len (inst_entities inst)"

definition components_len :: "Instance \<Rightarrow> nat" where
  "components_len inst = bt_len (inst_components inst)"

definition inflight_refs_len :: "Instance \<Rightarrow> nat" where
  "inflight_refs_len inst = bt_len (inflight_refs inst)"

definition inflight_refs_for :: "RouteId \<Rightarrow> Instance \<Rightarrow> u32" where
  "inflight_refs_for route inst = (case fmlookup (inflight_refs inst) route of None \<Rightarrow> 0 | Some n \<Rightarrow> n)"

definition entity_meta :: "EntityId \<Rightarrow> Instance \<Rightarrow> EntityMeta option" where
  "entity_meta ent inst = fmlookup (inst_entities inst) ent"

definition component :: "EntityId \<Rightarrow> TypeCode \<Rightarrow> Instance \<Rightarrow> bytes option" where
  "component ent tc inst = fmlookup (inst_components inst) (ent, tc)"

definition entities_iter :: "Instance \<Rightarrow> (EntityId \<times> EntityMeta) list" where
  "entities_iter inst = sorted_list_of_fmap (inst_entities inst)"

definition components_by_type_iter :: "TypeCode \<Rightarrow> Instance \<Rightarrow> (EntityId \<times> bytes) list" where
  "components_by_type_iter type_code inst =
     map (\<lambda>((eid, _), bs). (eid, bs))
       (filter (\<lambda>((_, tc), _). tc = type_code) (sorted_list_of_fmap (inst_components inst)))"

definition inbox_len :: "RouteId \<Rightarrow> Instance \<Rightarrow> nat" where
  "inbox_len route inst = (case fmlookup (signal_inbox inst) route of None \<Rightarrow> 0 | Some q \<Rightarrow> length q)"

section \<open>Mutators\<close>

definition insert_entity :: "EntityId \<Rightarrow> EntityMeta \<Rightarrow> Instance \<Rightarrow> Instance" where
  "insert_entity eid meta inst = inst\<lparr>inst_entities := fmupd eid meta (inst_entities inst)\<rparr>"

definition inst_remove_entity :: "EntityId \<Rightarrow> Instance \<Rightarrow> EntityMeta option \<times> Instance" where
  "inst_remove_entity eid inst =
     (let orphaned = map fst (bt_range (eid, TypeCode 0) (eid, TypeCode (- 1)) (inst_components inst));
          inst' = inst\<lparr>inst_components := fold fmdrop orphaned (inst_components inst)\<rparr>
      in (fmlookup (inst_entities inst') eid,
          inst'\<lparr>inst_entities := fmdrop eid (inst_entities inst')\<rparr>))"

definition insert_component :: "EntityId \<times> TypeCode \<Rightarrow> bytes \<Rightarrow> Instance \<Rightarrow> Instance" where
  "insert_component key bs inst = inst\<lparr>inst_components := fmupd key bs (inst_components inst)\<rparr>"

definition inst_remove_component :: "EntityId \<times> TypeCode \<Rightarrow> Instance \<Rightarrow> bytes option \<times> Instance" where
  "inst_remove_component key inst =
     (fmlookup (inst_components inst) key,
      inst\<lparr>inst_components := fmdrop key (inst_components inst)\<rparr>)"

definition advance_wall_remainder :: "u128 \<Rightarrow> Instance \<Rightarrow> Instance" where
  "advance_wall_remainder delta inst = inst\<lparr>wall_remainder := saturating_add (wall_remainder inst) delta\<rparr>"

definition advance_local_tick :: "u64 \<Rightarrow> Instance \<Rightarrow> Instance" where
  "advance_local_tick delta inst = inst\<lparr>local_tick := saturating_add (local_tick inst) delta\<rparr>"

text \<open>\<open>deliver_signal\<close> overwrites the caller's \<open>seq\<close> with the instance's own counter.\<close>

definition deliver_signal :: "RouteId \<Rightarrow> InboundSignal \<Rightarrow> Instance \<Rightarrow> u64 \<times> Instance" where
  "deliver_signal route signal inst =
     (let seq = inbox_seq inst;
          queue = (case fmlookup (signal_inbox inst) route of None \<Rightarrow> [] | Some q \<Rightarrow> q)
      in (seq,
          inst\<lparr>inbox_seq := saturating_add seq 1,
               signal_inbox := fmupd route (queue @ [signal\<lparr>sig_seq := seq\<rparr>]) (signal_inbox inst)\<rparr>))"

section \<open>Snapshots and the state digest\<close>

record InstanceSnapshot =
  snap_id :: InstanceId
  snap_config :: InstanceConfig
  snap_entities :: "(EntityId, EntityMeta) fmap"
  snap_components :: "(EntityId \<times> TypeCode, bytes) fmap"
  snap_scheduler :: Scheduler
  snap_counters :: IdCounters
  snap_ledger :: ResourceLedger
  snap_inflight_refs :: "(RouteId, u32) fmap"
  snap_signal_inbox :: "(RouteId, InboundSignal list) fmap"
  snap_inbox_seq :: u64
  snap_wall_remainder :: u128
  snap_local_tick :: u64

definition to_snapshot :: "Instance \<Rightarrow> InstanceSnapshot" where
  "to_snapshot inst =
     \<lparr>snap_id = inst_id inst, snap_config = inst_config inst, snap_entities = inst_entities inst,
      snap_components = inst_components inst, snap_scheduler = inst_scheduler inst,
      snap_counters = inst_counters inst, snap_ledger = inst_ledger inst,
      snap_inflight_refs = inflight_refs inst, snap_signal_inbox = signal_inbox inst,
      snap_inbox_seq = inbox_seq inst, snap_wall_remainder = wall_remainder inst,
      snap_local_tick = local_tick inst\<rparr>"

definition instance_from_snapshot :: "InstanceSnapshot \<Rightarrow> Instance" where
  "instance_from_snapshot snap =
     \<lparr>inst_id = snap_id snap, inst_config = snap_config snap, inst_entities = snap_entities snap,
      inst_components = snap_components snap, inst_scheduler = snap_scheduler snap,
      inst_counters = snap_counters snap, inst_ledger = snap_ledger snap,
      inflight_refs = snap_inflight_refs snap, signal_inbox = snap_signal_inbox snap,
      inbox_seq = snap_inbox_seq snap, wall_remainder = snap_wall_remainder snap,
      local_tick = snap_local_tick snap\<rparr>"

record DigestLib =
  blake3_hash :: "bytes \<Rightarrow> bytes"
  postcard_instance :: "InstanceSnapshot \<Rightarrow> bytes option"

definition state_digest :: "'z DigestLib_scheme \<Rightarrow> Instance \<Rightarrow> bytes" where
  "state_digest lib inst =
     (case postcard_instance lib (to_snapshot inst) of
        Some bs \<Rightarrow> blake3_hash lib bs
      | None \<Rightarrow> zero32)"

section \<open>Consistency of the two stores\<close>

text \<open>
  Entities and component keys agree with the ledger, components sit on live entities, and the
  cached total does not exceed the accounted sum.
\<close>

definition instance_sync :: "Instance \<Rightarrow> bool" where
  "instance_sync inst \<longleftrightarrow>
     ledger_entities (inst_ledger inst) = fmdom (inst_entities inst) \<and>
     fmdom (component_sizes (inst_ledger inst)) = fmdom (inst_components inst) \<and>
     ledger_owned (inst_ledger inst) \<and>
     unat (total_bytes (inst_ledger inst)) \<le> accounted (inst_ledger inst)"

text \<open>
  The scheduler's tables agree and its counters stay below the instance's own scheduled-id
  counter, so the next id minted from that counter is fresh.
\<close>

definition instance_sched :: "Instance \<Rightarrow> bool" where
  "instance_sched inst \<longleftrightarrow>
     sched_inv (inst_scheduler inst) \<and>
     next_id (inst_scheduler inst) \<le> next_scheduled (inst_counters inst) \<and>
     next_seq (inst_scheduler inst) \<le> next_scheduled (inst_counters inst)"

definition instance_inv :: "Instance \<Rightarrow> bool" where
  "instance_inv inst \<longleftrightarrow> instance_sync inst \<and> instance_sched inst"

lemma instance_inv_new: "instance_inv (Instance_new iid config)"
  by (simp add: instance_inv_def instance_sync_def instance_sched_def Instance_new_def ledger_owned_new
      sched_inv_new) (simp add: ledger_new_def Scheduler_new_def IdCounters_default_def)

lemma snapshot_inverse [simp]:
  "instance_from_snapshot (to_snapshot inst) = inst" "to_snapshot (instance_from_snapshot snap) = snap"
  by (simp_all add: to_snapshot_def instance_from_snapshot_def)

lemma inst_remove_entity_maps:
  "inst_entities (snd (inst_remove_entity eid inst)) = fmdrop eid (inst_entities inst)"
  "inst_components (snd (inst_remove_entity eid inst)) =
     fmfilter (\<lambda>k. fst k \<noteq> eid) (inst_components inst)"
proof -
  show "inst_entities (snd (inst_remove_entity eid inst)) = fmdrop eid (inst_entities inst)"
    by (simp add: inst_remove_entity_def Let_def)
  have "inst_components (snd (inst_remove_entity eid inst)) = fmfilter (\<lambda>k. k \<notin> set (map fst
      (bt_range (eid, TypeCode 0) (eid, TypeCode (- 1)) (inst_components inst)))) (inst_components inst)"
    by (simp only: inst_remove_entity_def Let_def snd_conv) (simp add: fold_fmdrop)
  then show "inst_components (snd (inst_remove_entity eid inst)) =
     fmfilter (\<lambda>k. fst k \<noteq> eid) (inst_components inst)"
    unfolding range_keys by (auto intro!: fmap_ext simp: fmdom_notD)
qed

lemma deliver_signal_simps:
  "inst_scheduler (snd (deliver_signal r s inst)) = inst_scheduler inst"
  "inst_counters (snd (deliver_signal r s inst)) = inst_counters inst"
  "inst_ledger (snd (deliver_signal r s inst)) = inst_ledger inst"
  "inst_entities (snd (deliver_signal r s inst)) = inst_entities inst"
  "inst_components (snd (deliver_signal r s inst)) = inst_components inst"
  "inst_config (snd (deliver_signal r s inst)) = inst_config inst"
  "inflight_refs (snd (deliver_signal r s inst)) = inflight_refs inst"
  by (simp_all add: deliver_signal_def Let_def)

end
