(* ===== verification/Actions.thy ===== *)
theory Actions
  imports Instance
begin

text \<open>
  What a domain action is to the kernel: the effect intents (\<open>state/op.rs\<close>), the read-only
  context handed to \<open>compute\<close> (\<open>state/context.rs\<close>), the traits with their postcard round trip
  (\<open>state/traits.rs\<close>), the dispatch table (\<open>runtime/registry.rs\<close>), the authorization of an
  intent (\<open>state/authz.rs\<close>) and the handle of an instance (\<open>state/scope.rs\<close>).

  A domain type implementing one of the traits is a record of its constants, its postcard
  encoder and decoder (the third-party \<open>postcard\<close> applied to the type's own serde instance) and,
  for an action, its \<open>compute\<close>.
\<close>

section \<open>Effect intents (\<open>op.rs\<close>)\<close>

datatype Op =
    SpawnEntity EntityId Principal
  | DespawnEntity EntityId
  | SetComponent EntityId TypeCode bytes u64
  | RemoveComponent EntityId TypeCode u64
  | EmitEvent "EntityId option" TypeCode bytes
  | ScheduleAction Tick "EntityId option" TypeCode bytes
  | SendSignal InstanceId RouteId bytes

section \<open>The context of \<open>compute\<close> (\<open>context.rs\<close>)\<close>

record ActionContext =
  ctx_actor :: "EntityId option"
  ctx_now :: Tick
  ctx_instance_id :: InstanceId
  ctx_instance :: Instance

definition ActionContext_new :: "EntityId option \<Rightarrow> Tick \<Rightarrow> InstanceId \<Rightarrow> Instance \<Rightarrow> ActionContext" where
  "ActionContext_new actor now iid inst =
     \<lparr>ctx_actor = actor, ctx_now = now, ctx_instance_id = iid, ctx_instance = inst\<rparr>"

definition ctx_entities_len :: "ActionContext \<Rightarrow> nat" where
  "ctx_entities_len ctx = entities_len (ctx_instance ctx)"

definition ctx_components_len :: "ActionContext \<Rightarrow> nat" where
  "ctx_components_len ctx = components_len (ctx_instance ctx)"

definition ctx_local_tick :: "ActionContext \<Rightarrow> u64" where
  "ctx_local_tick ctx = local_tick (ctx_instance ctx)"

section \<open>Traits (\<open>traits.rs\<close>)\<close>

datatype DeserializeError =
    SchemaVersionMismatch (expected_version: u32) (got_version: u32)
  | PayloadMalformed
  | UnknownTypeCode TypeCode
  | LengthExceedsBudget

text \<open>What \<open>Component\<close>, \<open>ActionDeriv\<close> and \<open>Event\<close> require of a type \<open>'a\<close>.\<close>

record 'a Wire =
  TYPE_CODE :: TypeCode
  SCHEMA_VERSION :: u32
  postcard_to :: "'a \<Rightarrow> bytes option"
  postcard_from :: "bytes \<Rightarrow> 'a option"

text \<open>\<open>ActionDeriv + ActionCompute\<close>.\<close>

record 'a ActionType = "'a Wire" +
  compute :: "'a \<Rightarrow> ActionContext \<Rightarrow> Op list"

definition Component_canonical_bytes :: "('a, 'z) Wire_scheme \<Rightarrow> 'a \<Rightarrow> bytes outcome" where
  "Component_canonical_bytes T self = expect (postcard_to T self)"

definition Component_from_bytes :: "('a, 'z) Wire_scheme \<Rightarrow> u32 \<Rightarrow> bytes \<Rightarrow> DeserializeError + 'a" where
  "Component_from_bytes T version bs =
     (if version \<noteq> SCHEMA_VERSION T then Inl (SchemaVersionMismatch (SCHEMA_VERSION T) version)
      else case postcard_from T bs of Some a \<Rightarrow> Inr a | None \<Rightarrow> Inl PayloadMalformed)"

definition Component_approx_size :: "('a, 'z) Wire_scheme \<Rightarrow> 'a \<Rightarrow> nat outcome" where
  "Component_approx_size T self = obind (Component_canonical_bytes T self) (\<lambda>bs. Done (length bs))"

definition Action_canonical_bytes :: "('a, 'z) ActionType_scheme \<Rightarrow> 'a \<Rightarrow> bytes outcome" where
  "Action_canonical_bytes A self = expect (postcard_to A self)"

definition Action_from_bytes :: "('a, 'z) ActionType_scheme \<Rightarrow> u32 \<Rightarrow> bytes \<Rightarrow> DeserializeError + 'a" where
  "Action_from_bytes A version bs =
     (if version \<noteq> SCHEMA_VERSION A then Inl (SchemaVersionMismatch (SCHEMA_VERSION A) version)
      else case postcard_from A bs of Some a \<Rightarrow> Inr a | None \<Rightarrow> Inl PayloadMalformed)"

definition Action_approx_size :: "('a, 'z) ActionType_scheme \<Rightarrow> 'a \<Rightarrow> nat outcome" where
  "Action_approx_size A self = obind (Action_canonical_bytes A self) (\<lambda>bs. Done (length bs))"

definition Event_canonical_bytes :: "('a, 'z) Wire_scheme \<Rightarrow> 'a \<Rightarrow> bytes outcome" where
  "Event_canonical_bytes T self = expect (postcard_to T self)"

definition Event_from_bytes :: "('a, 'z) Wire_scheme \<Rightarrow> u32 \<Rightarrow> bytes \<Rightarrow> DeserializeError + 'a" where
  "Event_from_bytes T version bs =
     (if version \<noteq> SCHEMA_VERSION T then Inl (SchemaVersionMismatch (SCHEMA_VERSION T) version)
      else case postcard_from T bs of Some a \<Rightarrow> Inr a | None \<Rightarrow> Inl PayloadMalformed)"

definition Event_approx_size :: "('a, 'z) Wire_scheme \<Rightarrow> 'a \<Rightarrow> nat outcome" where
  "Event_approx_size T self = obind (Event_canonical_bytes T self) (\<lambda>bs. Done (length bs))"

section \<open>The dispatch table (\<open>registry.rs\<close>)\<close>

text \<open>\<open>Box<dyn ActionDyn>\<close>: the erased action is the record of its two methods.\<close>

record ActionDyn =
  canonical_bytes_dyn :: "bytes outcome"
  compute_dyn :: "ActionContext \<Rightarrow> Op list"

definition to_dyn :: "('a, 'z) ActionType_scheme \<Rightarrow> 'a \<Rightarrow> ActionDyn" where
  "to_dyn A self = \<lparr>canonical_bytes_dyn = Action_canonical_bytes A self, compute_dyn = compute A self\<rparr>"

record ActionRegistration =
  schema_version :: u32
  deserializer :: "u32 \<Rightarrow> bytes \<Rightarrow> DeserializeError + ActionDyn"

type_synonym ActionRegistry = "(TypeCode, ActionRegistration) fmap"

definition ActionRegistry_new :: ActionRegistry where
  "ActionRegistry_new = fmempty"

definition register_type :: "('a, 'z) ActionType_scheme \<Rightarrow> ActionRegistry \<Rightarrow> ActionRegistry" where
  "register_type A reg =
     fmupd (TYPE_CODE A)
       \<lparr>schema_version = SCHEMA_VERSION A,
        deserializer = (\<lambda>version bs. map_sum (\<lambda>e. e) (to_dyn A) (Action_from_bytes A version bs))\<rparr>
       reg"

definition registry_get :: "TypeCode \<Rightarrow> ActionRegistry \<Rightarrow> ActionRegistration option" where
  "registry_get tc reg = fmlookup reg tc"

definition registry_len :: "ActionRegistry \<Rightarrow> nat" where
  "registry_len reg = bt_len reg"

section \<open>Authorization (\<open>authz.rs\<close>)\<close>

text \<open>
  The tags of the phantom parameter are uninhabited enums in the source; HOL types are
  inhabited, so each tag is a one-point type that no value of an effect mentions.
\<close>

datatype Unverified = Unverified
datatype Authorized = Authorized

datatype 's Effect = Effect (effect_instance_id: InstanceId) (effect_principal: Principal) (effect_op: Op)

datatype DenyReason = DenyCapability | InstanceMismatch | OperationRestricted | NotImplemented

definition Effect_new :: "InstanceId \<Rightarrow> Principal \<Rightarrow> Op \<Rightarrow> Unverified Effect" where
  "Effect_new iid prin op = Effect iid prin op"

fun effective_caps :: "CapabilityMask \<Rightarrow> Principal \<Rightarrow> CapabilityMask \<Rightarrow> CapabilityMask" where
  "effective_caps dcaps System caps = dcaps AND caps"
| "effective_caps dcaps (External _) caps = dcaps AND caps"
| "effective_caps dcaps Unauthenticated caps = 0"

fun match_op_cap :: "Op \<Rightarrow> CapabilityMask \<Rightarrow> bool" where
  "match_op_cap (SpawnEntity _ _) caps = True"
| "match_op_cap (DespawnEntity _) caps = True"
| "match_op_cap (SetComponent _ _ _ _) caps = True"
| "match_op_cap (RemoveComponent _ _ _) caps = True"
| "match_op_cap (EmitEvent _ _ _) caps = True"
| "match_op_cap (ScheduleAction _ _ _ _) caps = contains caps SYSTEM"
| "match_op_cap (SendSignal _ _ _) caps = contains caps SYSTEM"

definition authorize :: "CapabilityMask \<Rightarrow> Unverified Effect \<Rightarrow> DenyReason + Authorized Effect" where
  "authorize caps effect =
     (let ok = Inr (Effect (effect_instance_id effect) (effect_principal effect) (effect_op effect))
      in case effect_principal effect of
           Unauthenticated \<Rightarrow> Inl DenyCapability
         | System \<Rightarrow> if \<not> contains caps SYSTEM \<and> \<not> match_op_cap (effect_op effect) caps
                     then Inl DenyCapability else ok
         | External _ \<Rightarrow> if \<not> contains caps SYSTEM \<and> \<not> match_op_cap (effect_op effect) caps
                     then Inl DenyCapability else ok)"

section \<open>Instance scopes (\<open>scope.rs\<close>)\<close>

text \<open>The brand of a scope is a lifetime, which no value mentions; the handle carries the instance id.\<close>

record InstanceScope =
  scope_instance_id :: InstanceId

definition new_for_skeleton :: "InstanceId \<Rightarrow> InstanceScope" where
  "new_for_skeleton iid = \<lparr>scope_instance_id = iid\<rparr>"

section \<open>Lemmas\<close>

text \<open>Scheduling and signalling are the operations that need the \<open>SYSTEM\<close> bit.\<close>

fun needs_system :: "Op \<Rightarrow> bool" where
  "needs_system (ScheduleAction _ _ _ _) = True"
| "needs_system (SendSignal _ _ _) = True"
| "needs_system _ = False"

lemma match_op_cap_iff: "match_op_cap op caps \<longleftrightarrow> (needs_system op \<longrightarrow> contains caps SYSTEM)"
  by (cases op) auto

lemma authorize_eq:
  "authorize caps (Effect_new iid prin op) =
     (if prin \<noteq> Unauthenticated \<and> (needs_system op \<longrightarrow> contains caps SYSTEM)
      then Inr (Effect iid prin op) else Inl DenyCapability)"
  by (cases prin) (auto simp: authorize_def Effect_new_def match_op_cap_iff)

lemma effective_caps_bound:
  "contains dcaps (effective_caps dcaps prin caps)" "contains caps (effective_caps dcaps prin caps)"
  by (cases prin; simp)+

lemma registered_lookup:
  "registry_get (TYPE_CODE A) (register_type A reg) =
     Some \<lparr>schema_version = SCHEMA_VERSION A,
           deserializer = (\<lambda>version bs. map_sum (\<lambda>e. e) (to_dyn A) (Action_from_bytes A version bs))\<rparr>"
  "tc \<noteq> TYPE_CODE A \<Longrightarrow> registry_get tc (register_type A reg) = registry_get tc reg"
  by (simp_all add: registry_get_def register_type_def)

section \<open>Properties\<close>

text \<open>
  C30 (privilege needs every ceiling). An intent is authorized exactly when its principal is
  authenticated and, if it schedules or signals, the \<open>SYSTEM\<close> bit is in the instance's default
  capabilities, in the ceiling of the scheduled entry and in the session ceiling. A \<open>System\<close> principal
  gets no bypass, and its ceiling counts like any other's. Two notes (\<open>config.rs\<close> on \<open>default_caps\<close>, step 7
  of the design document \<open>v0.15-epoch-cil.md\<close>) say that \<open>effective_caps\<close> resolves \<open>System\<close> to exactly the default
  capabilities; the code, and the definition of \<open>effective_caps\<close> in the same document, intersect with the
  ceiling.
\<close>

theorem privilege_needs_every_ceiling:
  "authorize (effective_caps dcaps prin ceil AND scaps) (Effect_new iid prin op) =
     (if prin \<noteq> Unauthenticated \<and> (needs_system op \<longrightarrow> contains dcaps SYSTEM \<and> contains ceil SYSTEM \<and> contains scaps SYSTEM)
      then Inr (Effect iid prin op) else Inl DenyCapability)"
  by (cases prin) (auto simp: authorize_eq)

theorem privilege_needs_every_ceiling_witness:
  "authorize (effective_caps SYSTEM System SYSTEM AND ADMIN_UNLOAD) (Effect_new (InstanceId 1) System (SendSignal (InstanceId 2) (RouteId 1) [])) = Inl DenyCapability"
  using privilege_needs_every_ceiling [of SYSTEM System SYSTEM ADMIN_UNLOAD]
  by (simp add: contains_def SYSTEM_def ADMIN_UNLOAD_def)

end
