(* ===== verification/Observer.thy ===== *)
theory Observer
  imports Actions
begin

text \<open>
  Kernel events and their observers (\<open>runtime/event.rs\<close>, \<open>runtime/observer.rs\<close>): the event
  datatype, the per-variant filter mask, and the registry that delivers an event to every live
  observer in handle order, catching a panic and evicting the observer at its first one.

  An observer is foreign code. It is a value of a type \<open>'o\<close> together with a function
  \<open>on_event :: 'o \<Rightarrow> KernelEvent \<Rightarrow> 'o option\<close>, an argument of the definitions that call it:
  \<open>None\<close> is a panic, \<open>Some o'\<close> the observer after it returned (it may hold interior state).
\<close>

section \<open>Events (\<open>event.rs\<close>)\<close>

datatype SignalDropReason = QueueFull | TargetNotFound | Cancelled

datatype DeferReason = SchedulerBusy | BudgetExceeded

datatype KernelEvent =
    ActionExecuted InstanceId TypeCode Tick
  | ActionFailed InstanceId TypeCode bytes
  | EffectFailed InstanceId bytes
  | ObserverPanic u16
  | ObserverEvicted u16 u64 u32
  | SignalDropped InstanceId RouteId SignalDropReason
  | ModuleForceUnloaded RouteId u32
  | ActionDeferredToNextTick ScheduledActionId DeferReason
  | ObserversFlushed u64 u32
  | DomainEventEmitted InstanceId "EntityId option" TypeCode bytes
  | SignalDelivered InstanceId InstanceId RouteId

datatype ObserverHandle = ObserverHandle (handle_val: u64)

instantiation ObserverHandle :: linorder
begin
definition less_eq_ObserverHandle :: "ObserverHandle \<Rightarrow> ObserverHandle \<Rightarrow> bool" where
  "less_eq_ObserverHandle a b = (handle_val a \<le> handle_val b)"
definition less_ObserverHandle :: "ObserverHandle \<Rightarrow> ObserverHandle \<Rightarrow> bool" where
  "less_ObserverHandle a b = (handle_val a < handle_val b)"
instance
  by standard (auto simp: less_eq_ObserverHandle_def less_ObserverHandle_def ObserverHandle.expand)
end

type_synonym EventMask = u32

definition EventMask_ALL :: EventMask where "EventMask_ALL = 0x7FF"

text \<open>The bit assigned to each variant.\<close>

fun event_bit :: "KernelEvent \<Rightarrow> EventMask" where
  "event_bit (ActionExecuted _ _ _) = push_bit 0 1"
| "event_bit (ActionFailed _ _ _) = push_bit 1 1"
| "event_bit (EffectFailed _ _) = push_bit 2 1"
| "event_bit (ObserverPanic _) = push_bit 3 1"
| "event_bit (ObserverEvicted _ _ _) = push_bit 4 1"
| "event_bit (SignalDropped _ _ _) = push_bit 5 1"
| "event_bit (ModuleForceUnloaded _ _) = push_bit 6 1"
| "event_bit (ActionDeferredToNextTick _ _) = push_bit 7 1"
| "event_bit (ObserversFlushed _ _) = push_bit 8 1"
| "event_bit (DomainEventEmitted _ _ _ _) = push_bit 9 1"
| "event_bit (SignalDelivered _ _ _) = push_bit 10 1"

definition matches :: "EventMask \<Rightarrow> KernelEvent \<Rightarrow> bool" where
  "matches self event = contains self (event_bit event)"

section \<open>The registry (\<open>observer.rs\<close>)\<close>

record 'o ObserverSlot =
  slot_observer :: 'o
  slot_mask :: EventMask

record 'o ObserverRegistry =
  slots :: "(ObserverHandle, 'o ObserverSlot) fmap"
  evicted :: "ObserverHandle fset"
  next_handle :: u64

definition ObserverRegistry_new :: "'o ObserverRegistry" where
  "ObserverRegistry_new = \<lparr>slots = fmempty, evicted = {||}, next_handle = 0\<rparr>"

definition register_filtered ::
  "'o \<Rightarrow> EventMask \<Rightarrow> 'o ObserverRegistry \<Rightarrow> ObserverHandle \<times> 'o ObserverRegistry" where
  "register_filtered obs emask r =
     (let h = ObserverHandle (next_handle r)
      in (h, r\<lparr>next_handle := saturating_add (next_handle r) 1,
               slots := fmupd h \<lparr>slot_observer = obs, slot_mask = emask\<rparr> (slots r)\<rparr>))"

definition register :: "'o \<Rightarrow> 'o ObserverRegistry \<Rightarrow> ObserverHandle \<times> 'o ObserverRegistry" where
  "register obs r = register_filtered obs EventMask_ALL r"

text \<open>The loop body of \<open>deliver\<close>: one handle of the key snapshot.\<close>

definition deliver_one ::
  "('o \<Rightarrow> KernelEvent \<Rightarrow> 'o option) \<Rightarrow> KernelEvent \<Rightarrow> ObserverHandle
    \<Rightarrow> ObserverHandle list \<times> 'o ObserverRegistry \<Rightarrow> ObserverHandle list \<times> 'o ObserverRegistry" where
  "deliver_one on_event event handle st =
     (let (newly, r) = st
      in if handle |\<in>| evicted r then (newly, r)
         else case fmlookup (slots r) handle of
           None \<Rightarrow> (newly, r)
         | Some slot \<Rightarrow>
             if \<not> matches (slot_mask slot) event then (newly, r)
             else case on_event (slot_observer slot) event of
               Some obs \<Rightarrow> (newly, r\<lparr>slots := fmupd handle (slot\<lparr>slot_observer := obs\<rparr>) (slots r)\<rparr>)
             | None \<Rightarrow> (newly @ [handle],
                        r\<lparr>evicted := finsert handle (evicted r), slots := fmdrop handle (slots r)\<rparr>))"

definition deliver ::
  "('o \<Rightarrow> KernelEvent \<Rightarrow> 'o option) \<Rightarrow> KernelEvent \<Rightarrow> 'o ObserverRegistry
    \<Rightarrow> ObserverHandle list \<times> 'o ObserverRegistry" where
  "deliver on_event event r = fold (deliver_one on_event event) (bt_keys (slots r)) ([], r)"

definition is_evicted :: "ObserverHandle \<Rightarrow> 'o ObserverRegistry \<Rightarrow> bool" where
  "is_evicted h r = (h |\<in>| evicted r)"

definition observers_len :: "'o ObserverRegistry \<Rightarrow> nat" where
  "observers_len r = bt_len (slots r)"

section \<open>Invariant and the effect of a delivery\<close>

text \<open>A handle is live or evicted, never both, and every handle in use has been issued.\<close>

definition observers_inv :: "'o ObserverRegistry \<Rightarrow> bool" where
  "observers_inv r \<longleftrightarrow>
     (\<forall>h. h |\<in>| evicted r \<longrightarrow> fmlookup (slots r) h = None) \<and>
     (\<forall>h. h |\<in>| fmdom (slots r) \<or> h |\<in>| evicted r \<longrightarrow> handle_val h < next_handle r)"

text \<open>What one delivery does to a slot, on its own.\<close>

definition slot_after ::
  "('o \<Rightarrow> KernelEvent \<Rightarrow> 'o option) \<Rightarrow> KernelEvent \<Rightarrow> 'o ObserverSlot \<Rightarrow> 'o ObserverSlot option" where
  "slot_after on_event event slot =
     (if \<not> matches (slot_mask slot) event then Some slot
      else map_option (\<lambda>obs. slot\<lparr>slot_observer := obs\<rparr>) (on_event (slot_observer slot) event))"

definition panics ::
  "('o \<Rightarrow> KernelEvent \<Rightarrow> 'o option) \<Rightarrow> KernelEvent \<Rightarrow> 'o ObserverRegistry \<Rightarrow> ObserverHandle \<Rightarrow> bool" where
  "panics on_event event r h \<longleftrightarrow>
     (\<exists>slot. fmlookup (slots r) h = Some slot \<and> slot_after on_event event slot = None)"

lemma observers_inv_new: "observers_inv ObserverRegistry_new"
  by (simp add: observers_inv_def ObserverRegistry_new_def)

lemma register_inv:
  assumes "observers_inv r" and "next_handle r \<noteq> - 1"
  shows "observers_inv (snd (register_filtered obs emask r))"
proof -
  have n: "next_handle r < saturating_add (next_handle r) 1"
    using assms(2) by (rule saturating_add_1_less)
  moreover have "ObserverHandle (next_handle r) |\<notin>| evicted r"
    using assms(1) by (auto simp: observers_inv_def)
  ultimately show ?thesis
    using assms(1) less_trans [OF _ n]
    by (auto simp: observers_inv_def register_filtered_def Let_def)
qed

lemma deliver_one_eq:
  assumes "observers_inv r"
  shows "deliver_one on_event event h (newly, r) =
     (if panics on_event event r h then newly @ [h] else newly,
      r\<lparr>evicted := (if panics on_event event r h then finsert h (evicted r) else evicted r),
        slots := (case fmlookup (slots r) h of None \<Rightarrow> slots r
                  | Some slot \<Rightarrow> (case slot_after on_event event slot of
                      None \<Rightarrow> fmdrop h (slots r) | Some slot' \<Rightarrow> fmupd h slot' (slots r)))\<rparr>)"
proof (cases "fmlookup (slots r) h")
  case None
  then show ?thesis by (simp add: deliver_one_def panics_def)
next
  case (Some slot)
  with assms have "h |\<notin>| evicted r" by (auto simp: observers_inv_def)
  moreover have "fmupd h slot (slots r) = slots r" using Some by (auto intro!: fmap_ext)
  ultimately show ?thesis using Some
    by (auto simp: deliver_one_def panics_def slot_after_def split: option.splits)
qed

lemma deliver_one_inv:
  "observers_inv r \<Longrightarrow> observers_inv (snd (deliver_one on_event event h (newly, r)))"
  by (subst deliver_one_eq, assumption)
    (auto simp: observers_inv_def panics_def fmdomI split: option.splits)

text \<open>A slot is touched only under its own handle.\<close>

lemma deliver_one_frame:
  assumes "observers_inv r" and "h' \<noteq> h"
  shows "fmlookup (slots (snd (deliver_one on_event event h (newly, r)))) h' = fmlookup (slots r) h'"
    and "h' |\<in>| evicted (snd (deliver_one on_event event h (newly, r))) \<longleftrightarrow> h' |\<in>| evicted r"
  using assms by (simp_all add: deliver_one_eq split: option.splits)

lemma deliver_fold:
  assumes "observers_inv r" and "distinct hs"
  shows "observers_inv (snd (fold (deliver_one on_event event) hs (newly, r))) \<and>
    next_handle (snd (fold (deliver_one on_event event) hs (newly, r))) = next_handle r \<and>
    fst (fold (deliver_one on_event event) hs (newly, r)) = newly @ filter (panics on_event event r) hs \<and>
    (\<forall>h. h |\<in>| evicted (snd (fold (deliver_one on_event event) hs (newly, r))) \<longleftrightarrow>
         h |\<in>| evicted r \<or> h \<in> set hs \<and> panics on_event event r h) \<and>
    (\<forall>h. fmlookup (slots (snd (fold (deliver_one on_event event) hs (newly, r)))) h =
       (if h \<in> set hs then Option.bind (fmlookup (slots r) h) (slot_after on_event event)
        else fmlookup (slots r) h))"
  using assms
proof (induction hs arbitrary: newly r)
  case Nil
  then show ?case by simp
next
  case (Cons h hs)
  obtain newly1 r1 where st1: "deliver_one on_event event h (newly, r) = (newly1, r1)" by fastforce
  have r1: "observers_inv r1" using deliver_one_inv [OF Cons.prems(1)] st1 by (metis snd_conv)
  have frame: "fmlookup (slots r1) h' = fmlookup (slots r) h'" if "h' \<noteq> h" for h'
    using deliver_one_frame(1) [OF Cons.prems(1) that] st1 by (metis snd_conv)
  have same: "panics on_event event r1 h' = panics on_event event r h'" if "h' \<in> set hs" for h'
  proof -
    from that Cons.prems(2) have "h' \<noteq> h" by auto
    then show ?thesis by (simp add: panics_def frame)
  qed
  have eq: "newly1 = (if panics on_event event r h then newly @ [h] else newly)"
    "evicted r1 = (if panics on_event event r h then finsert h (evicted r) else evicted r)"
    "next_handle r1 = next_handle r"
    "fmlookup (slots r1) h = Option.bind (fmlookup (slots r) h) (slot_after on_event event)"
    using st1 deliver_one_eq [OF Cons.prems(1), of on_event event h newly]
    by (auto split: option.splits)
  have "filter (panics on_event event r1) hs = filter (panics on_event event r) hs"
    using same by (rule filter_cong [OF refl])
  moreover note Cons.IH [OF r1, of newly1]
  moreover have "(if h' \<in> set hs then Option.bind (fmlookup (slots r1) h') (slot_after on_event event)
      else fmlookup (slots r1) h') =
    (if h' \<in> set (h # hs) then Option.bind (fmlookup (slots r) h') (slot_after on_event event)
      else fmlookup (slots r) h')" for h'
    using frame [of h'] eq(4) Cons.prems(2) by (cases "h' = h") auto
  ultimately show ?case
    using Cons.prems(2) st1 eq(1-3) same by auto
qed

lemma deliver_effect:
  assumes "observers_inv r"
  shows "observers_inv (snd (deliver on_event event r))"
    and "next_handle (snd (deliver on_event event r)) = next_handle r"
    and "fst (deliver on_event event r) = filter (panics on_event event r) (bt_keys (slots r))"
    and "h |\<in>| evicted (snd (deliver on_event event r)) \<longleftrightarrow>
         h |\<in>| evicted r \<or> panics on_event event r h"
    and "fmlookup (slots (snd (deliver on_event event r))) h =
         Option.bind (fmlookup (slots r) h) (slot_after on_event event)"
proof -
  note D = deliver_fold [OF assms sorted_bt_keys(2) [of "slots r"], of on_event event "[]"]
  show "observers_inv (snd (deliver on_event event r))"
    "next_handle (snd (deliver on_event event r)) = next_handle r"
    "fst (deliver on_event event r) = filter (panics on_event event r) (bt_keys (slots r))"
    using D by (auto simp: deliver_def)
  have dom: "panics on_event event r h \<Longrightarrow> h |\<in>| fmdom (slots r)" by (auto simp: panics_def fmdomI)
  show "h |\<in>| evicted (snd (deliver on_event event r)) \<longleftrightarrow>
         h |\<in>| evicted r \<or> panics on_event event r h"
    using D dom by (auto simp: deliver_def)
  show "fmlookup (slots (snd (deliver on_event event r))) h =
         Option.bind (fmlookup (slots r) h) (slot_after on_event event)"
    using D by (auto simp: deliver_def fmdom_notD)
qed

section \<open>Properties\<close>

text \<open>
  C32 (first-panic eviction, A22). A delivery reports, in handle order, exactly the live observers
  whose filter matches the event and whose callback panicked; those and no others are moved to
  the evicted set and lose their slot, every other slot keeps its mask and holds the state its
  own callback left, and the registry invariant (no handle both live and evicted) is kept.
\<close>

theorem deliver_evicts_first_panic:
  assumes "observers_inv r"
  shows "fst (deliver on_event event r) = filter (panics on_event event r) (bt_keys (slots r)) \<and>
     observers_inv (snd (deliver on_event event r)) \<and>
     (\<forall>h. is_evicted h (snd (deliver on_event event r)) \<longleftrightarrow> is_evicted h r \<or> panics on_event event r h) \<and>
     (\<forall>h. fmlookup (slots (snd (deliver on_event event r))) h =
          Option.bind (fmlookup (slots r) h) (slot_after on_event event))"
  using deliver_effect [OF assms] by (auto simp: is_evicted_def)

text \<open>Observer 0 panics on every event, observer 1 counts them.\<close>

theorem deliver_evicts_first_panic_witness:
  "fst (deliver (\<lambda>x _. if x = (0::nat) then None else Some (Suc x)) (ObserversFlushed 1 1)
      (snd (register 5 (snd (register 0 ObserverRegistry_new))))) = [ObserverHandle 0]"
proof -
  let ?r1 = "snd (register (0::nat) ObserverRegistry_new)"
  let ?r = "snd (register 5 ?r1)"
  have "observers_inv ?r1"
    unfolding register_def by (intro register_inv observers_inv_new) (simp add: ObserverRegistry_new_def)
  moreover have "next_handle ?r1 \<noteq> - 1"
 by (simp add: register_def register_filtered_def ObserverRegistry_new_def Let_def)
  ultimately have "observers_inv ?r" unfolding register_def [of 5] by (rule register_inv)
  note deliver_evicts_first_panic [OF this, of "\<lambda>x _. if x = 0 then None else Some (Suc x)" "ObserversFlushed 1 1"]
  moreover have slots: "slots ?r = fmupd (ObserverHandle 1) \<lparr>slot_observer = 5, slot_mask = EventMask_ALL\<rparr>
      (fmupd (ObserverHandle 0) \<lparr>slot_observer = 0, slot_mask = EventMask_ALL\<rparr> fmempty)"
    by (simp add: register_def register_filtered_def ObserverRegistry_new_def Let_def)
  moreover have "bt_keys (slots ?r) = [ObserverHandle 0, ObserverHandle 1]"
    by (rule sorted_distinct_set_unique)
      (auto simp: sorted_bt_keys slots less_eq_ObserverHandle_def)
  ultimately show ?thesis
    by (simp add: panics_def slot_after_def matches_def contains_def EventMask_ALL_def)
qed

text \<open>
  An evicted observer stays evicted. Over any sequence of deliveries from a consistent
  registry, an observer that was evicted is never live again and receives nothing more: its slot
  stays empty.
\<close>

theorem evicted_stays_evicted:
  assumes "observers_inv r" and "is_evicted h r"
  shows "is_evicted h (fold (\<lambda>e r. snd (deliver on_event e r)) events r) \<and>
     fmlookup (slots (fold (\<lambda>e r. snd (deliver on_event e r)) events r)) h = None"
  using assms
proof (induction events arbitrary: r)
  case Nil
  then show ?case by (auto simp: observers_inv_def is_evicted_def)
next
  case (Cons e events)
  then show ?case using deliver_effect(1,4) [OF Cons.prems(1), where on_event = on_event and event = e]
    by (simp add: is_evicted_def)
qed

theorem evicted_stays_evicted_witness:
  "is_evicted (ObserverHandle 0)
     (fold (\<lambda>e r. snd (deliver (\<lambda>x _. None) e r)) [ObserversFlushed 1 1, ObserversFlushed 2 1]
       (ObserverRegistry_new \<lparr>evicted := {|ObserverHandle 0|}, next_handle := 1\<rparr> :: nat ObserverRegistry))"
proof -
  have "observers_inv (ObserverRegistry_new \<lparr>evicted := {|ObserverHandle 0|}, next_handle := 1\<rparr> :: nat ObserverRegistry)"
    by (simp add: observers_inv_def ObserverRegistry_new_def)
  from evicted_stays_evicted [OF this, of "ObserverHandle 0" "\<lambda>x _. None"
      "[ObserversFlushed 1 1, ObserversFlushed 2 1]"] show ?thesis
    by (simp add: is_evicted_def [of _ "ObserverRegistry_new\<lparr>evicted := e, next_handle := n\<rparr>" for e n])
qed

text \<open>
  Event classes do not overlap. The filter of an observer selects each event by one bit, the
  bits of two variants never coincide, and the default mask selects every event.
\<close>

lemma event_mask_partition:
  "matches EventMask_ALL event \<and> (event_bit e1 AND event_bit e2 = 0 \<or> event_bit e1 = event_bit e2) \<and>
   (matches (m1 OR m2) event \<longleftrightarrow> matches m1 event \<or> matches m2 event)"
proof -
  have "matches EventMask_ALL event"
    by (cases event) (simp_all add: matches_def contains_def EventMask_ALL_def)
  moreover have bit: "\<exists>n. n < 32 \<and> event_bit e = push_bit n 1" for e
    by (cases e; simp only: event_bit.simps; rule exI; rule conjI [rotated]; (rule refl)?; simp)
  moreover have "event_bit e1 AND event_bit e2 = 0 \<or> event_bit e1 = event_bit e2"
    using bit [of e1] bit [of e2] by (auto simp: bit_eq_iff bit_simps)
  moreover have "matches (m1 OR m2) event \<longleftrightarrow> matches m1 event \<or> matches m2 event"
    using bit [of event] by (auto simp: matches_def contains_def bit_eq_iff [where 'a = "32 word"] bit_simps)
  ultimately show ?thesis by blast
qed

end
