(* ===== verification/Stage.thy ===== *)
theory Stage
  imports Observer
begin

text \<open>
  The transactional stage of one action (\<open>runtime/stage.rs\<close>), the dispatcher that fills it from
  an authorized effect (\<open>runtime/dispatch.rs\<close>) and its application to an instance
  (\<open>runtime/apply.rs\<close>). The component store and the ledger are updated in two separate passes
  over two separate buckets; the lemmas show that stages built by \<open>dispatch\<close> keep the two stores,
  and the scheduler's tables, consistent.
\<close>

section \<open>The stage (\<open>stage.rs\<close>)\<close>

datatype StagedStateDelta =
    StagedSpawnEntity EntityId EntityMeta
  | StagedDespawnEntity EntityId
  | StagedSetComponent EntityId TypeCode bytes u64
  | StagedRemoveComponent EntityId TypeCode u64

datatype ScheduledEntryDelta = Add ScheduledEntry | Remove ScheduledActionId

record PendingSignal =
  pending_target :: InstanceId
  pending_route :: RouteId
  pending_payload :: bytes
  pending_principal :: Principal

record IdCountersDelta =
  next_entity_advance :: u64
  next_scheduled_advance :: u64
  next_source_seq_advance :: u64

definition IdCountersDelta_default :: IdCountersDelta where
  "IdCountersDelta_default =
     \<lparr>next_entity_advance = 0, next_scheduled_advance = 0, next_source_seq_advance = 0\<rparr>"

datatype LedgerOp =
    LedgerAddEntity EntityId
  | LedgerRemoveEntity EntityId
  | LedgerAddComponent EntityId TypeCode u64
  | LedgerRemoveComponent EntityId TypeCode u64

text \<open>\<open>ResourceLedgerDelta\<close> is a struct with the single field \<open>ops\<close>.\<close>

type_synonym ResourceLedgerDelta = "LedgerOp list"

record StepStage =
  state_ops :: "StagedStateDelta list"
  stage_events :: "KernelEvent list"
  schedule_deltas :: "ScheduledEntryDelta list"
  pending_signals :: "PendingSignal list"
  id_counters :: IdCountersDelta
  ledger_delta :: ResourceLedgerDelta
  wall_remainder_delta :: u128
  local_tick_delta :: u64
  observer_eviction_pending :: "ObserverHandle list"

definition StepStage_default :: StepStage where
  "StepStage_default =
     \<lparr>state_ops = [], stage_events = [], schedule_deltas = [], pending_signals = [],
      id_counters = IdCountersDelta_default, ledger_delta = [], wall_remainder_delta = 0,
      local_tick_delta = 0, observer_eviction_pending = []\<rparr>"

definition stage_clear :: "StepStage \<Rightarrow> StepStage" where
  "stage_clear stage =
     stage\<lparr>state_ops := [], stage_events := [], schedule_deltas := [], pending_signals := [],
           id_counters := IdCountersDelta_default, ledger_delta := [], wall_remainder_delta := 0,
           local_tick_delta := 0, observer_eviction_pending := []\<rparr>"

text \<open>The loop body of \<open>projected_component_bytes\<close>.\<close>

fun project_op :: "ResourceLedger \<Rightarrow> LedgerOp \<Rightarrow> u64 \<Rightarrow> u64" where
  "project_op ledger (LedgerAddComponent _ _ sz) tot = saturating_add tot sz"
| "project_op ledger (LedgerRemoveComponent ent tc _) tot =
     saturating_sub tot (case component_size ent tc ledger of None \<Rightarrow> 0 | Some freed \<Rightarrow> freed)"
| "project_op ledger (LedgerAddEntity _) tot = tot"
| "project_op ledger (LedgerRemoveEntity _) tot = tot"

definition projected_component_bytes :: "u64 \<Rightarrow> StepStage \<Rightarrow> ResourceLedger \<Rightarrow> u64" where
  "projected_component_bytes baseline stage ledger = fold (project_op ledger) (ledger_delta stage) baseline"

section \<open>The dispatcher (\<open>dispatch.rs\<close>)\<close>

fun dispatch_op ::
  "InstanceId \<Rightarrow> Principal \<Rightarrow> Op \<Rightarrow> Tick \<Rightarrow> CapabilityMask \<Rightarrow> StepStage \<times> u64 \<Rightarrow> (StepStage \<times> u64) outcome" where
  "dispatch_op iid prin (SpawnEntity eid owner) now pcaps (stage, nid) =
     Done (stage\<lparr>state_ops := state_ops stage @ [StagedSpawnEntity eid \<lparr>meta_owner = owner, meta_created = now\<rparr>],
                 ledger_delta := ledger_delta stage @ [LedgerAddEntity eid],
                 id_counters := (id_counters stage)\<lparr>next_entity_advance :=
                   saturating_add (next_entity_advance (id_counters stage)) 1\<rparr>\<rparr>, nid)"
| "dispatch_op iid prin (DespawnEntity eid) now pcaps (stage, nid) =
     Done (stage\<lparr>state_ops := state_ops stage @ [StagedDespawnEntity eid],
                 ledger_delta := ledger_delta stage @ [LedgerRemoveEntity eid]\<rparr>, nid)"
| "dispatch_op iid prin (SetComponent ent tc bs sz) now pcaps (stage, nid) =
     Done (stage\<lparr>state_ops := state_ops stage @ [StagedSetComponent ent tc bs sz],
                 ledger_delta := ledger_delta stage @ [LedgerAddComponent ent tc sz]\<rparr>, nid)"
| "dispatch_op iid prin (RemoveComponent ent tc sz) now pcaps (stage, nid) =
     Done (stage\<lparr>state_ops := state_ops stage @ [StagedRemoveComponent ent tc sz],
                 ledger_delta := ledger_delta stage @ [LedgerRemoveComponent ent tc sz]\<rparr>, nid)"
| "dispatch_op iid prin (EmitEvent actor etc ebs) now pcaps (stage, nid) =
     Done (stage\<lparr>stage_events := stage_events stage @ [DomainEventEmitted iid actor etc ebs]\<rparr>, nid)"
| "dispatch_op iid prin (ScheduleAction at actor atc abytes) now pcaps (stage, nid) =
     (let nid' = saturating_add nid 1
      in obind (expect (ScheduledActionId_new nid')) (\<lambda>sid.
         Done (stage\<lparr>schedule_deltas := schedule_deltas stage @
                       [Add \<lparr>entry_id = sid, entry_at = at, entry_actor = actor, entry_principal = prin,
                             action_type_code = atc, action_bytes = abytes, caps_ceiling = pcaps\<rparr>],
                     id_counters := (id_counters stage)\<lparr>next_scheduled_advance :=
                       saturating_add (next_scheduled_advance (id_counters stage)) 1\<rparr>\<rparr>, nid')))"
| "dispatch_op iid prin (SendSignal target route pl) now pcaps (stage, nid) =
     Done (stage\<lparr>pending_signals := pending_signals stage @
                   [\<lparr>pending_target = target, pending_route = route, pending_payload = pl,
                     pending_principal = prin\<rparr>]\<rparr>, nid)"

definition dispatch ::
  "Authorized Effect \<Rightarrow> Tick \<Rightarrow> CapabilityMask \<Rightarrow> StepStage \<times> u64 \<Rightarrow> (StepStage \<times> u64) outcome" where
  "dispatch effect now pcaps st =
     dispatch_op (effect_instance_id effect) (effect_principal effect) (effect_op effect) now pcaps st"

section \<open>Application (\<open>apply.rs\<close>)\<close>

definition apply_counters :: "IdCountersDelta \<Rightarrow> IdCounters \<Rightarrow> IdCounters" where
  "apply_counters d c =
     c\<lparr>next_entity := saturating_add (next_entity c) (next_entity_advance d),
       next_scheduled := saturating_add (next_scheduled c) (next_scheduled_advance d),
       next_source_seq := saturating_add (next_source_seq c) (next_source_seq_advance d)\<rparr>"

fun apply_state_op :: "StagedStateDelta \<Rightarrow> Instance \<Rightarrow> Instance" where
  "apply_state_op (StagedSpawnEntity eid meta) inst = insert_entity eid meta inst"
| "apply_state_op (StagedDespawnEntity eid) inst = snd (inst_remove_entity eid inst)"
| "apply_state_op (StagedSetComponent ent tc bs _) inst =
     (if entity_meta ent inst \<noteq> None then insert_component (ent, tc) bs inst else inst)"
| "apply_state_op (StagedRemoveComponent ent tc _) inst = snd (inst_remove_component (ent, tc) inst)"

fun apply_ledger_op :: "LedgerOp \<Rightarrow> ResourceLedger \<Rightarrow> ResourceLedger" where
  "apply_ledger_op (LedgerAddEntity eid) l = snd (add_entity eid l)"
| "apply_ledger_op (LedgerRemoveEntity eid) l = snd (remove_entity eid l)"
| "apply_ledger_op (LedgerAddComponent ent tc sz) l = snd (add_component ent tc sz l)"
| "apply_ledger_op (LedgerRemoveComponent ent tc sz) l = snd (remove_component ent tc sz l)"

fun apply_schedule_delta :: "ScheduledEntryDelta \<Rightarrow> Scheduler \<Rightarrow> Scheduler outcome" where
  "apply_schedule_delta (Add e) s =
     Done (schedule_with_id (entry_id e) (entry_at e) (entry_actor e) (entry_principal e)
             (caps_ceiling e) (action_type_code e) (action_bytes e) s)"
| "apply_schedule_delta (Remove sid) s = obind (cancel sid s) (\<lambda>(_, s'). Done s')"

definition apply_stage :: "StepStage \<Rightarrow> Instance \<Rightarrow> (PendingSignal list \<times> Instance \<times> StepStage) outcome" where
  "apply_stage stage inst =
     (let inst1 = inst\<lparr>inst_counters := apply_counters (id_counters stage) (inst_counters inst)\<rparr>;
          inst2 = fold apply_state_op (state_ops stage) inst1;
          inst3 = inst2\<lparr>inst_ledger := fold apply_ledger_op (ledger_delta stage) (inst_ledger inst2)\<rparr>
      in obind (ofold apply_schedule_delta (schedule_deltas stage) (inst_scheduler inst3)) (\<lambda>s.
         let inst4 = inst3\<lparr>inst_scheduler := s\<rparr>;
             inst5 = advance_wall_remainder (wall_remainder_delta stage) inst4;
             inst6 = advance_local_tick (local_tick_delta stage) inst5
         in Done (pending_signals stage, inst6,
                  stage\<lparr>state_ops := [], ledger_delta := [], schedule_deltas := [], pending_signals := []\<rparr>)))"

section \<open>Clearing and dispatching\<close>

lemma stage_clear_default [simp]: "stage_clear stage = StepStage_default"
  by (simp add: stage_clear_def StepStage_default_def)

lemma dispatch_op_Done: "dispatch_op iid prin op now pcaps st \<noteq> Panic"
  by (cases st; cases op) (simp_all add: Let_def)

section \<open>The two stores move together\<close>

text \<open>The staged deltas of one effect intent, bucket by bucket.\<close>

fun state_deltas :: "Tick \<Rightarrow> Op \<Rightarrow> StagedStateDelta list" where
  "state_deltas now (SpawnEntity eid owner) = [StagedSpawnEntity eid \<lparr>meta_owner = owner, meta_created = now\<rparr>]"
| "state_deltas now (DespawnEntity eid) = [StagedDespawnEntity eid]"
| "state_deltas now (SetComponent ent tc bs sz) = [StagedSetComponent ent tc bs sz]"
| "state_deltas now (RemoveComponent ent tc sz) = [StagedRemoveComponent ent tc sz]"
| "state_deltas now _ = []"

fun ledger_deltas :: "Op \<Rightarrow> LedgerOp list" where
  "ledger_deltas (SpawnEntity eid owner) = [LedgerAddEntity eid]"
| "ledger_deltas (DespawnEntity eid) = [LedgerRemoveEntity eid]"
| "ledger_deltas (SetComponent ent tc bs sz) = [LedgerAddComponent ent tc sz]"
| "ledger_deltas (RemoveComponent ent tc sz) = [LedgerRemoveComponent ent tc sz]"
| "ledger_deltas _ = []"

lemma apply_state_op_frame [simp]:
  "inst_ledger (apply_state_op d inst) = inst_ledger inst"
  "inst_scheduler (apply_state_op d inst) = inst_scheduler inst"
  "inst_counters (apply_state_op d inst) = inst_counters inst"
  "inst_config (apply_state_op d inst) = inst_config inst"
  "inst_id (apply_state_op d inst) = inst_id inst"
  "signal_inbox (apply_state_op d inst) = signal_inbox inst"
  "inbox_seq (apply_state_op d inst) = inbox_seq inst"
  "inflight_refs (apply_state_op d inst) = inflight_refs inst"
  by (cases d; simp add: insert_entity_def inst_remove_entity_def insert_component_def
      inst_remove_component_def Let_def)+

lemma fold_state_frame [simp]:
  "inst_ledger (fold apply_state_op ds inst) = inst_ledger inst"
  "inst_scheduler (fold apply_state_op ds inst) = inst_scheduler inst"
  "inst_counters (fold apply_state_op ds inst) = inst_counters inst"
  "inst_config (fold apply_state_op ds inst) = inst_config inst"
  "inst_id (fold apply_state_op ds inst) = inst_id inst"
  "signal_inbox (fold apply_state_op ds inst) = signal_inbox inst"
  "inbox_seq (fold apply_state_op ds inst) = inbox_seq inst"
  "inflight_refs (fold apply_state_op ds inst) = inflight_refs inst"
  by (induction ds arbitrary: inst) simp_all

text \<open>The part of \<open>instance_sync\<close> that speaks of the stores.\<close>

definition stores_agree :: "Instance \<Rightarrow> ResourceLedger \<Rightarrow> bool" where
  "stores_agree inst l \<longleftrightarrow>
     ledger_entities l = fmdom (inst_entities inst) \<and>
     fmdom (component_sizes l) = fmdom (inst_components inst) \<and> ledger_owned l"

lemma sync_iff: "instance_sync inst \<longleftrightarrow>
    stores_agree inst (inst_ledger inst) \<and> unat (total_bytes (inst_ledger inst)) \<le> accounted (inst_ledger inst)"
  by (auto simp: instance_sync_def stores_agree_def)

lemma fmdom_fmfilter_fst: "fmdom (fmfilter P m) = ffilter P (fmdom m)"
  by (rule fmdom_filter)

lemma op_stores_agree:
  assumes "stores_agree inst l"
  shows "stores_agree (fold apply_state_op (state_deltas now op) inst) (fold apply_ledger_op (ledger_deltas op) l)"
proof (cases op)
  case (RemoveComponent ent tc sz)
  have "ent |\<notin>| ledger_entities l \<Longrightarrow> (ent, tc) |\<notin>| fmdom (component_sizes l)"
    using assms by (auto simp: stores_agree_def ledger_owned_def)
  with assms RemoveComponent show ?thesis
    by (auto simp: stores_agree_def ledger_maps inst_remove_component_def ledger_owned_def)
next
  case (DespawnEntity eid)
  have "fst k \<noteq> eid" if "eid |\<notin>| ledger_entities l" and "k |\<in>| fmdom (component_sizes l)" for k
    using assms that unfolding stores_agree_def ledger_owned_def by metis
  then have "eid |\<notin>| ledger_entities l \<Longrightarrow>
      ffilter (\<lambda>k. fst k \<noteq> eid) (fmdom (component_sizes l)) = fmdom (component_sizes l)"
    by (intro fset_eqI) auto
  with assms DespawnEntity show ?thesis
    by (auto simp: stores_agree_def ledger_maps inst_remove_entity_maps ledger_owned_ops fmdom_fmfilter_fst)
next
  case (SetComponent ent tc bs sz)
  have "entity_meta ent inst \<noteq> None \<longleftrightarrow> ent |\<in>| ledger_entities l"
    using assms by (auto simp: stores_agree_def entity_meta_def fmlookup_dom_iff)
  with assms SetComponent show ?thesis
    by (auto simp: stores_agree_def ledger_maps insert_component_def ledger_owned_ops)
qed (use assms in \<open>simp_all add: stores_agree_def insert_entity_def ledger_owned_ops\<close>)

lemma ops_stores_agree:
  assumes "stores_agree inst l"
  shows "stores_agree (fold apply_state_op (concat (map (state_deltas now) ops)) inst)
    (fold apply_ledger_op (concat (map ledger_deltas ops)) l)"
  using assms by (induction ops arbitrary: inst l) (auto simp: op_stores_agree)

lemma ledger_op_le:
  "unat (total_bytes l) \<le> accounted l \<Longrightarrow> unat (total_bytes (apply_ledger_op op l)) \<le> accounted (apply_ledger_op op l)"
  by (cases op) (simp_all add: remove_entity_total add_component_le remove_component_le, simp add: accounted_def)

lemma ledger_ops_le:
  "unat (total_bytes l) \<le> accounted l \<Longrightarrow>
     unat (total_bytes (fold apply_ledger_op ops l)) \<le> accounted (fold apply_ledger_op ops l)"
  by (induction ops arbitrary: l) (simp_all add: ledger_op_le)

section \<open>What the budget gate relies on: a byte ledger\<close>

definition size_at :: "('k, u64) fmap \<Rightarrow> 'k \<Rightarrow> nat" where
  "size_at m k = (case fmlookup m k of None \<Rightarrow> 0 | Some v \<Rightarrow> unat v)"

definition put_at :: "('k \<times> u64) option \<Rightarrow> 'k \<Rightarrow> nat" where
  "put_at p k = (case p of None \<Rightarrow> 0 | Some (j, v) \<Rightarrow> if j = k then unat v else 0)"

definition put_size :: "('k \<times> u64) option \<Rightarrow> nat" where
  "put_size p = (case p of None \<Rightarrow> 0 | Some (_, v) \<Rightarrow> unat v)"

definition del_size :: "('k, u64) fmap \<Rightarrow> 'k option \<Rightarrow> nat" where
  "del_size m d = (case d of None \<Rightarrow> 0 | Some k \<Rightarrow> size_at m k)"

lemma fmsum_size_at:
  assumes "finite K" and "fset (fmdom m) \<subseteq> K"
  shows "fmsum unat m = sum (size_at m) K"
proof -
  have "fmsum unat m = sum (size_at m) (fset (fmdom m))"
    unfolding fmsum_def by (rule sum.cong) (auto simp: size_at_def fmlookup_dom_iff)
  also have "\<dots> = sum (size_at m) K"
    using assms by (intro sum.mono_neutral_left) (auto simp: size_at_def fmdom_notD)
  finally show ?thesis .
qed

text \<open>
  The contract: an operation attaches at most one component (\<open>puts\<close>) and detaches at most the one
  it names (\<open>dels\<close>); a stored size can only come from the operation or from before it, and a
  detached key keeps nothing of what it held.
\<close>

locale byte_ledger =
  fixes step :: "'op \<Rightarrow> 's \<Rightarrow> 's"
    and stored :: "'s \<Rightarrow> ('k, u64) fmap"
    and puts :: "'op \<Rightarrow> ('k \<times> u64) option"
    and dels :: "'op \<Rightarrow> 'k option"
    and invar :: "'s \<Rightarrow> bool"
  assumes step_invar: "invar s \<Longrightarrow> invar (step op s)"
    and step_size: "invar s \<Longrightarrow> size_at (stored (step op s)) k \<le>
      (if dels op = Some k then 0 else size_at (stored s) k) + put_at (puts op) k"
begin

lemma run_invar: "invar s \<Longrightarrow> invar (fold step ops s)"
  by (induction ops arbitrary: s) (simp_all add: step_invar)

lemma run_size:
  assumes "invar s"
  shows "size_at (stored (fold step ops s)) k \<le>
    (if Some k \<in> dels ` set ops then 0 else size_at (stored s) k) + (\<Sum>op\<leftarrow>ops. put_at (puts op) k)"
proof (induction ops rule: rev_induct)
  case Nil
  then show ?case by simp
next
  case (snoc op ops)
  have "size_at (stored (fold step (ops @ [op]) s)) k \<le>
      (if dels op = Some k then 0 else size_at (stored (fold step ops s)) k) + put_at (puts op) k"
    using step_size [OF run_invar [OF assms, of ops], of op k] by simp
  with snoc show ?case by (auto split: if_splits)
qed

lemma run_total:
  assumes "invar s"
  shows "fmsum unat (stored (fold step ops s)) + (\<Sum>k | Some k \<in> dels ` set ops. size_at (stored s) k) \<le>
    fmsum unat (stored s) + (\<Sum>op\<leftarrow>ops. put_size (puts op))"
proof -
  let ?t = "fold step ops s"
  define D where "D = {k. Some k \<in> dels ` set ops}"
  define K where "K = fset (fmdom (stored s)) \<union> fset (fmdom (stored ?t)) \<union> D \<union> {k. \<exists>op\<in>set ops. \<exists>v. puts op = Some (k, v)}"
  have "D \<subseteq> the ` dels ` set ops"
  proof
    fix k assume "k \<in> D"
    then have "Some k \<in> dels ` set ops" by (simp add: D_def)
    then show "k \<in> the ` dels ` set ops" by (metis image_eqI option.sel)
  qed
  then have finD: "finite D" by (rule finite_subset) simp
  have "{k. \<exists>op\<in>set ops. \<exists>v. puts op = Some (k, v)} \<subseteq> (fst \<circ> the \<circ> puts) ` set ops" by force
  then have "finite {k. \<exists>op\<in>set ops. \<exists>v. puts op = Some (k, v)}" by (rule finite_subset) simp
  with finD have fin: "finite K" by (simp add: K_def)
  have puts: "(\<Sum>k\<in>K. \<Sum>op\<leftarrow>ops'. put_at (puts op) k) = (\<Sum>op\<leftarrow>ops'. put_size (puts op))"
    if "set ops' \<subseteq> set ops" for ops'
    using that
  proof (induction ops')
    case (Cons op ops')
    have "(\<Sum>k\<in>K. put_at (puts op) k) = put_size (puts op)"
    proof (cases "puts op")
      case (Some jv)
      obtain j v where jv: "jv = (j, v)" by (cases jv)
      have "j \<in> K" using Cons.prems Some jv by (auto simp: K_def)
      then show ?thesis using Some jv fin by (simp add: put_at_def put_size_def)
    qed (simp add: put_at_def put_size_def)
    with Cons show ?case by (simp add: sum.distrib)
  qed simp
  have "fmsum unat (stored ?t) = (\<Sum>k\<in>K. size_at (stored ?t) k)"
    by (rule fmsum_size_at [OF fin]) (auto simp: K_def)
  also have "\<dots> \<le> (\<Sum>k\<in>K. (if k \<in> D then 0 else size_at (stored s) k) + (\<Sum>op\<leftarrow>ops. put_at (puts op) k))"
    using run_size [OF assms, of ops] by (intro sum_mono) (auto simp: D_def)
  also have "\<dots> = (\<Sum>k\<in>K. if k \<in> D then 0 else size_at (stored s) k) + (\<Sum>op\<leftarrow>ops. put_size (puts op))"
    using puts by (simp add: sum.distrib)
  finally have le: "fmsum unat (stored ?t) \<le> (\<Sum>k\<in>K - D. size_at (stored s) k) + (\<Sum>op\<leftarrow>ops. put_size (puts op))"
    using fin by (simp add: sum.If_cases Diff_eq)
  have "fmsum unat (stored s) = (\<Sum>k\<in>K. size_at (stored s) k)"
    by (rule fmsum_size_at [OF fin]) (auto simp: K_def)
  also have "\<dots> = (\<Sum>k\<in>K - D. size_at (stored s) k) + (\<Sum>k\<in>D. size_at (stored s) k)"
    using fin by (intro sum.subset_diff) (auto simp: K_def)
  finally show ?thesis using le by (simp add: D_def)
qed

text \<open>Without a repeated detach, the sum of the credits is the sum over the detached keys.\<close>

lemma run_credit:
  assumes "invar s" and "distinct (filter (\<lambda>d. d \<noteq> None) (map dels ops))"
  shows "fmsum unat (stored (fold step ops s)) + (\<Sum>op\<leftarrow>ops. del_size (stored s) (dels op)) \<le>
    fmsum unat (stored s) + (\<Sum>op\<leftarrow>ops. put_size (puts op))"
proof -
  have "(\<Sum>op\<leftarrow>ops. del_size (stored s) (dels op)) = (\<Sum>d\<leftarrow>filter (\<lambda>d. d \<noteq> None) (map dels ops). del_size (stored s) d)"
    by (induction ops) (auto simp: del_size_def)
  also have "\<dots> = sum (del_size (stored s)) (set (filter (\<lambda>d. d \<noteq> None) (map dels ops)))"
    using assms(2) by (rule sum_list_distinct_conv_sum_set)
  also have "set (filter (\<lambda>d. d \<noteq> None) (map dels ops)) = Some ` {k. Some k \<in> dels ` set ops}"
    by (auto simp: image_iff) (metis option.exhaust)
  also have "sum (del_size (stored s)) (Some ` {k. Some k \<in> dels ` set ops}) =
      (\<Sum>k | Some k \<in> dels ` set ops. size_at (stored s) k)"
    by (subst sum.reindex) (simp_all add: del_size_def)
  finally show ?thesis using run_total [OF assms(1), of ops] by simp
qed

end

fun ledger_puts :: "LedgerOp \<Rightarrow> ((EntityId \<times> TypeCode) \<times> u64) option" where
  "ledger_puts (LedgerAddComponent ent tc sz) = Some ((ent, tc), sz)"
| "ledger_puts _ = None"

fun ledger_dels :: "LedgerOp \<Rightarrow> (EntityId \<times> TypeCode) option" where
  "ledger_dels (LedgerRemoveComponent ent tc _) = Some (ent, tc)"
| "ledger_dels _ = None"

lemma ledger_op_owned: "ledger_owned l \<Longrightarrow> ledger_owned (apply_ledger_op op l)"
  by (cases op) (simp_all add: ledger_owned_ops)

interpretation ledger: byte_ledger apply_ledger_op component_sizes ledger_puts ledger_dels ledger_owned
proof
  fix op l k
  assume own: "ledger_owned l"
  then show "ledger_owned (apply_ledger_op op l)" by (rule ledger_op_owned)
  have gone: "fmlookup (component_sizes l) (ent, tc) = None" if "ent |\<notin>| ledger_entities l" for ent tc
    using own that unfolding ledger_owned_def by (metis fmdom_notD fst_conv)
  show "size_at (component_sizes (apply_ledger_op op l)) k \<le>
      (if ledger_dels op = Some k then 0 else size_at (component_sizes l) k) + put_at (ledger_puts op) k"
    using gone by (cases op) (auto simp: ledger_maps size_at_def put_at_def)
qed

section \<open>What a list of dispatched effects leaves in the stage\<close>

text \<open>
  \<open>staged\<close> describes the stage after the effects \<open>acc\<close> have been dispatched into an empty one,
  with ids minted from \<open>start\<close>: it is what the gate loop of the kernel maintains.
\<close>

fun schedules :: "Op \<Rightarrow> bool" where
  "schedules (ScheduleAction _ _ _ _) = True"
| "schedules _ = False"

fun spawns :: "Op \<Rightarrow> bool" where
  "spawns (SpawnEntity _ _) = True"
| "spawns _ = False"

definition count_ops :: "(Op \<Rightarrow> bool) \<Rightarrow> Op list \<Rightarrow> nat" where
  "count_ops P acc = length (filter P acc)"

lemma count_ops_simps [simp]:
  "count_ops P [] = 0" "count_ops P (acc @ [op]) = count_ops P acc + (if P op then 1 else 0)"
  by (simp_all add: count_ops_def)

lemma count_ops_le: "count_ops P acc \<le> length acc"
  by (simp add: count_ops_def)

definition minted :: "u64 \<Rightarrow> nat \<Rightarrow> ScheduledActionId" where
  "minted start i = ScheduledActionId (word_of_nat (min (unat start + i) (2 ^ 64 - 1)))"

definition staged ::
  "Tick \<Rightarrow> Principal \<Rightarrow> CapabilityMask \<Rightarrow> u64 \<Rightarrow> Op list \<Rightarrow> StepStage \<times> u64 \<Rightarrow> bool" where
  "staged now prin pcaps start acc st \<longleftrightarrow>
     (let (stage, nid) = st in
      state_ops stage = concat (map (state_deltas now) acc) \<and>
      ledger_delta stage = concat (map ledger_deltas acc) \<and>
      unat (next_entity_advance (id_counters stage)) = min (count_ops spawns acc) (2 ^ 64 - 1) \<and>
      unat (next_scheduled_advance (id_counters stage)) = min (count_ops schedules acc) (2 ^ 64 - 1) \<and>
      unat nid = min (unat start + count_ops schedules acc) (2 ^ 64 - 1) \<and>
      wall_remainder_delta stage = 0 \<and> local_tick_delta stage = 0 \<and>
      (\<exists>es. schedule_deltas stage = map Add es \<and>
         map entry_id es = map (minted start \<circ> Suc) [0..<count_ops schedules acc] \<and>
         (\<forall>e\<in>set es. caps_ceiling e = pcaps \<and> entry_principal e = prin)) \<and>
      (\<forall>sig\<in>set (pending_signals stage). pending_principal sig = prin))"

lemma staged_default: "staged now prin pcaps start [] (StepStage_default, start)"
  using unat_le_max [of start] by (simp add: staged_def StepStage_default_def IdCountersDelta_default_def)

lemma staged_event: "staged now prin pcaps start acc (stage, nid) \<Longrightarrow>
    staged now prin pcaps start acc (stage\<lparr>stage_events := evs\<rparr>, nid)"
  by (simp add: staged_def)

lemma minted_next:
  assumes "unat (nid :: u64) = min (unat start + n) (2 ^ 64 - 1)"
  shows "ScheduledActionId (saturating_add nid 1) = minted start (Suc n)"
proof -
  have "unat (saturating_add nid 1) = min (unat start + Suc n) (2 ^ 64 - 1)"
    using assms by (auto simp: sat_simps)
  then have "saturating_add nid 1 = word_of_nat (min (unat start + Suc n) (2 ^ 64 - 1))"
    by (metis of_nat_unat ucast_id)
  then show ?thesis by (simp add: minted_def)
qed

lemma staged_dispatch:
  assumes "staged now prin pcaps start acc (stage, nid)"
  shows "\<exists>st'. dispatch_op iid prin op now pcaps (stage, nid) = Done st' \<and>
    staged now prin pcaps start (acc @ [op]) st'"
proof (cases op)
  case (ScheduleAction at actor tc bs)
  from assms obtain es where es: "schedule_deltas stage = map Add es"
      "map entry_id es = map (minted start \<circ> Suc) [0..<count_ops schedules acc]"
      "\<forall>e\<in>set es. caps_ceiling e = pcaps \<and> entry_principal e = prin"
    by (auto simp: staged_def)
  let ?e = "\<lparr>entry_id = minted start (Suc (count_ops schedules acc)), entry_at = at, entry_actor = actor,
    entry_principal = prin, action_type_code = tc, action_bytes = bs, caps_ceiling = pcaps\<rparr>"
  have nid: "ScheduledActionId (saturating_add nid 1) = minted start (Suc (count_ops schedules acc))"
    using assms by (intro minted_next) (simp add: staged_def)
  have "\<exists>es'. schedule_deltas stage @ [Add ?e] = map Add es' \<and>
      map entry_id es' = map (minted start \<circ> Suc) [0..<Suc (count_ops schedules acc)] \<and>
      (\<forall>e\<in>set es'. caps_ceiling e = pcaps \<and> entry_principal e = prin)"
    using es by (intro exI [of _ "es @ [?e]"]) simp
  moreover have "unat (saturating_add nid 1) = min (unat start + Suc (count_ops schedules acc)) (2 ^ 64 - 1)"
    using assms by (auto simp: staged_def sat_simps)
  moreover have "unat (saturating_add (next_scheduled_advance (id_counters stage)) 1) =
      min (Suc (count_ops schedules acc)) (2 ^ 64 - 1)"
    using assms by (auto simp: staged_def sat_simps)
  ultimately show ?thesis
    using assms ScheduleAction nid by (auto simp: staged_def Let_def)
next
  case (SpawnEntity eid owner)
  have "unat (saturating_add (next_entity_advance (id_counters stage)) 1) =
      min (Suc (count_ops spawns acc)) (2 ^ 64 - 1)"
    using assms by (auto simp: staged_def sat_simps)
  then show ?thesis using assms SpawnEntity by (auto simp: staged_def)
qed (use assms in \<open>auto simp: staged_def\<close>)

section \<open>Applying a dispatched stage\<close>

lemma apply_adds:
  assumes "sched_inv s" and "unat (next_id s) \<le> n" and "unat (next_seq s) \<le> n"
    and "map entry_id es = map (\<lambda>i. ScheduledActionId (word_of_nat (n + Suc i))) [0..<k]" and "n + k < 2 ^ 64"
  shows "\<exists>t. ofold apply_schedule_delta (map Add es) s = Done t \<and> sched_inv t \<and>
    unat (next_id t) \<le> n + k \<and> unat (next_seq t) \<le> n + k"
  using assms
proof (induction es arbitrary: s n k)
  case Nil
  then show ?case by simp
next
  case (Cons e es)
  from Cons.prems(4) obtain k' where k': "k = Suc k'" by (cases k) auto
  have upt: "[0..<Suc k'] = 0 # map Suc [0..<k']" by (simp add: map_Suc_upt upt_conv_Cons)
  let ?sid = "ScheduledActionId (word_of_nat (Suc n) :: u64)"
  have e: "entry_id e = ?sid" and es: "map entry_id es = map (\<lambda>i. ScheduledActionId (word_of_nat (Suc n + Suc i))) [0..<k']"
    using Cons.prems(4) unfolding k' upt by (simp_all add: comp_def)
  have id: "unat (word_of_nat (Suc n) :: u64) = Suc n"
    using Cons.prems(5) k' by (simp add: unat_of_nat del: of_nat_Suc)
  let ?t = "schedule_with_id (entry_id e) (entry_at e) (entry_actor e) (entry_principal e)
             (caps_ceiling e) (action_type_code e) (action_bytes e) s"
  have "next_id s < scheduled_id_get (entry_id e)" "next_seq s < scheduled_id_get (entry_id e)"
    using Cons.prems(2,3) e id by (simp_all add: word_less_nat_alt)
  note A = schedule_above_inv [OF Cons.prems(1) this]
  have "\<exists>t. ofold apply_schedule_delta (map Add es) ?t = Done t \<and> sched_inv t \<and>
      unat (next_id t) \<le> Suc n + k' \<and> unat (next_seq t) \<le> Suc n + k'"
  proof (rule Cons.IH [OF A(1) _ _ es])
    show "unat (next_id ?t) \<le> Suc n" using A(2) e id by simp
    show "unat (next_seq ?t) \<le> Suc n" using A(3) e id by (simp add: word_le_nat_alt)
    show "Suc n + k' < 2 ^ 64" using Cons.prems(5) k' by simp
  qed
  then show ?case using k' by simp
qed

lemma minted_exact:
  "n + k < 2 ^ 64 \<Longrightarrow> n = unat start \<Longrightarrow>
   map (minted start \<circ> Suc) [0..<k] = map (\<lambda>i. ScheduledActionId (word_of_nat (n + Suc i))) [0..<k]"
  by (auto simp: minted_def)

lemma apply_staged:
  assumes inv: "instance_inv inst"
    and st: "staged now prin pcaps (next_scheduled (inst_counters inst)) acc (stage, nid)"
    and room: "unat (next_scheduled (inst_counters inst)) + count_ops schedules acc < 2 ^ 64"
  shows "\<exists>inst' stage'. apply_stage stage inst = Done (pending_signals stage, inst', stage') \<and> instance_inv inst' \<and>
     inst_config inst' = inst_config inst \<and> inst_id inst' = inst_id inst \<and>
     inst_ledger inst' = fold apply_ledger_op (ledger_delta stage) (inst_ledger inst) \<and>
     unat (next_scheduled (inst_counters inst')) =
       unat (next_scheduled (inst_counters inst)) + count_ops schedules acc"
proof -
  let ?n = "unat (next_scheduled (inst_counters inst))" and ?k = "count_ops schedules acc"
  let ?inst1 = "inst\<lparr>inst_counters := apply_counters (id_counters stage) (inst_counters inst)\<rparr>"
  let ?inst2 = "fold apply_state_op (state_ops stage) ?inst1"
  let ?l = "fold apply_ledger_op (ledger_delta stage) (inst_ledger inst)"
  from st obtain es where es: "schedule_deltas stage = map Add es"
      "map entry_id es = map (minted (next_scheduled (inst_counters inst)) \<circ> Suc) [0..<?k]"
    by (auto simp: staged_def)
  from inv have sch: "sched_inv (inst_scheduler inst)" "unat (next_id (inst_scheduler inst)) \<le> ?n"
      "unat (next_seq (inst_scheduler inst)) \<le> ?n"
    by (simp_all add: instance_inv_def instance_sched_def word_le_nat_alt)
  obtain s where s: "ofold apply_schedule_delta (schedule_deltas stage) (inst_scheduler inst) = Done s"
      "sched_inv s" "unat (next_id s) \<le> ?n + ?k" "unat (next_seq s) \<le> ?n + ?k"
    using apply_adds [OF sch, of es ?k] es minted_exact [OF room refl] room by auto
  have adv: "unat (saturating_add (next_scheduled (inst_counters inst)) (next_scheduled_advance (id_counters stage))) = ?n + ?k"
    using st room by (simp add: staged_def sat_simps)
  have "stores_agree inst (inst_ledger inst)" using inv by (simp add: instance_inv_def sync_iff)
  then have "stores_agree ?inst1 (inst_ledger inst)" by (simp add: stores_agree_def)
  then have agree: "stores_agree ?inst2 ?l"
    using st ops_stores_agree [of ?inst1 "inst_ledger inst" now acc] by (simp add: staged_def)
  have le: "unat (total_bytes ?l) \<le> accounted ?l"
    using inv by (intro ledger_ops_le) (simp add: instance_inv_def sync_iff)
  have st0: "wall_remainder_delta stage = 0" "local_tick_delta stage = 0" using st by (simp_all add: staged_def)
  let ?inst' = "?inst2\<lparr>inst_ledger := ?l, inst_scheduler := s\<rparr>"
  have "apply_stage stage inst = Done (pending_signals stage, ?inst',
      stage\<lparr>state_ops := [], ledger_delta := [], schedule_deltas := [], pending_signals := []\<rparr>)"
    using s(1) st0 by (simp add: apply_stage_def Let_def advance_wall_remainder_def advance_local_tick_def)
  moreover have "instance_inv ?inst'"
    using agree le s(2-4) adv
    by (simp add: instance_inv_def sync_iff instance_sched_def stores_agree_def apply_counters_def word_le_nat_alt)
  ultimately show ?thesis using adv by (auto simp: apply_counters_def)
qed

section \<open>Properties\<close>

text \<open>
  C31 (the byte total). After any sequence of ledger operations from an empty ledger, every accounted
  component belongs to a registered entity and the cached total never exceeds the sum of the
  component sizes; it equals the sum as long as the sum has always fitted into 64 bits. (Past that
  point the cache saturates and may stay below the sum.)
\<close>

theorem ledger_tracks_sum:
  fixes ops :: "LedgerOp list"
  defines "l \<equiv> fold apply_ledger_op ops ledger_new"
  shows "ledger_owned l \<and> unat (total_bytes l) \<le> accounted l \<and>
    ((\<forall>n. accounted (fold apply_ledger_op (take n ops) ledger_new) < 2 ^ 64) \<longrightarrow> unat (total_bytes l) = accounted l)"
  unfolding l_def
proof (induction ops rule: rev_induct)
  case Nil
  then show ?case by (simp add: ledger_owned_new) (simp add: ledger_new_def)
next
  case (snoc op ops)
  let ?l = "fold apply_ledger_op ops ledger_new"
  have le: "unat (total_bytes (apply_ledger_op op ?l)) \<le> accounted (apply_ledger_op op ?l)" using snoc ledger_op_le by blast
  have ow: "ledger_owned (apply_ledger_op op ?l)" using snoc by (cases op) (simp_all add: ledger_owned_ops)
  have ex: "ledger_exact (apply_ledger_op op ?l)"
    if "\<forall>n. accounted (fold apply_ledger_op (take n (ops @ [op])) ledger_new) < 2 ^ 64"
  proof -
    have "accounted (fold apply_ledger_op (take n ops) ledger_new) < 2 ^ 64" for n
      using that [rule_format, of "min n (length ops)"] by (simp add: min_def split: if_splits)
    with snoc have e: "ledger_exact ?l" by (simp add: ledger_exact_def)
    have "accounted (apply_ledger_op op ?l) < 2 ^ 64" using that [rule_format, of "Suc (length ops)"] by simp
    with e show ?thesis
      by (cases op) (simp_all add: add_component_exact remove_component_exact remove_entity_total, simp add: ledger_exact_def accounted_def)
  qed
  show ?case using le ow ex by (simp add: ledger_exact_def)
qed

theorem ledger_tracks_sum_witness:
  "let l = fold apply_ledger_op [LedgerAddEntity (EntityId 1)] ledger_new in unat (total_bytes l) = accounted l"
proof -
  have "accounted (fold apply_ledger_op (take n [LedgerAddEntity (EntityId 1)]) ledger_new) < 2 ^ 64" for n
    by (cases n) (simp_all add: accounted_def add_entity_def ledger_new_def)
  with ledger_tracks_sum [of "[LedgerAddEntity (EntityId 1)]"] show ?thesis by (simp add: Let_def)
qed

end
