(* ===== verification/Signature.thy ===== *)
theory Signature
  imports Instance
begin

text \<open>
  The signature tiers of the write-ahead log (\<open>persist/signature.rs\<close>): the signing class held by
  a writer, the verifier rebuilt from the header's pinned keys, and the domain-separated message
  both sides use.

  Ed25519 and ML-DSA 65 are library code: their operations are the fields of \<open>SigLib\<close>. A signing
  key is represented by the seed it is built from and a verifying key by its encoding, so
  \<open>ed25519_valid_key\<close> says which encodings parse.
\<close>

section \<open>The signature libraries\<close>

record SigLib = DigestLib +
  ed25519_public :: "bytes \<Rightarrow> bytes"
  ed25519_sign :: "bytes \<Rightarrow> bytes \<Rightarrow> bytes"
  ed25519_valid_key :: "bytes \<Rightarrow> bool"
  ed25519_verify_strict :: "bytes \<Rightarrow> bytes \<Rightarrow> bytes \<Rightarrow> bool"
  mldsa_public :: "bytes \<Rightarrow> bytes"
  mldsa_try_sign :: "bytes \<Rightarrow> bytes \<Rightarrow> string + bytes"
  mldsa_sig_decodes :: "bytes \<Rightarrow> bool"
  mldsa_verify :: "bytes \<Rightarrow> bytes \<Rightarrow> bytes \<Rightarrow> bool"

section \<open>ML-DSA 65, software only\<close>

datatype PqcSignError = Provider string

datatype PqcVerifyError = PqcWrongLength | PqcMismatch

text \<open>\<open>from_seed\<close>: the signer keeps the signing key and its cached verifying key.\<close>

record SoftwareMlDsa65Signer =
  signer_seed :: bytes
  verifying_key_cache :: bytes

definition mldsa_from_seed :: "'z SigLib_scheme \<Rightarrow> bytes \<Rightarrow> SoftwareMlDsa65Signer" where
  "mldsa_from_seed lib seed = \<lparr>signer_seed = seed, verifying_key_cache = mldsa_public lib seed\<rparr>"

definition pqc_sign :: "'z SigLib_scheme \<Rightarrow> SoftwareMlDsa65Signer \<Rightarrow> bytes \<Rightarrow> PqcSignError + bytes" where
  "pqc_sign lib s msg =
     (case mldsa_try_sign lib (signer_seed s) msg of Inl e \<Rightarrow> Inl (Provider e) | Inr sg \<Rightarrow> Inr sg)"

definition pqc_verifying_key_bytes :: "SoftwareMlDsa65Signer \<Rightarrow> bytes" where
  "pqc_verifying_key_bytes s = verifying_key_cache s"

record SoftwareMlDsa65Verifier =
  verifier_key :: bytes

definition mldsa_verifier_from_bytes :: "bytes \<Rightarrow> PqcVerifyError + SoftwareMlDsa65Verifier" where
  "mldsa_verifier_from_bytes vk_bytes =
     (if length vk_bytes \<noteq> 1952 then Inl PqcWrongLength else Inr \<lparr>verifier_key = vk_bytes\<rparr>)"

definition pqc_verify ::
  "'z SigLib_scheme \<Rightarrow> SoftwareMlDsa65Verifier \<Rightarrow> bytes \<Rightarrow> bytes \<Rightarrow> PqcVerifyError + unit" where
  "pqc_verify lib v msg sg =
     (if length sg \<noteq> 3309 then Inl PqcWrongLength
      else if \<not> mldsa_sig_decodes lib sg then Inl PqcMismatch
      else if mldsa_verify lib (verifier_key v) msg sg then Inr () else Inl PqcMismatch)"

section \<open>The signing class\<close>

record HybridSignature =
  hyb_ed25519 :: bytes
  hyb_pqc :: bytes

datatype SignatureClass =
    SigNone
  | SigEd25519 (signing_key: bytes) (sig_verifying_key: bytes)
  | SigHybrid (ed25519_signing_key: bytes) (ed25519_verifying_key: bytes) (pqc_signer: SoftwareMlDsa65Signer)

definition WAL_SIG_DOMAIN :: bytes where
  "WAL_SIG_DOMAIN = bytes_of_string ''arkhe-kernel v0.14 WAL record signature domain''"

definition domain_separated :: "bytes \<Rightarrow> bytes" where
  "domain_separated body_bytes = WAL_SIG_DOMAIN @ body_bytes"

definition new_ed25519_from_secret :: "'z SigLib_scheme \<Rightarrow> bytes \<Rightarrow> SignatureClass" where
  "new_ed25519_from_secret lib secret = SigEd25519 secret (ed25519_public lib secret)"

definition new_hybrid_from_secrets :: "'z SigLib_scheme \<Rightarrow> bytes \<Rightarrow> bytes \<Rightarrow> SignatureClass" where
  "new_hybrid_from_secrets lib ed25519_secret ml_dsa_seed =
     SigHybrid ed25519_secret (ed25519_public lib ed25519_secret) (mldsa_from_seed lib ml_dsa_seed)"

fun verifying_key_bytes :: "SignatureClass \<Rightarrow> bytes option" where
  "verifying_key_bytes SigNone = None"
| "verifying_key_bytes (SigEd25519 _ vk) = Some vk"
| "verifying_key_bytes (SigHybrid _ vk _) = Some vk"

fun verifying_key_pqc_bytes :: "SignatureClass \<Rightarrow> bytes option" where
  "verifying_key_pqc_bytes SigNone = None"
| "verifying_key_pqc_bytes (SigEd25519 _ _) = None"
| "verifying_key_pqc_bytes (SigHybrid _ _ s) = Some (pqc_verifying_key_bytes s)"

fun sign :: "'z SigLib_scheme \<Rightarrow> SignatureClass \<Rightarrow> bytes \<Rightarrow> bytes option" where
  "sign lib SigNone body_bytes = None"
| "sign lib (SigEd25519 sk _) body_bytes = Some (ed25519_sign lib sk (domain_separated body_bytes))"
| "sign lib (SigHybrid sk _ _) body_bytes = Some (ed25519_sign lib sk (domain_separated body_bytes))"

fun sign_hybrid :: "'z SigLib_scheme \<Rightarrow> SignatureClass \<Rightarrow> bytes \<Rightarrow> HybridSignature option" where
  "sign_hybrid lib (SigHybrid sk _ s) body_bytes =
     (let msg = domain_separated body_bytes;
          ed = ed25519_sign lib sk msg
      in case pqc_sign lib s msg of
           Inl _ \<Rightarrow> None
         | Inr pqc \<Rightarrow> Some \<lparr>hyb_ed25519 = ed, hyb_pqc = pqc\<rparr>)"
| "sign_hybrid lib _ body_bytes = None"

section \<open>The verifier\<close>

datatype VerifierInitError = InvalidEd25519Key | InvalidPqcKey | InitPqcWithoutEd25519

datatype SignatureVerifyError = SigWrongLength | SigMismatch

datatype VerifierClass =
    VerNone
  | VerEd25519 bytes
  | VerHybrid bytes SoftwareMlDsa65Verifier

definition from_header_bytes ::
  "'z SigLib_scheme \<Rightarrow> bytes option \<Rightarrow> bytes option \<Rightarrow> VerifierInitError + VerifierClass" where
  "from_header_bytes lib vk_ed25519 vk_pqc =
     (case (vk_ed25519, vk_pqc) of
        (None, None) \<Rightarrow> Inr VerNone
      | (Some vk, None) \<Rightarrow>
          if ed25519_valid_key lib vk then Inr (VerEd25519 vk) else Inl InvalidEd25519Key
      | (Some vk, Some vk_p) \<Rightarrow>
          if \<not> ed25519_valid_key lib vk then Inl InvalidEd25519Key
          else (case mldsa_verifier_from_bytes vk_p of
                  Inl _ \<Rightarrow> Inl InvalidPqcKey
                | Inr pqc \<Rightarrow> Inr (VerHybrid vk pqc))
      | (None, Some _) \<Rightarrow> Inl InitPqcWithoutEd25519)"

definition verify_ed25519 ::
  "'z SigLib_scheme \<Rightarrow> bytes \<Rightarrow> bytes \<Rightarrow> bytes \<Rightarrow> SignatureVerifyError + unit" where
  "verify_ed25519 lib vk body_bytes sg =
     (if length sg \<noteq> 64 then Inl SigWrongLength
      else if ed25519_verify_strict lib vk (domain_separated body_bytes) sg then Inr ()
      else Inl SigMismatch)"

text \<open>The \<open>unreachable!\<close> arms are panics.\<close>

fun verify :: "'z SigLib_scheme \<Rightarrow> VerifierClass \<Rightarrow> bytes \<Rightarrow> bytes \<Rightarrow> (SignatureVerifyError + unit) outcome" where
  "verify lib VerNone body_bytes sg = Panic"
| "verify lib (VerEd25519 vk) body_bytes sg = Done (verify_ed25519 lib vk body_bytes sg)"
| "verify lib (VerHybrid vk _) body_bytes sg = Done (verify_ed25519 lib vk body_bytes sg)"

fun verify_hybrid ::
  "'z SigLib_scheme \<Rightarrow> VerifierClass \<Rightarrow> bytes \<Rightarrow> bytes \<Rightarrow> bytes \<Rightarrow> (SignatureVerifyError + unit) outcome" where
  "verify_hybrid lib (VerHybrid vk pqc) body_bytes sg sig_pqc =
     Done (case verify_ed25519 lib vk body_bytes sg of
             Inl e \<Rightarrow> Inl e
           | Inr _ \<Rightarrow> (case pqc_verify lib pqc (domain_separated body_bytes) sig_pqc of
                         Inl _ \<Rightarrow> Inl SigMismatch | Inr _ \<Rightarrow> Inr ()))"
| "verify_hybrid lib _ body_bytes sg sig_pqc = Panic"

section \<open>What the libraries promise\<close>

text \<open>
  RFC 8032 and FIPS 204, as the crates document them: derived keys parse and have the fixed
  encoded length, a fresh signature has the fixed length and verifies under the matching key,
  and deterministic ML-DSA signing succeeds.
\<close>

definition ed25519_laws :: "'z SigLib_scheme \<Rightarrow> bool" where
  "ed25519_laws lib \<longleftrightarrow>
     (\<forall>sk. ed25519_valid_key lib (ed25519_public lib sk)) \<and>
     (\<forall>sk msg. length (ed25519_sign lib sk msg) = 64) \<and>
     (\<forall>sk msg. ed25519_verify_strict lib (ed25519_public lib sk) msg (ed25519_sign lib sk msg))"

definition mldsa_laws :: "'z SigLib_scheme \<Rightarrow> bool" where
  "mldsa_laws lib \<longleftrightarrow>
     (\<forall>sk. length (mldsa_public lib sk) = 1952) \<and>
     (\<forall>sk msg. \<exists>sg. mldsa_try_sign lib sk msg = Inr sg \<and> length sg = 3309 \<and> mldsa_sig_decodes lib sg \<and>
        mldsa_verify lib (mldsa_public lib sk) msg sg)"

text \<open>A class as the two constructors build it: its verifying keys belong to its signing keys.\<close>

fun class_keys_match :: "'z SigLib_scheme \<Rightarrow> SignatureClass \<Rightarrow> bool" where
  "class_keys_match lib SigNone = True"
| "class_keys_match lib (SigEd25519 sk vk) = (vk = ed25519_public lib sk)"
| "class_keys_match lib (SigHybrid sk vk s) =
     (vk = ed25519_public lib sk \<and> verifying_key_cache s = mldsa_public lib (signer_seed s))"

lemma class_constructors_match [simp]:
  "class_keys_match lib (new_ed25519_from_secret lib secret)"
  "class_keys_match lib (new_hybrid_from_secrets lib secret seed)"
  by (simp_all add: new_ed25519_from_secret_def new_hybrid_from_secrets_def mldsa_from_seed_def)

lemma ed25519_roundtrip:
  assumes "ed25519_laws lib"
  shows "verify_ed25519 lib (ed25519_public lib sk) body (ed25519_sign lib sk (domain_separated body)) = Inr ()"
  using assms by (simp add: ed25519_laws_def verify_ed25519_def)

lemma header_verifier:
  assumes "ed25519_laws lib" and "mldsa_laws lib" and "class_keys_match lib c"
  shows "from_header_bytes lib (verifying_key_bytes c) (verifying_key_pqc_bytes c) =
    Inr (case c of SigNone \<Rightarrow> VerNone
         | SigEd25519 _ vk \<Rightarrow> VerEd25519 vk
         | SigHybrid _ vk s \<Rightarrow> VerHybrid vk \<lparr>verifier_key = verifying_key_cache s\<rparr>)"
  using assms
  by (cases c) (auto simp: from_header_bytes_def ed25519_laws_def mldsa_laws_def
      mldsa_verifier_from_bytes_def pqc_verifying_key_bytes_def)

lemma hybrid_roundtrip:
  assumes "ed25519_laws lib" and "mldsa_laws lib" and "class_keys_match lib (SigHybrid sk vk s)"
  shows "\<exists>h. sign_hybrid lib (SigHybrid sk vk s) body = Some h \<and>
    verify_hybrid lib (VerHybrid vk \<lparr>verifier_key = verifying_key_cache s\<rparr>) body (hyb_ed25519 h) (hyb_pqc h) =
      Done (Inr ())"
proof -
  from assms(2) obtain sg where sg: "mldsa_try_sign lib (signer_seed s) (domain_separated body) = Inr sg"
      "length sg = 3309" "mldsa_sig_decodes lib sg"
      "mldsa_verify lib (mldsa_public lib (signer_seed s)) (domain_separated body) sg"
    unfolding mldsa_laws_def by blast
  then show ?thesis
    using assms(3) ed25519_roundtrip [OF assms(1), of sk body]
    by (simp add: pqc_sign_def pqc_verify_def)
qed

text \<open>Distinct bodies are signed as distinct messages.\<close>

lemma domain_separated_inj: "domain_separated a = domain_separated b \<longleftrightarrow> a = b"
  by (simp add: domain_separated_def)

end
