(* ===== verification/Wal.thy ===== *)
theory Wal
  imports Signature Scheduler
begin

text \<open>
  The write-ahead log (\<open>persist/wal.rs\<close>): header, record contents, the BLAKE3-keyed hash chain,
  the append-only writer, plain and anchored verification. The postcard encoders and BLAKE3 are
  the fields of \<open>WalLib\<close>. The locale \<open>hash_chain\<close> says what the chain gives: a tip determines the
  whole list of contents, or the hash is broken.
\<close>

section \<open>Header\<close>

record TypeRegistryPin =
  pin_type_code :: TypeCode
  pin_schema_hash :: bytes

record WalHeader =
  magic :: bytes
  kernel_semver :: "u16 \<times> u16 \<times> u16"
  postcard_version :: u32
  blake3_version :: u32
  domain_separation_context :: bytes
  world_id :: bytes
  abi_version :: "u16 \<times> u16"
  manifest_digest :: bytes
  type_registry_pins :: "TypeRegistryPin list"
  verifying_key :: "bytes option"
  verifying_key_pqc :: "bytes option"

definition MAGIC :: bytes where "MAGIC = bytes_of_string ''ARKHEWAL''"
definition CURRENT_KERNEL_SEMVER :: "u16 \<times> u16 \<times> u16" where "CURRENT_KERNEL_SEMVER = (0, 15, 0)"
definition ABI_VERSION :: "u16 \<times> u16" where "ABI_VERSION = (0, 15)"
definition POSTCARD_MAJOR :: u32 where "POSTCARD_MAJOR = 1"
definition BLAKE3_MAJOR :: u32 where "BLAKE3_MAJOR = 1"
definition DOMAIN_CTX :: bytes where
  "DOMAIN_CTX = bytes_of_string ''arkhe-kernel v0.15 WAL chain domain separation context''"

section \<open>Records\<close>

datatype WalRecordKind = KindSubmit | KindStep

datatype SkipReason = Unregistered | DeserFailed

datatype StepVerdict = Committed | AuthDenied | BudgetPartial u32 | Skipped SkipReason

datatype WalRecordContent =
    Submit (submit_seq: u64) (submit_instance: InstanceId) (submit_principal: Principal)
      (submit_actor: "EntityId option") (caps_at_submit: u64) (submit_at: Tick)
      (submit_type_code: TypeCode) (submit_bytes: bytes) (allocated_id: ScheduledActionId)
  | Step (step_seq: u64) (step_instance: InstanceId) (step_popped_id: ScheduledActionId)
      (step_now: Tick) (session_caps: u64) (step_verdict: StepVerdict) (post_state_digest: bytes)

record WalRecord =
  content :: WalRecordContent
  prev_chain_hash :: bytes
  this_chain_hash :: bytes
  signature :: "bytes option"
  signature_pqc :: "bytes option"

fun content_seq :: "WalRecordContent \<Rightarrow> u64" where
  "content_seq (Submit seq _ _ _ _ _ _ _ _) = seq"
| "content_seq (Step seq _ _ _ _ _ _) = seq"

definition record_seq :: "WalRecord \<Rightarrow> u64" where
  "record_seq rec = content_seq (content rec)"

definition record_kind :: "WalRecord \<Rightarrow> WalRecordKind" where
  "record_kind rec = (case content rec of Submit _ _ _ _ _ _ _ _ _ \<Rightarrow> KindSubmit | Step _ _ _ _ _ _ _ \<Rightarrow> KindStep)"

text \<open>The borrowed body view that is encoded, hashed and signed.\<close>

datatype WalRecordBodyContent =
    BodySubmit u64 InstanceId Principal "EntityId option" u64 Tick TypeCode bytes ScheduledActionId
  | BodyStep u64 InstanceId ScheduledActionId Tick u64 StepVerdict bytes

record WalRecordBody =
  body_content :: WalRecordBodyContent
  body_prev_chain_hash :: bytes

definition from_content :: "WalRecordContent \<Rightarrow> bytes \<Rightarrow> WalRecordBody" where
  "from_content c prev =
     \<lparr>body_content = (case c of
        Submit seq inst prin actor caps at tc bs aid \<Rightarrow> BodySubmit seq inst prin actor caps at tc bs aid
      | Step seq inst pid now caps v d \<Rightarrow> BodyStep seq inst pid now caps v d),
      body_prev_chain_hash = prev\<rparr>"

definition from_record :: "WalRecord \<Rightarrow> bytes \<Rightarrow> WalRecordBody" where
  "from_record rec prev = from_content (content rec) prev"

record Wal =
  header :: WalHeader
  records :: "WalRecord list"

datatype WalError =
    SerializeFailed string
  | DeserializeFailed string
  | ChainBroken nat
  | HashMismatch nat
  | HeaderIncompatible string
  | InvalidVerifyingKey
  | MissingSignature nat
  | SignatureMismatch nat
  | MissingPqcSignature nat
  | PqcSignatureMismatch nat
  | PqcWithoutEd25519
  | TierDowngrade
  | VerifyingKeyMismatch
  | ManifestDigestMismatch
  | ChainTipMismatch

text \<open>Keyed BLAKE3 over the concatenation of what the hasher is fed, and the postcard encoders.\<close>

record WalLib = SigLib +
  blake3_keyed :: "bytes \<Rightarrow> bytes \<Rightarrow> bytes"
  blake3_derive_key :: "bytes \<Rightarrow> bytes \<Rightarrow> bytes"
  postcard_body :: "WalRecordBody \<Rightarrow> string + bytes"
  postcard_wal :: "Wal \<Rightarrow> string + bytes"
  postcard_wal_from :: "bytes \<Rightarrow> string + Wal"

section \<open>The writer\<close>

record WalWriter =
  w_header :: WalHeader
  w_records :: "WalRecord list"
  w_next_seq :: u64
  w_prev_hash :: bytes
  w_chain_key :: bytes
  w_sig_class :: SignatureClass

definition build_chain_key :: "'z WalLib_scheme \<Rightarrow> bytes \<Rightarrow> bytes" where
  "build_chain_key lib wid = blake3_derive_key lib DOMAIN_CTX wid"

definition build_dsc :: bytes where
  "build_dsc = DOMAIN_CTX"

definition with_signature :: "'z WalLib_scheme \<Rightarrow> bytes \<Rightarrow> bytes \<Rightarrow> SignatureClass \<Rightarrow> WalWriter" where
  "with_signature lib wid mdigest sig_class =
     (let key = build_chain_key lib wid;
          hdr = \<lparr>magic = MAGIC, kernel_semver = CURRENT_KERNEL_SEMVER, postcard_version = POSTCARD_MAJOR,
                blake3_version = BLAKE3_MAJOR, domain_separation_context = build_dsc, world_id = wid,
                abi_version = ABI_VERSION, manifest_digest = mdigest, type_registry_pins = [],
                verifying_key = verifying_key_bytes sig_class,
                verifying_key_pqc = verifying_key_pqc_bytes sig_class\<rparr>
      in \<lparr>w_header = hdr, w_records = [], w_next_seq = 0, w_prev_hash = zero32, w_chain_key = key,
          w_sig_class = sig_class\<rparr>)"

definition WalWriter_new :: "'z WalLib_scheme \<Rightarrow> bytes \<Rightarrow> bytes \<Rightarrow> WalWriter" where
  "WalWriter_new lib wid mdigest = with_signature lib wid mdigest SigNone"

definition rebuild_from_header :: "'z WalLib_scheme \<Rightarrow> WalHeader \<Rightarrow> WalWriter" where
  "rebuild_from_header lib hdr =
     \<lparr>w_header = hdr, w_records = [], w_next_seq = 0, w_prev_hash = zero32,
      w_chain_key = build_chain_key lib (world_id hdr), w_sig_class = SigNone\<rparr>"

definition seal :: "'z WalLib_scheme \<Rightarrow> WalWriter \<Rightarrow> WalRecordBody
    \<Rightarrow> WalError + (bytes \<times> bytes option \<times> bytes option)" where
  "seal lib w body =
     (case postcard_body lib body of
        Inl e \<Rightarrow> Inl (SerializeFailed e)
      | Inr body_bytes \<Rightarrow>
          let this_hash = blake3_keyed lib (w_chain_key w) (w_prev_hash w @ body_bytes);
              (sg, sg_pqc) = (case sign_hybrid lib (w_sig_class w) body_bytes of
                 Some hyb \<Rightarrow> (Some (hyb_ed25519 hyb), Some (hyb_pqc hyb))
               | None \<Rightarrow> (sign lib (w_sig_class w) body_bytes, None))
          in Inr (this_hash, sg, sg_pqc))"

definition push_sealed :: "'z WalLib_scheme \<Rightarrow> WalRecordContent \<Rightarrow> WalWriter \<Rightarrow> (WalError + WalRecord) \<times> WalWriter" where
  "push_sealed lib c w =
     (let prev = w_prev_hash w
      in case seal lib w (from_content c prev) of
           Inl e \<Rightarrow> (Inl e, w)
         | Inr (this_hash, sg, sg_pqc) \<Rightarrow>
             let rec = \<lparr>content = c, prev_chain_hash = prev, this_chain_hash = this_hash,
                        signature = sg, signature_pqc = sg_pqc\<rparr>
             in (Inr rec, w\<lparr>w_records := w_records w @ [rec], w_prev_hash := this_hash\<rparr>))"

definition append_submit ::
  "'z WalLib_scheme \<Rightarrow> InstanceId \<Rightarrow> Principal \<Rightarrow> EntityId option \<Rightarrow> u64 \<Rightarrow> Tick \<Rightarrow> TypeCode \<Rightarrow> bytes
    \<Rightarrow> ScheduledActionId \<Rightarrow> WalWriter \<Rightarrow> (WalError + WalRecord) \<times> WalWriter" where
  "append_submit lib inst prin actor caps at tc bs aid w =
     (let seq = saturating_add (w_next_seq w) 1;
          w' = w\<lparr>w_next_seq := seq\<rparr>
      in push_sealed lib (Submit seq inst prin actor caps at tc bs aid) w')"

definition append_step ::
  "'z WalLib_scheme \<Rightarrow> InstanceId \<Rightarrow> ScheduledActionId \<Rightarrow> Tick \<Rightarrow> u64 \<Rightarrow> StepVerdict \<Rightarrow> bytes
    \<Rightarrow> WalWriter \<Rightarrow> (WalError + WalRecord) \<times> WalWriter" where
  "append_step lib inst pid now caps verdict digest w =
     (let seq = saturating_add (w_next_seq w) 1;
          w' = w\<lparr>w_next_seq := seq\<rparr>
      in push_sealed lib (Step seq inst pid now caps verdict digest) w')"

definition writer_chain_tip :: "WalWriter \<Rightarrow> bytes" where
  "writer_chain_tip w = w_prev_hash w"

definition record_count :: "WalWriter \<Rightarrow> nat" where
  "record_count w = length (w_records w)"

section \<open>The sealed log and its verification\<close>

definition from_writer :: "WalWriter \<Rightarrow> Wal" where
  "from_writer w = \<lparr>header = w_header w, records = w_records w\<rparr>"

definition serialize :: "'z WalLib_scheme \<Rightarrow> Wal \<Rightarrow> WalError + bytes" where
  "serialize lib wal = (case postcard_wal lib wal of Inl e \<Rightarrow> Inl (SerializeFailed e) | Inr bs \<Rightarrow> Inr bs)"

definition deserialize :: "'z WalLib_scheme \<Rightarrow> bytes \<Rightarrow> WalError + Wal" where
  "deserialize lib bs = (case postcard_wal_from lib bs of Inl e \<Rightarrow> Inl (DeserializeFailed e) | Inr w \<Rightarrow> Inr w)"

definition chain_tip :: "Wal \<Rightarrow> bytes" where
  "chain_tip wal = (if records wal = [] then zero32 else this_chain_hash (last (records wal)))"

definition map_init_error :: "VerifierInitError \<Rightarrow> WalError" where
  "map_init_error e = (case e of InvalidEd25519Key \<Rightarrow> InvalidVerifyingKey
      | InvalidPqcKey \<Rightarrow> InvalidVerifyingKey | InitPqcWithoutEd25519 \<Rightarrow> PqcWithoutEd25519)"

text \<open>The signature arm of the verification loop, for record number \<open>i\<close>.\<close>

definition check_signature ::
  "'z WalLib_scheme \<Rightarrow> VerifierClass \<Rightarrow> nat \<Rightarrow> WalRecord \<Rightarrow> bytes \<Rightarrow> (WalError + unit) outcome" where
  "check_signature lib verifier i rec body_bytes =
     (case verifier of
        VerNone \<Rightarrow> Done (Inr ())
      | VerEd25519 _ \<Rightarrow>
          (case signature rec of None \<Rightarrow> Done (Inl (MissingSignature i))
           | Some sg \<Rightarrow> obind (verify lib verifier body_bytes sg) (\<lambda>r.
               Done (case r of Inl _ \<Rightarrow> Inl (SignatureMismatch i) | Inr _ \<Rightarrow> Inr ())))
      | VerHybrid _ _ \<Rightarrow>
          (case signature rec of None \<Rightarrow> Done (Inl (MissingSignature i))
           | Some sg \<Rightarrow>
               (case signature_pqc rec of None \<Rightarrow> Done (Inl (MissingPqcSignature i))
                | Some sg_pqc \<Rightarrow> obind (verify_hybrid lib verifier body_bytes sg sg_pqc) (\<lambda>r.
                    Done (case r of Inl _ \<Rightarrow> Inl (PqcSignatureMismatch i) | Inr _ \<Rightarrow> Inr ())))))"

text \<open>The verification loop; \<open>i\<close> is the index of the record at the head of the list.\<close>

fun verify_records ::
  "'z WalLib_scheme \<Rightarrow> bytes \<Rightarrow> VerifierClass \<Rightarrow> nat \<Rightarrow> bytes \<Rightarrow> WalRecord list \<Rightarrow> (WalError + unit) outcome" where
  "verify_records lib key verifier i prev [] = Done (Inr ())"
| "verify_records lib key verifier i prev (rec # recs) =
     (if prev_chain_hash rec \<noteq> prev then Done (Inl (ChainBroken i))
      else case postcard_body lib (from_record rec prev) of
        Inl e \<Rightarrow> Done (Inl (SerializeFailed e))
      | Inr body_bytes \<Rightarrow>
          (let computed = blake3_keyed lib key (prev @ body_bytes)
           in if computed \<noteq> this_chain_hash rec then Done (Inl (HashMismatch i))
              else obind (check_signature lib verifier i rec body_bytes) (\<lambda>r.
                case r of Inl e \<Rightarrow> Done (Inl e)
                | Inr _ \<Rightarrow> verify_records lib key verifier (Suc i) computed recs)))"

definition verify_chain :: "'z WalLib_scheme \<Rightarrow> bytes \<Rightarrow> Wal \<Rightarrow> (WalError + unit) outcome" where
  "verify_chain lib wid wal =
     (let key = build_chain_key lib wid
      in case from_header_bytes lib (verifying_key (header wal)) (verifying_key_pqc (header wal)) of
           Inl e \<Rightarrow> Done (Inl (map_init_error e))
         | Inr verifier \<Rightarrow> verify_records lib key verifier 0 zero32 (records wal))"

subsection \<open>Anchored verification\<close>

datatype SignatureTier = TierNone | TierEd25519 | TierHybrid

instantiation SignatureTier :: linorder
begin
fun tier_rank :: "SignatureTier \<Rightarrow> nat" where
  "tier_rank TierNone = 0" | "tier_rank TierEd25519 = 1" | "tier_rank TierHybrid = 2"
definition less_eq_SignatureTier :: "SignatureTier \<Rightarrow> SignatureTier \<Rightarrow> bool" where
  "less_eq_SignatureTier a b = (tier_rank a \<le> tier_rank b)"
definition less_SignatureTier :: "SignatureTier \<Rightarrow> SignatureTier \<Rightarrow> bool" where
  "less_SignatureTier a b = (tier_rank a < tier_rank b)"
instance
proof
  fix a b :: SignatureTier
  show "a \<le> b \<Longrightarrow> b \<le> a \<Longrightarrow> a = b"
    by (cases a; cases b) (simp_all add: less_eq_SignatureTier_def)
qed (auto simp: less_eq_SignatureTier_def less_SignatureTier_def)
end

record TrustAnchor =
  min_tier :: "SignatureTier option"
  anchor_ed25519_key :: "bytes option"
  anchor_mldsa_key :: "bytes option"
  expected_manifest_digest :: "bytes option"
  expected_chain_tip :: "bytes option"

definition header_tier :: "Wal \<Rightarrow> WalError + SignatureTier" where
  "header_tier wal =
     (case (verifying_key (header wal) \<noteq> None, verifying_key_pqc (header wal) \<noteq> None) of
        (False, False) \<Rightarrow> Inr TierNone
      | (True, False) \<Rightarrow> Inr TierEd25519
      | (True, True) \<Rightarrow> Inr TierHybrid
      | (False, True) \<Rightarrow> Inl PqcWithoutEd25519)"

text \<open>An unset anchor field imposes no check.\<close>

definition pinned :: "'a option \<Rightarrow> 'a option \<Rightarrow> bool" where
  "pinned expected actual = (case expected of None \<Rightarrow> True | Some e \<Rightarrow> actual = Some e)"

definition verify_chain_anchored :: "'z WalLib_scheme \<Rightarrow> bytes \<Rightarrow> TrustAnchor \<Rightarrow> Wal \<Rightarrow> (WalError + unit) outcome" where
  "verify_chain_anchored lib wid anchor wal =
     (case header_tier wal of
        Inl e \<Rightarrow> Done (Inl e)
      | Inr tier \<Rightarrow>
          if (case min_tier anchor of None \<Rightarrow> False | Some fl \<Rightarrow> tier < fl) then Done (Inl TierDowngrade)
          else if \<not> pinned (anchor_ed25519_key anchor) (verifying_key (header wal)) then Done (Inl VerifyingKeyMismatch)
          else if \<not> pinned (anchor_mldsa_key anchor) (verifying_key_pqc (header wal)) then Done (Inl VerifyingKeyMismatch)
          else if \<not> pinned (expected_manifest_digest anchor) (Some (manifest_digest (header wal)))
               then Done (Inl ManifestDigestMismatch)
          else obind (verify_chain lib wid wal) (\<lambda>r.
            case r of Inl e \<Rightarrow> Done (Inl e)
            | Inr _ \<Rightarrow> if \<not> pinned (expected_chain_tip anchor) (Some (chain_tip wal))
                       then Done (Inl ChainTipMismatch) else Done (Inr ())))"

section \<open>The hash chain\<close>

text \<open>One link of the chain: what a content hashes to behind \<open>prev\<close>, if it can be encoded.\<close>

definition chain_link :: "'z WalLib_scheme \<Rightarrow> bytes \<Rightarrow> bytes \<Rightarrow> WalRecordContent \<Rightarrow> bytes option" where
  "chain_link lib key prev c =
     (case postcard_body lib (from_content c prev) of
        Inl _ \<Rightarrow> None | Inr body_bytes \<Rightarrow> Some (blake3_keyed lib key (prev @ body_bytes)))"

fun run_chain :: "('h \<Rightarrow> 'c \<Rightarrow> 'h option) \<Rightarrow> 'h \<Rightarrow> 'c list \<Rightarrow> 'h option" where
  "run_chain link h [] = Some h"
| "run_chain link h (c # cs) = Option.bind (link h c) (\<lambda>h'. run_chain link h' cs)"

lemma run_chain_append:
  "run_chain link h (cs @ ds) = Option.bind (run_chain link h cs) (\<lambda>h'. run_chain link h' ds)"
  by (induction cs arbitrary: h) (auto split: bind_split)

text \<open>The values a chain can reach: its root and the results of links.\<close>

definition on_chain :: "('h \<Rightarrow> 'c \<Rightarrow> 'h option) \<Rightarrow> 'h \<Rightarrow> 'h \<Rightarrow> bool" where
  "on_chain link root h \<longleftrightarrow> h = root \<or> (\<exists>g d. link g d = Some h)"

lemma run_chain_on_chain: "run_chain link root cs = Some t \<Longrightarrow> on_chain link root t"
  by (cases cs rule: rev_cases) (auto simp: on_chain_def run_chain_append split: bind_splits)

text \<open>The links a chain goes through.\<close>

fun visited :: "('h \<Rightarrow> 'c \<Rightarrow> 'h option) \<Rightarrow> 'h \<Rightarrow> 'c list \<Rightarrow> ('h \<times> 'c) set" where
  "visited link h [] = {}"
| "visited link h (c # cs) = insert (h, c) (case link h c of None \<Rightarrow> {} | Some h' \<Rightarrow> visited link h' cs)"

lemma visited_snoc:
  "run_chain link h cs = Some t \<Longrightarrow> visited link h (cs @ [c]) = insert (t, c) (visited link h cs)"
  by (induction cs arbitrary: h) (auto split: option.splits bind_splits)

text \<open>
  The contract of a hash chain. \<open>broken S\<close> says that the hash fails on the links in \<open>S\<close>; on links
  where it does not, a result determines what it was computed from, and is never the root. The
  set matters: a hash with 32-byte digests has collisions somewhere, and the question is whether
  the two chains at hand exhibit one.
\<close>

locale hash_chain =
  fixes link :: "'h \<Rightarrow> 'c \<Rightarrow> 'h option" and root :: 'h and broken :: "('h \<times> 'c) set \<Rightarrow> bool"
  assumes link_inj: "\<not> broken S \<Longrightarrow> (h, c) \<in> S \<Longrightarrow> (h', c') \<in> S \<Longrightarrow> on_chain link root h \<Longrightarrow> on_chain link root h' \<Longrightarrow>
      link h c = Some t \<Longrightarrow> link h' c' = Some t \<Longrightarrow> h = h' \<and> c = c'"
    and link_root: "\<not> broken S \<Longrightarrow> (h, c) \<in> S \<Longrightarrow> link h c \<noteq> Some root"
begin

lemma tip_determines:
  assumes "\<not> broken S" and "run_chain link root xs = Some t" and "run_chain link root ys = Some t"
    and "visited link root xs \<subseteq> S" and "visited link root ys \<subseteq> S"
  shows "xs = ys"
  using assms(2-)
proof (induction xs arbitrary: ys t rule: rev_induct)
  case Nil
  show ?case
  proof (cases ys rule: rev_cases)
    case (snoc ys' y)
    with Nil obtain h where h: "run_chain link root ys' = Some h" "link h y = Some root"
      by (auto simp: run_chain_append split: bind_splits)
    with Nil snoc visited_snoc [OF h(1)] have "(h, y) \<in> S" by auto
    with link_root [OF assms(1)] h(2) show ?thesis by blast
  qed simp
next
  case (snoc x xs)
  from snoc.prems(1) obtain h where h: "run_chain link root xs = Some h" "link h x = Some t"
    by (auto simp: run_chain_append split: bind_splits)
  with snoc.prems(3) visited_snoc [OF h(1)] have S: "(h, x) \<in> S" "visited link root xs \<subseteq> S" by auto
  show ?case
  proof (cases ys rule: rev_cases)
    case Nil
    with snoc.prems(2) h(2) link_root [OF assms(1) S(1)] show ?thesis by simp
  next
    case (snoc ys' y)
    with snoc.prems(2) obtain h' where h': "run_chain link root ys' = Some h'" "link h' y = Some t"
      by (auto simp: run_chain_append split: bind_splits)
    with snoc.prems(4) snoc visited_snoc [OF h'(1)] have S': "(h', y) \<in> S" "visited link root ys' \<subseteq> S" by auto
    have "h = h' \<and> x = y"
      by (rule link_inj [OF assms(1) S(1) S'(1) run_chain_on_chain [OF h(1)] run_chain_on_chain [OF h'(1)] h(2) h'(2)])
    with snoc.IH [OF h(1) _ S(2) S'(2)] h'(1) snoc show ?thesis by simp
  qed
qed

end

text \<open>
  What breaks the log's chain on a set of links: two different hashed inputs among them with the
  same keyed digest, two different bodies with the same encoding, or an input that hashes to the
  all-zero root.
\<close>

definition link_clash :: "'z WalLib_scheme \<Rightarrow> bytes \<Rightarrow> (bytes \<times> WalRecordContent) set \<Rightarrow> bool" where
  "link_clash lib key S \<longleftrightarrow>
     (\<exists>(h, c)\<in>S. \<exists>(h', c')\<in>S. \<exists>b b'.
        postcard_body lib (from_content c h) = Inr b \<and> postcard_body lib (from_content c' h') = Inr b' \<and>
        (h @ b \<noteq> h' @ b' \<and> blake3_keyed lib key (h @ b) = blake3_keyed lib key (h' @ b') \<or>
         b = b' \<and> from_content c h \<noteq> from_content c' h'))"

definition zero_link :: "'z WalLib_scheme \<Rightarrow> bytes \<Rightarrow> (bytes \<times> WalRecordContent) set \<Rightarrow> bool" where
  "zero_link lib key S \<longleftrightarrow> (\<exists>(h, c)\<in>S. chain_link lib key h c = Some zero32)"

definition digest32 :: "'z WalLib_scheme \<Rightarrow> bytes \<Rightarrow> bool" where
  "digest32 lib key \<longleftrightarrow> (\<forall>x. length (blake3_keyed lib key x) = 32)"

definition chain_broken :: "'z WalLib_scheme \<Rightarrow> bytes \<Rightarrow> (bytes \<times> WalRecordContent) set \<Rightarrow> bool" where
  "chain_broken lib key S \<longleftrightarrow> link_clash lib key S \<or> zero_link lib key S \<or> \<not> digest32 lib key"

lemma from_content_inj: "from_content c p = from_content c' p' \<longleftrightarrow> c = c' \<and> p = p'"
  by (cases c; cases c') (auto simp: from_content_def)

lemma chain_link_length:
  "digest32 lib key \<Longrightarrow> chain_link lib key h c = Some t \<Longrightarrow> length t = 32"
  by (auto simp: chain_link_def digest32_def split: sum.splits)

lemma chain_link_inj:
  assumes "\<not> link_clash lib key S" and "(h, c) \<in> S" and "(h', c') \<in> S" and "length h = 32" and "length h' = 32"
    and "chain_link lib key h c = Some t" and "chain_link lib key h' c' = Some t"
  shows "h = h' \<and> c = c'"
proof -
  from assms(6,7) obtain b b' where
    b: "postcard_body lib (from_content c h) = Inr b" "t = blake3_keyed lib key (h @ b)" and
    b': "postcard_body lib (from_content c' h') = Inr b'" "t = blake3_keyed lib key (h' @ b')"
    by (auto simp: chain_link_def split: sum.splits)
  from assms(1) have no: "\<And>b b'. postcard_body lib (from_content c h) = Inr b \<Longrightarrow>
      postcard_body lib (from_content c' h') = Inr b' \<Longrightarrow>
      \<not> (h @ b \<noteq> h' @ b' \<and> blake3_keyed lib key (h @ b) = blake3_keyed lib key (h' @ b') \<or>
         b = b' \<and> from_content c h \<noteq> from_content c' h')"
    using assms(2,3) unfolding link_clash_def by blast
  from no [OF b(1) b'(1)] b(2) b'(2) have "h @ b = h' @ b'" by auto
  with assms(4,5) have "b = b'" by simp
  with no [OF b(1) b'(1)] have "from_content c h = from_content c' h'" by blast
  then show ?thesis by (simp add: from_content_inj)
qed

interpretation wal_chain: hash_chain "chain_link lib key" zero32 "chain_broken lib key" for lib key
proof
  fix S h h' c c' t
  assume ok: "\<not> chain_broken lib key S" and S: "(h, c) \<in> S" "(h', c') \<in> S"
    and h: "chain_link lib key h c = Some t" "chain_link lib key h' c' = Some t"
    and on: "on_chain (chain_link lib key) zero32 h" "on_chain (chain_link lib key) zero32 h'"
  have laws: "digest32 lib key" and ok': "\<not> link_clash lib key S" using ok by (simp_all add: chain_broken_def)
  have "length h = 32" "length h' = 32"
    using on chain_link_length [OF laws] length_zero32 unfolding on_chain_def by metis+
  then show "h = h' \<and> c = c'" by (rule chain_link_inj [OF ok' S _ _ h])
next
  fix S h c
  assume "\<not> chain_broken lib key S" and "(h, c) \<in> S"
  then show "chain_link lib key h c \<noteq> Some zero32"
    by (auto simp: chain_broken_def zero_link_def)
qed

section \<open>What verification establishes\<close>

fun linked :: "'z WalLib_scheme \<Rightarrow> bytes \<Rightarrow> bytes \<Rightarrow> WalRecord list \<Rightarrow> bool" where
  "linked lib key prev [] = True"
| "linked lib key prev (rec # recs) =
     (prev_chain_hash rec = prev \<and> chain_link lib key prev (content rec) = Some (this_chain_hash rec) \<and>
      linked lib key (this_chain_hash rec) recs)"

definition tip_of :: "bytes \<Rightarrow> WalRecord list \<Rightarrow> bytes" where
  "tip_of prev recs = (if recs = [] then prev else this_chain_hash (last recs))"

lemma tip_of_simps [simp]:
  "tip_of prev [] = prev" "tip_of prev (r # rs) = tip_of (this_chain_hash r) rs"
  "tip_of prev (rs @ [r]) = this_chain_hash r"
  by (simp_all add: tip_of_def)

lemma chain_tip_eq: "chain_tip wal = tip_of zero32 (records wal)"
  by (simp add: chain_tip_def tip_of_def)

lemma linked_append:
  "linked lib key prev (rs @ rs') \<longleftrightarrow> linked lib key prev rs \<and> linked lib key (tip_of prev rs) rs'"
  by (induction rs arbitrary: prev) simp_all

lemma linked_run_chain:
  "linked lib key prev recs \<Longrightarrow> run_chain (chain_link lib key) prev (map content recs) = Some (tip_of prev recs)"
  by (induction recs arbitrary: prev) simp_all

text \<open>The contents determine every hash of a linked list of records.\<close>

lemma linked_hashes:
  assumes "linked lib key prev rs" and "linked lib key prev rs'" and "map content rs = map content rs'"
  shows "map prev_chain_hash rs = map prev_chain_hash rs'" and "map this_chain_hash rs = map this_chain_hash rs'"
proof -
  have "map prev_chain_hash rs = map prev_chain_hash rs' \<and> map this_chain_hash rs = map this_chain_hash rs'"
    using assms
  proof (induction rs arbitrary: prev rs')
    case (Cons r rs)
    then obtain r' rs1 where rs': "rs' = r' # rs1" by (cases rs') auto
    with Cons.prems have "this_chain_hash r = this_chain_hash r'" by simp
    with Cons rs' show ?case by auto
  qed simp
  then show "map prev_chain_hash rs = map prev_chain_hash rs'" "map this_chain_hash rs = map this_chain_hash rs'"
    by simp_all
qed

definition sig_ok :: "'z WalLib_scheme \<Rightarrow> VerifierClass \<Rightarrow> WalRecord \<Rightarrow> bool" where
  "sig_ok lib verifier rec \<longleftrightarrow>
     (\<exists>body. postcard_body lib (from_record rec (prev_chain_hash rec)) = Inr body \<and>
        check_signature lib verifier 0 rec body = Done (Inr ()))"

lemma check_signature_Done: "check_signature lib v i rec body \<noteq> Panic"
  by (cases v) (auto simp: check_signature_def split: option.splits)

lemma check_signature_index:
  "check_signature lib v i rec body = Done (Inr ()) \<longleftrightarrow> check_signature lib v 0 rec body = Done (Inr ())"
  by (cases v) (auto simp: check_signature_def split: option.splits sum.splits)

lemma verify_records_Done: "verify_records lib key v i prev recs \<noteq> Panic"
  by (induction lib key v i prev recs rule: verify_records.induct)
    (auto simp: Let_def obind_eq_Panic check_signature_Done split: sum.splits)

lemma verify_records_iff:
  "verify_records lib key v i prev recs = Done (Inr ()) \<longleftrightarrow>
     linked lib key prev recs \<and> (\<forall>rec\<in>set recs. sig_ok lib v rec)"
proof (induction lib key v i prev recs rule: verify_records.induct)
  case (2 lib key v i prev rec recs)
  show ?case
  proof (cases "postcard_body lib (from_record rec prev)")
    case (Inl e)
    then show ?thesis by (simp add: chain_link_def from_record_def)
  next
    case (Inr b)
    have hash: "chain_link lib key prev (content rec) = Some (blake3_keyed lib key (prev @ b))"
      using Inr by (simp add: chain_link_def from_record_def)
    have sig: "prev_chain_hash rec = prev \<Longrightarrow>
        sig_ok lib v rec \<longleftrightarrow> check_signature lib v i rec b = Done (Inr ())"
      using Inr check_signature_index [of lib v i rec b] by (simp add: sig_ok_def)
    obtain r where r: "check_signature lib v i rec b = Done r"
      using check_signature_Done by (cases "check_signature lib v i rec b") blast+
    show ?thesis
    proof (cases "prev_chain_hash rec = prev \<and> blake3_keyed lib key (prev @ b) = this_chain_hash rec")
      case True
      with Inr hash r sig 2 show ?thesis by (cases r) (auto simp: Let_def)
    next
      case False
      with Inr hash show ?thesis by (auto simp: Let_def)
    qed
  qed
qed simp

lemma verify_chain_Done: "verify_chain lib wid wal \<noteq> Panic"
  by (simp add: verify_chain_def Let_def verify_records_Done split: sum.splits)

lemma verify_chain_iff:
  "verify_chain lib wid wal = Done (Inr ()) \<longleftrightarrow>
     (\<exists>v. from_header_bytes lib (verifying_key (header wal)) (verifying_key_pqc (header wal)) = Inr v \<and>
        linked lib (build_chain_key lib wid) zero32 (records wal) \<and> (\<forall>rec\<in>set (records wal). sig_ok lib v rec))"
  by (simp add: verify_chain_def Let_def verify_records_iff split: sum.splits)

section \<open>What the writer produces\<close>

definition writer_linked :: "'z WalLib_scheme \<Rightarrow> WalWriter \<Rightarrow> bool" where
  "writer_linked lib w \<longleftrightarrow>
     linked lib (w_chain_key w) zero32 (w_records w) \<and> w_prev_hash w = tip_of zero32 (w_records w)"

text \<open>An append either encodes, and extends the chain by one link, or leaves the records alone.\<close>

lemma push_sealed_cases:
  obtains (fail) e where "postcard_body lib (from_content c (w_prev_hash w)) = Inl e"
      "push_sealed lib c w = (Inl (SerializeFailed e), w)"
  | (ok) body rec where "postcard_body lib (from_content c (w_prev_hash w)) = Inr body"
      "content rec = c" "prev_chain_hash rec = w_prev_hash w"
      "this_chain_hash rec = blake3_keyed lib (w_chain_key w) (w_prev_hash w @ body)"
      "(signature rec, signature_pqc rec) = (case sign_hybrid lib (w_sig_class w) body of
           Some hyb \<Rightarrow> (Some (hyb_ed25519 hyb), Some (hyb_pqc hyb))
         | None \<Rightarrow> (sign lib (w_sig_class w) body, None))"
      "push_sealed lib c w = (Inr rec, w\<lparr>w_records := w_records w @ [rec], w_prev_hash := this_chain_hash rec\<rparr>)"
proof (cases "postcard_body lib (from_content c (w_prev_hash w))")
  case (Inl e)
  then show ?thesis by (intro fail) (simp_all add: push_sealed_def seal_def)
next
  case (Inr body)
  obtain sg sp where s: "(case sign_hybrid lib (w_sig_class w) body of
           Some hyb \<Rightarrow> (Some (hyb_ed25519 hyb), Some (hyb_pqc hyb))
         | None \<Rightarrow> (sign lib (w_sig_class w) body, None)) = (sg, sp)" by fastforce
  let ?r = "\<lparr>content = c, prev_chain_hash = w_prev_hash w,
     this_chain_hash = blake3_keyed lib (w_chain_key w) (w_prev_hash w @ body), signature = sg, signature_pqc = sp\<rparr>"
  show ?thesis
    by (rule ok [of body ?r]) (use Inr s in \<open>simp_all add: push_sealed_def seal_def Let_def\<close>)
qed

lemma push_sealed_linked: "writer_linked lib w \<Longrightarrow> writer_linked lib (snd (push_sealed lib c w))"
  by (rule push_sealed_cases [of lib c w])
    (auto simp: writer_linked_def linked_append chain_link_def)

text \<open>The verifier a reader rebuilds accepts each record a matching class has sealed.\<close>

lemma sealed_record_ok:
  assumes laws: "ed25519_laws lib" "mldsa_laws lib" and keys: "class_keys_match lib cls"
    and v: "from_header_bytes lib (verifying_key_bytes cls) (verifying_key_pqc_bytes cls) = Inr v"
    and body: "postcard_body lib (from_record rec (prev_chain_hash rec)) = Inr body"
    and sigs: "(signature rec, signature_pqc rec) = (case sign_hybrid lib cls body of
           Some hyb \<Rightarrow> (Some (hyb_ed25519 hyb), Some (hyb_pqc hyb))
         | None \<Rightarrow> (sign lib cls body, None))"
  shows "sig_ok lib v rec"
proof (cases cls)
  case SigNone
  with v body show ?thesis by (simp add: sig_ok_def from_header_bytes_def check_signature_def)
next
  case (SigEd25519 sk vk)
  with header_verifier [OF laws keys] v have "v = VerEd25519 vk" by simp
  moreover have "verify_ed25519 lib vk body (ed25519_sign lib sk (domain_separated body)) = Inr ()"
    using ed25519_roundtrip [OF laws(1)] keys SigEd25519 by simp
  ultimately show ?thesis using body sigs SigEd25519 by (simp add: sig_ok_def check_signature_def)
next
  case (SigHybrid sk vk s)
  with header_verifier [OF laws keys] v have v': "v = VerHybrid vk \<lparr>verifier_key = verifying_key_cache s\<rparr>" by simp
  obtain h where "sign_hybrid lib cls body = Some h" "verify_hybrid lib v body (hyb_ed25519 h) (hyb_pqc h) = Done (Inr ())"
    using hybrid_roundtrip [OF laws, of sk vk s body] keys unfolding SigHybrid v' by blast
  with body sigs v' show ?thesis by (simp add: sig_ok_def check_signature_def)
qed

text \<open>The writers a kernel can come to hold: fresh, or after an append.\<close>

inductive written :: "'z WalLib_scheme \<Rightarrow> bytes \<Rightarrow> bytes \<Rightarrow> SignatureClass \<Rightarrow> WalWriter \<Rightarrow> bool"
  for lib wid mdigest cls where
  fresh: "written lib wid mdigest cls (with_signature lib wid mdigest cls)"
| submit: "written lib wid mdigest cls w \<Longrightarrow>
    written lib wid mdigest cls (snd (append_submit lib inst prin actor caps at tc bs aid w))"
| step: "written lib wid mdigest cls w \<Longrightarrow>
    written lib wid mdigest cls (snd (append_step lib inst pid now caps verdict digest w))"

inductive_cases written_cases: "written lib wid mdigest cls w"

definition writer_inv :: "'z WalLib_scheme \<Rightarrow> bytes \<Rightarrow> bytes \<Rightarrow> SignatureClass \<Rightarrow> WalWriter \<Rightarrow> bool" where
  "writer_inv lib wid mdigest cls w \<longleftrightarrow>
     writer_linked lib w \<and> w_header w = w_header (with_signature lib wid mdigest cls) \<and>
     w_chain_key w = build_chain_key lib wid \<and> w_sig_class w = cls \<and>
     (ed25519_laws lib \<longrightarrow> mldsa_laws lib \<longrightarrow> class_keys_match lib cls \<longrightarrow>
        (\<forall>v. from_header_bytes lib (verifying_key_bytes cls) (verifying_key_pqc_bytes cls) = Inr v \<longrightarrow>
           (\<forall>rec\<in>set (w_records w). sig_ok lib v rec)))"

lemma push_sealed_inv:
  assumes "writer_inv lib wid mdigest cls w"
  shows "writer_inv lib wid mdigest cls (snd (push_sealed lib c w))"
proof (rule push_sealed_cases [of lib c w])
  fix e assume "push_sealed lib c w = (Inl (SerializeFailed e), w)"
  with assms show ?thesis by simp
next
  fix body rec
  assume b: "postcard_body lib (from_content c (w_prev_hash w)) = Inr body"
    and r: "content rec = c" "prev_chain_hash rec = w_prev_hash w"
    and s: "(signature rec, signature_pqc rec) = (case sign_hybrid lib (w_sig_class w) body of
           Some hyb \<Rightarrow> (Some (hyb_ed25519 hyb), Some (hyb_pqc hyb))
         | None \<Rightarrow> (sign lib (w_sig_class w) body, None))"
    and p: "push_sealed lib c w = (Inr rec, w\<lparr>w_records := w_records w @ [rec], w_prev_hash := this_chain_hash rec\<rparr>)"
  have cls: "w_sig_class w = cls" using assms by (simp add: writer_inv_def)
  have "sig_ok lib v rec" if "ed25519_laws lib" "mldsa_laws lib" "class_keys_match lib cls"
      "from_header_bytes lib (verifying_key_bytes cls) (verifying_key_pqc_bytes cls) = Inr v" for v
    by (rule sealed_record_ok [OF that, of rec body])
      (use b r s [unfolded cls] in \<open>simp_all add: from_record_def\<close>)
  then show ?thesis
    using assms push_sealed_linked [of lib w c] p by (simp add: writer_inv_def)
qed

lemma writer_inv_seq [simp]:
  "writer_inv lib wid mdigest cls (w\<lparr>w_next_seq := n\<rparr>) = writer_inv lib wid mdigest cls w"
  by (simp add: writer_inv_def writer_linked_def)

lemma append_inv:
  assumes "writer_inv lib wid mdigest cls w"
  shows "writer_inv lib wid mdigest cls (snd (append_submit lib inst prin actor caps at tc bs aid w))"
    and "writer_inv lib wid mdigest cls (snd (append_step lib inst pid now caps verdict digest w))"
  using assms by (simp_all add: append_submit_def append_step_def Let_def push_sealed_inv)

lemma writer_inv_fresh: "writer_inv lib wid mdigest cls (with_signature lib wid mdigest cls)"
  by (simp add: writer_inv_def writer_linked_def with_signature_def)

lemma written_inv: "written lib wid mdigest cls w \<Longrightarrow> writer_inv lib wid mdigest cls w"
  by (induction rule: written.induct) (simp_all add: writer_inv_fresh append_inv)

lemma writer_inv_verifies:
  assumes "writer_inv lib wid mdigest cls w" and "ed25519_laws lib" and "mldsa_laws lib" and "class_keys_match lib cls"
  shows "verify_chain lib wid (from_writer w) = Done (Inr ())"
  using assms header_verifier [OF assms(2-4)]
  by (auto simp: verify_chain_iff from_writer_def writer_inv_def writer_linked_def with_signature_def Let_def)

text \<open>The chain tip a push reaches does not depend on the signing class.\<close>

lemma push_sealed_tip:
  "w_prev_hash (snd (push_sealed lib c w)) =
     (case chain_link lib (w_chain_key w) (w_prev_hash w) c of None \<Rightarrow> w_prev_hash w | Some h \<Rightarrow> h)"
  by (rule push_sealed_cases [of lib c w]) (simp_all add: chain_link_def)

lemma push_sealed_frame [simp]:
  "w_header (snd (push_sealed lib c w)) = w_header w"
  "w_chain_key (snd (push_sealed lib c w)) = w_chain_key w"
  "w_sig_class (snd (push_sealed lib c w)) = w_sig_class w"
  "w_next_seq (snd (push_sealed lib c w)) = w_next_seq w"
  by (rule push_sealed_cases [of lib c w]; simp)+

lemma push_sealed_records:
  "\<exists>rs. w_records (snd (push_sealed lib c w)) = w_records w @ rs \<and> (\<forall>r\<in>set rs. content r = c) \<and> length rs \<le> 1"
  by (rule push_sealed_cases [of lib c w]) auto

text \<open>Sequence numbers grow from record to record as long as the counter has not saturated.\<close>

definition seqs_increase :: "WalWriter \<Rightarrow> bool" where
  "seqs_increase w \<longleftrightarrow> (w_next_seq w \<noteq> - 1 \<longrightarrow>
     sorted_wrt (<) (map record_seq (w_records w)) \<and> (\<forall>r\<in>set (w_records w). record_seq r \<le> w_next_seq w))"

lemma push_seqs:
  assumes "seqs_increase w" and "content_seq c = saturating_add (w_next_seq w) 1"
  shows "seqs_increase (snd (push_sealed lib c (w\<lparr>w_next_seq := saturating_add (w_next_seq w) 1\<rparr>)))"
proof (cases "saturating_add (w_next_seq w) 1 = - 1")
  case False
  have "w_next_seq w \<noteq> - 1"
  proof
    assume "w_next_seq w = - 1"
    with saturating_add_ge [of "- 1 :: u64" 1] False word_n1_ge show False
      by (metis antisym_conv)
  qed
  then have less: "w_next_seq w < saturating_add (w_next_seq w) 1" by (rule saturating_add_1_less)
  obtain rs where rs: "w_records (snd (push_sealed lib c (w\<lparr>w_next_seq := saturating_add (w_next_seq w) 1\<rparr>))) = w_records w @ rs"
      "\<forall>r\<in>set rs. content r = c" "length rs \<le> 1"
    using push_sealed_records [of lib c "w\<lparr>w_next_seq := saturating_add (w_next_seq w) 1\<rparr>"] by auto
  have old: "sorted_wrt (<) (map record_seq (w_records w))" "\<forall>r\<in>set (w_records w). record_seq r < saturating_add (w_next_seq w) 1"
    using assms(1) \<open>w_next_seq w \<noteq> - 1\<close> less by (auto simp: seqs_increase_def)
  show ?thesis
  proof (cases rs)
    case Nil
    then show ?thesis using rs(1) old by (auto simp: seqs_increase_def less_imp_le)
  next
    case (Cons r rs')
    with rs(2,3) assms(2) have "rs = [r]" "record_seq r = saturating_add (w_next_seq w) 1" by (auto simp: record_seq_def)
    then show ?thesis using rs(1) old by (auto simp: seqs_increase_def sorted_wrt_append less_imp_le)
  qed
qed (simp add: seqs_increase_def)

lemma written_seqs: "written lib wid mdigest cls w \<Longrightarrow> seqs_increase w"
proof (induction rule: written.induct)
  case fresh
  then show ?case by (simp add: seqs_increase_def with_signature_def Let_def)
qed (simp_all add: append_submit_def append_step_def Let_def push_seqs)

section \<open>A concrete library\<close>

text \<open>
  Small total functions that keep the promises the theorems rely on (lengths, sign-then-verify);
  the examples below run on them.
\<close>

definition sample_bytes :: "nat \<Rightarrow> bytes \<Rightarrow> bytes" where
  "sample_bytes n x = take n (rev x @ replicate n 0)"

definition sample_lib :: WalLib where
  "sample_lib =
     \<lparr>blake3_hash = sample_bytes 32, postcard_instance = (\<lambda>s. Some [ucast (instance_id_get (snap_id s)), ucast (snap_inbox_seq s)]),
      ed25519_public = (\<lambda>sk. sk), ed25519_sign = (\<lambda>sk msg. sample_bytes 64 msg), ed25519_valid_key = (\<lambda>vk. True),
      ed25519_verify_strict = (\<lambda>vk msg sg. sg = sample_bytes 64 msg), mldsa_public = sample_bytes 1952,
      mldsa_try_sign = (\<lambda>sk msg. Inr (sample_bytes 3309 msg)), mldsa_sig_decodes = (\<lambda>sg. True),
      mldsa_verify = (\<lambda>vk msg sg. sg = sample_bytes 3309 msg),
      blake3_keyed = (\<lambda>key. sample_bytes 32), blake3_derive_key = (\<lambda>ctx m. sample_bytes 32 (ctx @ m)),
      postcard_body = (\<lambda>b. Inr (case body_content b of
          BodySubmit seq _ _ _ _ _ _ bs _ \<Rightarrow> 0 # ucast seq # bs
        | BodyStep seq inst _ _ _ _ d \<Rightarrow> 1 # ucast seq # ucast (instance_id_get inst) # d)),
      postcard_wal = (\<lambda>wal. Inr (concat (map this_chain_hash (records wal)))),
      postcard_wal_from = (\<lambda>bs. Inl ''sample'')\<rparr>"

lemma length_sample_bytes [simp]: "length (sample_bytes n x) = n"
  by (simp add: sample_bytes_def)

lemma sample_laws [simp]: "ed25519_laws sample_lib" "mldsa_laws sample_lib" "digest32 sample_lib key"
  by (simp_all add: ed25519_laws_def mldsa_laws_def digest32_def sample_lib_def)

definition sample_class :: SignatureClass where
  "sample_class = new_hybrid_from_secrets sample_lib [1] [2]"

definition sample_writer :: WalWriter where
  "sample_writer =
     snd (append_step sample_lib (InstanceId 1) (ScheduledActionId 1) (Tick 0) 1 Committed zero32
       (snd (append_submit sample_lib (InstanceId 1) System None 1 (Tick 0) (TypeCode 7) [3] (ScheduledActionId 1)
          (with_signature sample_lib zero32 zero32 sample_class))))"

lemma sample_written: "written sample_lib zero32 zero32 sample_class sample_writer"
  unfolding sample_writer_def by (intro written.intros)

section \<open>Properties\<close>

text \<open>
  C8 (a written log verifies). Whatever sequence of submit and step records a writer has appended,
  under any of the three signature tiers, the log it seals passes \<open>verify_chain\<close> for its world id,
  provided sign-then-verify holds for the signature libraries.
\<close>

theorem written_log_verifies:
  assumes "written lib wid mdigest cls w" and "class_keys_match lib cls"
    and "ed25519_laws lib" and "mldsa_laws lib"
  shows "verify_chain lib wid (from_writer w) = Done (Inr ())"
  using writer_inv_verifies [OF written_inv [OF assms(1)]] assms by blast

theorem written_log_verifies_witness:
  "verify_chain sample_lib zero32 (from_writer sample_writer) = Done (Inr ())"
  by (rule written_log_verifies [OF sample_written]) (simp_all add: sample_class_def)

text \<open>
  C3 (the tip pins the log). Two logs that both verify for the same world and end in the same
  chain tip carry the same contents and the same hashes, record by record, in the same order and
  number, unless the hashes computed for these two logs exhibit a collision (of the keyed hash or
  of the body encoding) or a digest equal to the all-zero root. So a tampered, reordered,
  inserted, dropped or truncated record changes the tip.
\<close>

theorem tip_pins_log:
  assumes "verify_chain lib wid wal = Done (Inr ())" and "verify_chain lib wid wal' = Done (Inr ())"
    and "chain_tip wal = chain_tip wal'" and "digest32 lib (build_chain_key lib wid)"
  defines "S \<equiv> visited (chain_link lib (build_chain_key lib wid)) zero32 (map content (records wal)) \<union>
               visited (chain_link lib (build_chain_key lib wid)) zero32 (map content (records wal'))"
  shows "map content (records wal) = map content (records wal') \<and>
     map prev_chain_hash (records wal) = map prev_chain_hash (records wal') \<and>
     map this_chain_hash (records wal) = map this_chain_hash (records wal') \<or>
     link_clash lib (build_chain_key lib wid) S \<or> zero_link lib (build_chain_key lib wid) S"
proof -
  let ?key = "build_chain_key lib wid"
  have l: "linked lib ?key zero32 (records wal)" "linked lib ?key zero32 (records wal')"
    using assms(1,2) by (auto simp: verify_chain_iff)
  note r = linked_run_chain [OF l(1)] linked_run_chain [OF l(2)]
  have "map content (records wal) = map content (records wal')" if "\<not> chain_broken lib ?key S"
    using wal_chain.tip_determines [OF that r(1), of "map content (records wal')"] r(2) assms(3)
    by (auto simp: chain_tip_eq S_def)
  with linked_hashes [OF l] show ?thesis using assms(4) by (auto simp: chain_broken_def)
qed

theorem tip_pins_log_witness:
  "let wal = from_writer sample_writer; key = build_chain_key sample_lib zero32;
       S = visited (chain_link sample_lib key) zero32 (map content (records wal))
   in map content (records wal) = map content (records wal) \<and>
     map prev_chain_hash (records wal) = map prev_chain_hash (records wal) \<and>
     map this_chain_hash (records wal) = map this_chain_hash (records wal) \<or>
     link_clash sample_lib key S \<or> zero_link sample_lib key S"
proof -
  have "verify_chain sample_lib zero32 (from_writer sample_writer) = Done (Inr ())"
    by (rule writer_inv_verifies [OF written_inv [OF sample_written]]) (simp_all add: sample_class_def)
  from tip_pins_log [OF this this] show ?thesis by (simp add: Let_def)
qed

text \<open>
  C9 (anchored verification decides its policy). \<open>verify_chain_anchored\<close> accepts exactly the logs
  whose header envelope is valid and at least as strong as the anchor's tier, whose keys, manifest
  and tip equal every value the anchor pins, and which pass \<open>verify_chain\<close> for the caller's world
  id. A downgraded header, a substituted key, a foreign manifest or a truncated tail is rejected.
\<close>

theorem anchored_accepts_iff:
  "verify_chain_anchored lib wid anchor wal = Done (Inr ()) \<longleftrightarrow>
     (\<exists>tier. header_tier wal = Inr tier \<and> (\<forall>fl. min_tier anchor = Some fl \<longrightarrow> fl \<le> tier)) \<and>
     (\<forall>k. anchor_ed25519_key anchor = Some k \<longrightarrow> verifying_key (header wal) = Some k) \<and>
     (\<forall>k. anchor_mldsa_key anchor = Some k \<longrightarrow> verifying_key_pqc (header wal) = Some k) \<and>
     (\<forall>d. expected_manifest_digest anchor = Some d \<longrightarrow> manifest_digest (header wal) = d) \<and>
     (\<forall>t. expected_chain_tip anchor = Some t \<longrightarrow> chain_tip wal = t) \<and>
     verify_chain lib wid wal = Done (Inr ())"
proof -
  obtain r where "verify_chain lib wid wal = Done r"
    using verify_chain_Done by (cases "verify_chain lib wid wal") blast+
  then show ?thesis
    by (cases r; cases "header_tier wal")
      (auto simp: verify_chain_anchored_def pinned_def not_less split: option.splits)
qed

theorem anchored_accepts_iff_witness:
  "verify_chain_anchored sample_lib zero32
     \<lparr>min_tier = Some TierHybrid, anchor_ed25519_key = Some [1], anchor_mldsa_key = None,
      expected_manifest_digest = Some zero32, expected_chain_tip = Some (chain_tip (from_writer sample_writer))\<rparr>
     (from_writer sample_writer) = Done (Inr ())"
proof -
  have v: "verify_chain sample_lib zero32 (from_writer sample_writer) = Done (Inr ())"
    by (rule writer_inv_verifies [OF written_inv [OF sample_written]]) (simp_all add: sample_class_def)
  have h: "w_header sample_writer = w_header (with_signature sample_lib zero32 zero32 sample_class)"
    using written_inv [OF sample_written] by (simp add: writer_inv_def)
  have "header_tier (from_writer sample_writer) = Inr TierHybrid"
    "verifying_key (header (from_writer sample_writer)) = Some [1]"
    "manifest_digest (header (from_writer sample_writer)) = zero32"
    by (simp_all add: from_writer_def h header_tier_def with_signature_def Let_def sample_class_def
        new_hybrid_from_secrets_def) (simp add: sample_lib_def)
  with v show ?thesis by (simp add: anchored_accepts_iff)
qed

text \<open>
  Verification is total on untrusted bytes. On any log, however malformed, and any anchor,
  both verifiers return a value: the \<open>unreachable!\<close> arms of the signature dispatch are never
  reached.
\<close>

theorem verification_never_panics:
  "(\<exists>r. verify_chain lib wid wal = Done r) \<and> (\<exists>r. verify_chain_anchored lib wid anchor wal = Done r)"
proof -
  obtain r where r: "verify_chain lib wid wal = Done r"
    using verify_chain_Done by (cases "verify_chain lib wid wal") blast+
  then show ?thesis
    by (cases r) (auto simp: verify_chain_anchored_def split: sum.splits)
qed

text \<open>
  Sequence numbers increase. In every log a writer can hold, the sequence numbers of the
  records are strictly increasing, as long as the 64-bit counter has not reached its maximum.
\<close>

theorem wal_seq_increasing:
  assumes "written lib wid mdigest cls w" and "w_next_seq w \<noteq> - 1"
  shows "sorted_wrt (<) (map record_seq (w_records w))"
  using written_seqs [OF assms(1)] assms(2) by (simp add: seqs_increase_def)

theorem wal_seq_increasing_witness:
  "sorted_wrt (<) (map record_seq (w_records sample_writer))"
proof (rule wal_seq_increasing [OF sample_written])
  have "w_next_seq sample_writer = 2"
    by (simp add: sample_writer_def append_step_def append_submit_def Let_def with_signature_def saturating_add_def)
  then show "w_next_seq sample_writer \<noteq> - 1" by simp
qed

text \<open>
  C39 (a failing post-quantum provider leaves an unverifiable log). When the ML-DSA provider
  returns an error, a hybrid writer does not report it: it falls back to an Ed25519-only record
  under a header that pins both keys, and \<open>verify_chain\<close> then rejects the log it wrote.
\<close>

theorem hybrid_signing_failure_unverifiable:
  assumes "ed25519_laws lib" and "\<And>seed. length (mldsa_public lib seed) = 1952"
    and "\<And>seed msg. mldsa_try_sign lib seed msg = Inl ''provider error''"
    and "postcard_body lib (from_content (Step 1 i p now caps v d) zero32) = Inr body"
  shows "verify_chain lib wid (from_writer (snd (append_step lib i p now caps v d
      (with_signature lib wid mdigest (new_hybrid_from_secrets lib sk seed))))) = Done (Inl (MissingPqcSignature 0))"
proof -
  let ?c = "Step 1 i p now caps v d" and ?cls = "new_hybrid_from_secrets lib sk seed"
  let ?w = "(with_signature lib wid mdigest ?cls)\<lparr>w_next_seq := 1\<rparr>"
  have ap: "append_step lib i p now caps v d (with_signature lib wid mdigest ?cls) = push_sealed lib ?c ?w"
    by (simp add: append_step_def with_signature_def Let_def)
  have "sign_hybrid lib ?cls body = None"
    using assms(3) by (simp add: new_hybrid_from_secrets_def pqc_sign_def mldsa_from_seed_def Let_def)
  moreover have "ed25519_valid_key lib (ed25519_public lib sk)" using assms(1) by (simp add: ed25519_laws_def)
  ultimately show ?thesis unfolding ap using assms(2,4)
    by (simp add: verify_chain_def push_sealed_def seal_def with_signature_def Let_def from_writer_def
        from_header_bytes_def mldsa_verifier_from_bytes_def new_hybrid_from_secrets_def mldsa_from_seed_def
        pqc_verifying_key_bytes_def from_record_def check_signature_def)
qed

theorem hybrid_signing_failure_unverifiable_witness:
  "verify_chain (sample_lib\<lparr>mldsa_try_sign := \<lambda>_ _. Inl ''provider error''\<rparr>) zero32
     (from_writer (snd (append_step (sample_lib\<lparr>mldsa_try_sign := \<lambda>_ _. Inl ''provider error''\<rparr>)
        (InstanceId 1) (ScheduledActionId 1) (Tick 0) 1 Committed zero32
        (with_signature (sample_lib\<lparr>mldsa_try_sign := \<lambda>_ _. Inl ''provider error''\<rparr>) zero32 zero32
          (new_hybrid_from_secrets (sample_lib\<lparr>mldsa_try_sign := \<lambda>_ _. Inl ''provider error''\<rparr>) [1] [2])))))
   = Done (Inl (MissingPqcSignature 0))"
  by (rule hybrid_signing_failure_unverifiable)
    (simp_all add: ed25519_laws_def, simp_all add: sample_lib_def from_content_def)

end
