(* ===== verification/Kernel.thy ===== *)
theory Kernel
  imports Stage Wal
begin

text \<open>
  The kernel (\<open>runtime/kernel.rs\<close>, \<open>runtime/view.rs\<close>, \<open>persist/snapshot.rs\<close>): construction and
  registration, admission of external actions, the per-instance step (pop, gate, dispatch, apply,
  digest), observer delivery, the cross-instance signal router, the step loop with its log
  records, forced unload, statistics, snapshots and restore.

  The functions take the libraries (\<open>WalLib\<close>) and the observers' callback as arguments. \<open>compute\<close>
  of a domain action is a total function, so a panic can only come from the kernel's own code.
\<close>

section \<open>State\<close>

record 'o Kernel =
  instances :: "(InstanceId, Instance) fmap"
  action_registry :: ActionRegistry
  observers :: "'o ObserverRegistry"
  next_instance_id :: u64
  kernel_manifest_digest :: bytes
  wal :: "WalWriter option"
  step_scratch :: StepStage

record StepReport =
  actions_executed :: u32
  report_applied :: u32
  report_denied :: u32
  report_evicted :: u32
  report_domain_events :: u32

definition StepReport_default :: StepReport where
  "StepReport_default = \<lparr>actions_executed = 0, report_applied = 0, report_denied = 0, report_evicted = 0,
     report_domain_events = 0\<rparr>"

record Stats =
  instance_count :: nat
  scheduled_action_count :: nat
  entity_count :: u32
  component_byte_count :: u64
  observer_count :: nat
  wal_record_count :: nat

record InstanceStepResult =
  result_popped_id :: ScheduledActionId
  result_verdict :: StepVerdict
  result_digest :: bytes
  result_applied :: u32
  result_denied :: u32
  result_domain_events :: u32
  result_evicted :: u32

record StepCore =
  core_popped_id :: ScheduledActionId
  core_action_type :: TypeCode
  core_verdict :: StepVerdict
  core_digest :: bytes
  core_signals :: "PendingSignal list"
  core_events :: "KernelEvent list"
  core_applied :: u32
  core_denied :: u32
  core_domain_events :: u32

section \<open>Construction and registration\<close>

definition Kernel_new :: "'o Kernel" where
  "Kernel_new =
     \<lparr>instances = fmempty, action_registry = ActionRegistry_new, observers = ObserverRegistry_new,
      next_instance_id = 0, kernel_manifest_digest = zero32, wal = None, step_scratch = StepStage_default\<rparr>"

definition new_with_wal :: "'z WalLib_scheme \<Rightarrow> bytes \<Rightarrow> bytes \<Rightarrow> 'o Kernel" where
  "new_with_wal lib wid mdigest =
     \<lparr>instances = fmempty, action_registry = ActionRegistry_new, observers = ObserverRegistry_new,
      next_instance_id = 0, kernel_manifest_digest = mdigest, wal = Some (WalWriter_new lib wid mdigest),
      step_scratch = StepStage_default\<rparr>"

definition new_with_wal_signed :: "'z WalLib_scheme \<Rightarrow> bytes \<Rightarrow> bytes \<Rightarrow> SignatureClass \<Rightarrow> 'o Kernel" where
  "new_with_wal_signed lib wid mdigest sig_class =
     \<lparr>instances = fmempty, action_registry = ActionRegistry_new, observers = ObserverRegistry_new,
      next_instance_id = 0, kernel_manifest_digest = mdigest,
      wal = Some (with_signature lib wid mdigest sig_class), step_scratch = StepStage_default\<rparr>"

definition wal_chain_tip :: "'o Kernel \<Rightarrow> bytes option" where
  "wal_chain_tip k = map_option writer_chain_tip (wal k)"

definition kernel_wal_record_count :: "'o Kernel \<Rightarrow> nat option" where
  "kernel_wal_record_count k = map_option record_count (wal k)"

definition export_wal :: "'o Kernel \<Rightarrow> Wal option" where
  "export_wal k = map_option from_writer (wal k)"

definition register_action :: "('a, 'z) ActionType_scheme \<Rightarrow> 'o Kernel \<Rightarrow> 'o Kernel" where
  "register_action A k = k\<lparr>action_registry := register_type A (action_registry k)\<rparr>"

definition register_observer :: "'o \<Rightarrow> 'o Kernel \<Rightarrow> ObserverHandle \<times> 'o Kernel" where
  "register_observer obs k = (let (h, r) = register obs (observers k) in (h, k\<lparr>observers := r\<rparr>))"

definition register_observer_filtered :: "'o \<Rightarrow> EventMask \<Rightarrow> 'o Kernel \<Rightarrow> ObserverHandle \<times> 'o Kernel" where
  "register_observer_filtered obs emask k =
     (let (h, r) = register_filtered obs emask (observers k) in (h, k\<lparr>observers := r\<rparr>))"

definition create_instance :: "InstanceConfig \<Rightarrow> 'o Kernel \<Rightarrow> (InstanceId \<times> 'o Kernel) outcome" where
  "create_instance config k =
     (let n = saturating_add (next_instance_id k) 1
      in obind (expect (InstanceId_new n)) (\<lambda>iid.
         Done (iid, k\<lparr>next_instance_id := n, instances := fmupd iid (Instance_new iid config) (instances k)\<rparr>)))"

definition instances_len :: "'o Kernel \<Rightarrow> nat" where
  "instances_len k = bt_len (instances k)"

text \<open>\<open>InstanceView\<close> (\<open>view.rs\<close>) borrows one instance; its methods delegate to the instance's accessors.\<close>

record InstanceView =
  view_instance :: Instance

definition view_id :: "InstanceView \<Rightarrow> InstanceId" where
  "view_id v = inst_id (view_instance v)"

definition view_entity_count :: "InstanceView \<Rightarrow> nat" where
  "view_entity_count v = entities_len (view_instance v)"

definition view_component_count :: "InstanceView \<Rightarrow> nat" where
  "view_component_count v = components_len (view_instance v)"

definition view_local_tick :: "InstanceView \<Rightarrow> u64" where
  "view_local_tick v = local_tick (view_instance v)"

definition view_entity_meta :: "EntityId \<Rightarrow> InstanceView \<Rightarrow> EntityMeta option" where
  "view_entity_meta ent v = entity_meta ent (view_instance v)"

definition view_component :: "EntityId \<Rightarrow> TypeCode \<Rightarrow> InstanceView \<Rightarrow> bytes option" where
  "view_component ent tc v = component ent tc (view_instance v)"

definition view_entities :: "InstanceView \<Rightarrow> (EntityId \<times> EntityMeta) list" where
  "view_entities v = entities_iter (view_instance v)"

definition view_components_by_type :: "TypeCode \<Rightarrow> InstanceView \<Rightarrow> (EntityId \<times> bytes) list" where
  "view_components_by_type tc v = components_by_type_iter tc (view_instance v)"

definition instance_view :: "InstanceId \<Rightarrow> 'o Kernel \<Rightarrow> InstanceView option" where
  "instance_view iid k = map_option (\<lambda>inst. \<lparr>view_instance = inst\<rparr>) (fmlookup (instances k) iid)"

section \<open>Snapshots (\<open>snapshot.rs\<close>)\<close>

record KernelSnapshot =
  ks_instances :: "(InstanceId, InstanceSnapshot) fmap"
  ks_next_instance_id :: u64

datatype SnapshotError =
    SnapSerializeFailed string
  | SnapDeserializeFailed string
  | Inconsistent string
  | IntegrityMismatch

text \<open>The postcard codec of \<open>KernelSnapshot\<close>.\<close>

record SnapLib = WalLib +
  postcard_snapshot :: "KernelSnapshot \<Rightarrow> string + bytes"
  postcard_snapshot_from :: "bytes \<Rightarrow> string + KernelSnapshot"

definition snapshot_serialize :: "'z SnapLib_scheme \<Rightarrow> KernelSnapshot \<Rightarrow> SnapshotError + bytes" where
  "snapshot_serialize lib snap =
     (case postcard_snapshot lib snap of Inl e \<Rightarrow> Inl (SnapSerializeFailed e) | Inr bs \<Rightarrow> Inr bs)"

definition check_snapshot_instance :: "'z SnapLib_scheme \<Rightarrow> InstanceId \<times> InstanceSnapshot \<Rightarrow> SnapshotError option" where
  "check_snapshot_instance lib ii =
     (case validate (snap_scheduler (snd ii)) of
        Inl reason \<Rightarrow> Some (Inconsistent (''instance '' @ debug_InstanceId (fst ii) @ '': '' @ reason))
      | Inr _ \<Rightarrow> None)"

definition validate_structure :: "'z SnapLib_scheme \<Rightarrow> KernelSnapshot \<Rightarrow> SnapshotError + unit" where
  "validate_structure lib snap =
     (case first_err (check_snapshot_instance lib) (sorted_list_of_fmap (ks_instances snap)) of
        Some e \<Rightarrow> Inl e | None \<Rightarrow> Inr ())"

definition snapshot_deserialize :: "'z SnapLib_scheme \<Rightarrow> bytes \<Rightarrow> SnapshotError + KernelSnapshot" where
  "snapshot_deserialize lib bs =
     (case postcard_snapshot_from lib bs of
        Inl e \<Rightarrow> Inl (SnapDeserializeFailed e)
      | Inr snap \<Rightarrow> (case validate_structure lib snap of Inl e \<Rightarrow> Inl e | Inr _ \<Rightarrow> Inr snap))"

definition snapshot_digest :: "'z SnapLib_scheme \<Rightarrow> bytes \<Rightarrow> bytes" where
  "snapshot_digest lib bs = blake3_hash lib bs"

definition deserialize_verified :: "'z SnapLib_scheme \<Rightarrow> bytes \<Rightarrow> bytes \<Rightarrow> SnapshotError + KernelSnapshot" where
  "deserialize_verified lib bs expected_digest =
     (if blake3_hash lib bs \<noteq> expected_digest then Inl IntegrityMismatch else snapshot_deserialize lib bs)"

definition snapshot_instance_count :: "KernelSnapshot \<Rightarrow> nat" where
  "snapshot_instance_count snap = bt_len (ks_instances snap)"

definition snapshot_instance_ids :: "KernelSnapshot \<Rightarrow> InstanceId list" where
  "snapshot_instance_ids snap = bt_keys (ks_instances snap)"

definition snapshot :: "'o Kernel \<Rightarrow> KernelSnapshot" where
  "snapshot k = \<lparr>ks_instances = fmmap to_snapshot (instances k), ks_next_instance_id = next_instance_id k\<rparr>"

definition kernel_from_snapshot :: "KernelSnapshot \<Rightarrow> 'o Kernel" where
  "kernel_from_snapshot snap =
     \<lparr>instances = fmmap instance_from_snapshot (ks_instances snap), action_registry = ActionRegistry_new,
      observers = ObserverRegistry_new, next_instance_id = ks_next_instance_id snap,
      kernel_manifest_digest = zero32, wal = None, step_scratch = StepStage_default\<rparr>"

section \<open>Statistics and forced unload\<close>

definition stats :: "'o Kernel \<Rightarrow> Stats" where
  "stats k =
     (let insts = bt_values (instances k)
      in \<lparr>instance_count = bt_len (instances k),
          scheduled_action_count = fold (\<lambda>inst n. n + sched_len (inst_scheduler inst)) insts 0,
          entity_count = fold (\<lambda>inst n. saturating_add n (total_entities (inst_ledger inst))) insts 0,
          component_byte_count = fold (\<lambda>inst n. saturating_add n (total_bytes (inst_ledger inst))) insts 0,
          observer_count = observers_len (observers k),
          wal_record_count = (case wal k of None \<Rightarrow> 0 | Some w \<Rightarrow> record_count w)\<rparr>)"

definition drop_route :: "RouteId \<Rightarrow> Instance \<Rightarrow> Instance" where
  "drop_route route inst = inst\<lparr>inflight_refs := fmdrop route (inflight_refs inst)\<rparr>"

definition force_unload ::
  "('o \<Rightarrow> KernelEvent \<Rightarrow> 'o option) \<Rightarrow> RouteId \<Rightarrow> CapabilityMask \<Rightarrow> 'o Kernel \<Rightarrow> (ArkheError + nat) \<times> 'o Kernel" where
  "force_unload on_event route caps k =
     (if \<not> contains caps ADMIN_UNLOAD then (Inl CapabilityDenied, k)
      else let live = fold (\<lambda>inst n. case fmlookup (inflight_refs inst) route of
                              None \<Rightarrow> n | Some refs \<Rightarrow> saturating_add n refs) (bt_values (instances k)) 0;
               k' = k\<lparr>instances := fmmap (drop_route route) (instances k)\<rparr>
           in (Inr (unat live),
               k'\<lparr>observers := snd (deliver on_event (ModuleForceUnloaded route live) (observers k'))\<rparr>))"

section \<open>Admission\<close>

definition admit ::
  "ScheduledActionId \<Rightarrow> Principal \<Rightarrow> EntityId option \<Rightarrow> CapabilityMask \<Rightarrow> Tick \<Rightarrow> TypeCode \<Rightarrow> bytes \<Rightarrow> u64
    \<Rightarrow> Instance \<Rightarrow> Instance" where
  "admit sid prin actor caps at tc bs n inst =
     inst\<lparr>inst_counters := (inst_counters inst)\<lparr>next_scheduled := n\<rparr>,
          inst_scheduler := schedule_with_id sid at actor prin caps tc bs (inst_scheduler inst)\<rparr>"

definition submit ::
  "'z WalLib_scheme \<Rightarrow> InstanceId \<Rightarrow> Principal \<Rightarrow> EntityId option \<Rightarrow> CapabilityMask \<Rightarrow> Tick \<Rightarrow> TypeCode
    \<Rightarrow> bytes \<Rightarrow> 'o Kernel \<Rightarrow> ((ArkheError + ScheduledActionId) \<times> 'o Kernel) outcome" where
  "submit lib iid prin actor caps at tc bs k =
     (case fmlookup (instances k) iid of
        None \<Rightarrow> Done (Inl InstanceNotFound, k)
      | Some inst \<Rightarrow>
          let maxs = max_scheduled (inst_config inst)
          in if 0 < maxs \<and> unat maxs \<le> sched_len (inst_scheduler inst) then Done (Inl QuotaExceeded, k)
             else let n = saturating_add (next_scheduled (inst_counters inst)) 1
                  in obind (expect (ScheduledActionId_new n)) (\<lambda>sid.
                     let k' = k\<lparr>instances := fmupd iid (admit sid prin actor caps at tc bs n inst) (instances k)\<rparr>;
                         w' = map_option (\<lambda>w. snd (append_submit lib iid prin actor caps at tc bs sid w)) (wal k)
                     in Done (Inr sid, k'\<lparr>wal := w'\<rparr>)))"

definition submit_with_id ::
  "InstanceId \<Rightarrow> Principal \<Rightarrow> EntityId option \<Rightarrow> CapabilityMask \<Rightarrow> ScheduledActionId \<Rightarrow> Tick \<Rightarrow> TypeCode
    \<Rightarrow> bytes \<Rightarrow> 'o Kernel \<Rightarrow> (ArkheError + unit) \<times> 'o Kernel" where
  "submit_with_id iid prin actor caps sid at tc bs k =
     (case fmlookup (instances k) iid of
        None \<Rightarrow> (Inl InstanceNotFound, k)
      | Some inst \<Rightarrow>
          let n = (if next_scheduled (inst_counters inst) < scheduled_id_get sid then scheduled_id_get sid
                   else next_scheduled (inst_counters inst))
          in (Inr (), k\<lparr>instances := fmupd iid (admit sid prin actor caps at tc bs n inst) (instances k)\<rparr>))"

section \<open>The gate loop of one action\<close>

record GateState =
  g_stage :: StepStage
  g_next_id :: u64
  g_any_denied :: bool
  g_applied :: u32
  g_denied :: u32

text \<open>The projection of the byte total with the current operation on top of the staged ones.\<close>

fun project_current :: "ResourceLedger \<Rightarrow> Op \<Rightarrow> u64 \<Rightarrow> u64" where
  "project_current ledger (SetComponent _ _ _ sz) st = saturating_add st sz"
| "project_current ledger (RemoveComponent ent tc _) st =
     saturating_sub st (case component_size ent tc ledger of None \<Rightarrow> 0 | Some freed \<Rightarrow> freed)"
| "project_current ledger _ st = st"

definition over_budget :: "Instance \<Rightarrow> StepStage \<Rightarrow> Op \<Rightarrow> bool" where
  "over_budget inst stage op \<longleftrightarrow>
     (let budget = memory_budget_bytes (inst_config inst)
      in 0 < budget \<and>
         budget < project_current (inst_ledger inst) op
           (projected_component_bytes (total_bytes (inst_ledger inst)) stage (inst_ledger inst)))"

definition over_entities :: "Instance \<Rightarrow> StepStage \<Rightarrow> Op \<Rightarrow> bool" where
  "over_entities inst stage op \<longleftrightarrow>
     (let maxe = max_entities (inst_config inst)
      in 0 < maxe \<and> spawns op \<and>
         ucast maxe \<le> saturating_add (of_nat (entities_len inst)) (next_entity_advance (id_counters stage)))"

definition over_scheduled :: "Instance \<Rightarrow> StepStage \<Rightarrow> Op \<Rightarrow> bool" where
  "over_scheduled inst stage op \<longleftrightarrow>
     (let maxs = max_scheduled (inst_config inst)
      in 0 < maxs \<and> schedules op \<and>
         ucast maxs \<le> saturating_add (of_nat (sched_len (inst_scheduler inst)))
                        (next_scheduled_advance (id_counters stage)))"

text \<open>A per-operation denial: the operation is skipped, an event is staged, the step goes on.\<close>

definition deny :: "InstanceId \<Rightarrow> string \<Rightarrow> GateState \<Rightarrow> GateState" where
  "deny iid reason g =
     g\<lparr>g_denied := saturating_add (g_denied g) 1,
       g_stage := (g_stage g)\<lparr>stage_events := stage_events (g_stage g) @ [EffectFailed iid (bytes_of_string reason)]\<rparr>\<rparr>"

definition gate_op ::
  "InstanceId \<Rightarrow> Instance \<Rightarrow> Principal \<Rightarrow> CapabilityMask \<Rightarrow> Tick \<Rightarrow> Op \<Rightarrow> GateState \<Rightarrow> GateState outcome" where
  "gate_op iid inst prin eff now op g =
     (case authorize eff (Effect_new iid prin op) of
        Inl _ \<Rightarrow> Done (g\<lparr>g_denied := saturating_add (g_denied g) 1, g_any_denied := True\<rparr>)
      | Inr authorized \<Rightarrow>
          if over_budget inst (g_stage g) (effect_op authorized) then Done (deny iid ''budget_exceeded'' g)
          else if over_entities inst (g_stage g) (effect_op authorized) then Done (deny iid ''entity_quota_exceeded'' g)
          else if over_scheduled inst (g_stage g) (effect_op authorized) then Done (deny iid ''scheduled_quota_exceeded'' g)
          else obind (dispatch authorized now eff (g_stage g, g_next_id g)) (\<lambda>(stage, nid).
            Done (g\<lparr>g_stage := stage, g_next_id := nid, g_applied := saturating_add (g_applied g) 1\<rparr>)))"

section \<open>One pop: \<open>step_one_core\<close>\<close>

fun is_domain_event :: "KernelEvent \<Rightarrow> bool" where
  "is_domain_event (DomainEventEmitted _ _ _ _) = True"
| "is_domain_event _ = False"

definition digest_of :: "'z DigestLib_scheme \<Rightarrow> bool \<Rightarrow> Instance \<Rightarrow> bytes" where
  "digest_of lib measure_digest inst = (if measure_digest then state_digest lib inst else zero32)"

text \<open>The result of a pop that applied nothing: skipped, or rolled back.\<close>

definition core_without_effects ::
  "'z DigestLib_scheme \<Rightarrow> bool \<Rightarrow> ScheduledEntry \<Rightarrow> StepVerdict \<Rightarrow> u32 \<Rightarrow> Instance \<Rightarrow> StepCore" where
  "core_without_effects lib measure_digest entry verdict denied inst =
     \<lparr>core_popped_id = entry_id entry, core_action_type = action_type_code entry, core_verdict = verdict,
      core_digest = digest_of lib measure_digest inst, core_signals = [], core_events = [],
      core_applied = 0, core_denied = denied, core_domain_events = 0\<rparr>"

text \<open>The gate loop over the intents of \<open>compute\<close>, from a cleared scratch.\<close>

definition run_gates ::
  "InstanceId \<Rightarrow> Instance \<Rightarrow> Principal \<Rightarrow> CapabilityMask \<Rightarrow> Tick \<Rightarrow> Op list \<Rightarrow> StepStage \<Rightarrow> GateState outcome" where
  "run_gates iid inst prin eff now ops scratch =
     ofold (gate_op iid inst prin eff now) ops
       \<lparr>g_stage = stage_clear scratch, g_next_id = next_scheduled (inst_counters inst), g_any_denied = False,
        g_applied = 0, g_denied = 0\<rparr>"

text \<open>The end of the step: rollback when an intent was not authorized, otherwise commit.\<close>

definition finish_step ::
  "'z DigestLib_scheme \<Rightarrow> bool \<Rightarrow> ScheduledEntry \<Rightarrow> Instance \<Rightarrow> GateState
    \<Rightarrow> (StepCore option \<times> Instance \<times> StepStage) outcome" where
  "finish_step lib measure_digest entry inst g =
     (if g_any_denied g then
        Done (Some (core_without_effects lib measure_digest entry AuthDenied (g_denied g) inst), inst, g_stage g)
      else let evs = stage_events (g_stage g)
           in obind (apply_stage (g_stage g) inst) (\<lambda>(signals, inst', stage').
              Done (Some \<lparr>core_popped_id = entry_id entry, core_action_type = action_type_code entry,
                          core_verdict = (if 0 < g_denied g then BudgetPartial (g_denied g) else Committed),
                          core_digest = digest_of lib measure_digest inst', core_signals = signals,
                          core_events = evs, core_applied = g_applied g, core_denied = g_denied g,
                          core_domain_events = of_nat (length (filter is_domain_event evs))\<rparr>,
                    inst', stage')))"

definition step_one_core ::
  "'z DigestLib_scheme \<Rightarrow> InstanceId \<Rightarrow> Instance \<Rightarrow> ActionRegistry \<Rightarrow> StepStage \<Rightarrow> Tick \<Rightarrow> CapabilityMask \<Rightarrow> bool
    \<Rightarrow> (StepCore option \<times> Instance \<times> StepStage) outcome" where
  "step_one_core lib iid inst registry scratch now scaps measure_digest =
     obind (pop_due now (inst_scheduler inst)) (\<lambda>(popped, sched).
       case popped of
         None \<Rightarrow> Done (None, inst\<lparr>inst_scheduler := sched\<rparr>, scratch)
       | Some entry \<Rightarrow>
           let inst1 = inst\<lparr>inst_scheduler := sched\<rparr>
           in case registry_get (action_type_code entry) registry of
                None \<Rightarrow> Done (Some (core_without_effects lib measure_digest entry (Skipped Unregistered) 0 inst1),
                              inst1, scratch)
              | Some reg \<Rightarrow>
                  (case deserializer reg (schema_version reg) (action_bytes entry) of
                     Inl _ \<Rightarrow> Done (Some (core_without_effects lib measure_digest entry (Skipped DeserFailed) 0 inst1),
                                    inst1, scratch)
                   | Inr action \<Rightarrow>
                       let eff = effective_caps (default_caps (inst_config inst1)) (entry_principal entry)
                                   (caps_ceiling entry) AND scaps;
                           ops = compute_dyn action (ActionContext_new (entry_actor entry) now iid inst1)
                       in obind (run_gates iid inst1 (entry_principal entry) eff now ops scratch)
                            (finish_step lib measure_digest entry inst1)))"

section \<open>Delivery and routing: \<open>process_instance_record\<close>\<close>

text \<open>Deliver one event, counting the observers it evicts.\<close>

definition deliver_counted ::
  "('o \<Rightarrow> KernelEvent \<Rightarrow> 'o option) \<Rightarrow> KernelEvent \<Rightarrow> u32 \<times> 'o Kernel \<Rightarrow> u32 \<times> 'o Kernel" where
  "deliver_counted on_event event st =
     (let (n, k) = st; (newly, obs) = deliver on_event event (observers k)
      in (saturating_add n (of_nat (length newly)), k\<lparr>observers := obs\<rparr>))"

text \<open>Deliver a signal into its target's inbox and credit the route's reference count.\<close>

definition accept_signal :: "InstanceId \<Rightarrow> PendingSignal \<Rightarrow> Instance \<Rightarrow> Instance" where
  "accept_signal from sg target =
     (let route = pending_route sg;
          target' = snd (deliver_signal route
             \<lparr>sig_from = from, sig_principal = pending_principal sg, sig_payload = pending_payload sg, sig_seq = 0\<rparr> target);
          refs = (case fmlookup (inflight_refs target') route of None \<Rightarrow> 0 | Some n \<Rightarrow> n)
      in target'\<lparr>inflight_refs := fmupd route (saturating_add refs 1) (inflight_refs target')\<rparr>)"

definition inbox_full :: "RouteId \<Rightarrow> Instance \<Rightarrow> bool" where
  "inbox_full route target \<longleftrightarrow>
     (let maxi = max_inbox_per_route (inst_config target)
      in 0 < maxi \<and> unat maxi \<le> inbox_len route target)"

definition route_one ::
  "('o \<Rightarrow> KernelEvent \<Rightarrow> 'o option) \<Rightarrow> InstanceId \<Rightarrow> PendingSignal \<Rightarrow> u32 \<times> 'o Kernel \<Rightarrow> u32 \<times> 'o Kernel" where
  "route_one on_event from sg st =
     (let (n, k) = st; route = pending_route sg; target_id = pending_target sg
      in case fmlookup (instances k) target_id of
           None \<Rightarrow> deliver_counted on_event (SignalDropped target_id route TargetNotFound) (n, k)
         | Some target \<Rightarrow>
             if inbox_full route target
             then deliver_counted on_event (SignalDropped target_id route QueueFull) (n, k)
             else deliver_counted on_event (SignalDelivered from target_id route)
                    (n, k\<lparr>instances := fmupd target_id (accept_signal from sg target) (instances k)\<rparr>))"

definition process_instance_record ::
  "'z DigestLib_scheme \<Rightarrow> ('o \<Rightarrow> KernelEvent \<Rightarrow> 'o option) \<Rightarrow> InstanceId \<Rightarrow> Tick \<Rightarrow> CapabilityMask \<Rightarrow> bool
    \<Rightarrow> 'o Kernel \<Rightarrow> (InstanceStepResult option \<times> 'o Kernel) outcome" where
  "process_instance_record lib on_event iid now scaps measure_digest k =
     (case fmlookup (instances k) iid of
        None \<Rightarrow> Done (None, k)
      | Some inst \<Rightarrow>
          obind (step_one_core lib iid inst (action_registry k) (step_scratch k) now scaps measure_digest)
            (\<lambda>(core, inst', scratch').
             let k1 = k\<lparr>instances := fmupd iid inst' (instances k), step_scratch := scratch'\<rparr>
             in case core of
                  None \<Rightarrow> Done (None, k1)
                | Some c \<Rightarrow>
                    let st2 = fold (deliver_counted on_event) (core_events c) (0, k1);
                        st3 = (case core_verdict c of
                                 Committed \<Rightarrow> deliver_counted on_event (ActionExecuted iid (core_action_type c) now) st2
                               | BudgetPartial _ \<Rightarrow> deliver_counted on_event (ActionExecuted iid (core_action_type c) now) st2
                               | _ \<Rightarrow> st2);
                        (evicted_n, k4) = fold (route_one on_event iid) (core_signals c) st3
                    in Done (Some \<lparr>result_popped_id = core_popped_id c, result_verdict = core_verdict c,
                                   result_digest = core_digest c, result_applied = core_applied c,
                                   result_denied = core_denied c, result_domain_events = core_domain_events c,
                                   result_evicted = evicted_n\<rparr>, k4)))"

section \<open>The step loop\<close>

definition add_result :: "InstanceStepResult \<Rightarrow> StepReport \<Rightarrow> StepReport" where
  "add_result r rep =
     \<lparr>actions_executed = saturating_add (actions_executed rep) 1,
      report_applied = saturating_add (report_applied rep) (result_applied r),
      report_denied = saturating_add (report_denied rep) (result_denied r),
      report_evicted = saturating_add (report_evicted rep) (result_evicted r),
      report_domain_events = saturating_add (report_domain_events rep) (result_domain_events r)\<rparr>"

definition step_instance ::
  "'z WalLib_scheme \<Rightarrow> ('o \<Rightarrow> KernelEvent \<Rightarrow> 'o option) \<Rightarrow> Tick \<Rightarrow> CapabilityMask \<Rightarrow> bool \<Rightarrow> InstanceId
    \<Rightarrow> StepReport \<times> 'o Kernel \<Rightarrow> (StepReport \<times> 'o Kernel) outcome" where
  "step_instance lib on_event now caps measure_digest iid st =
     (let (rep, k) = st
      in obind (process_instance_record lib on_event iid now caps measure_digest k) (\<lambda>(res, k1).
         case res of
           None \<Rightarrow> Done (rep, k1)
         | Some r \<Rightarrow>
             Done (add_result r rep,
                   k1\<lparr>wal := map_option (\<lambda>w. snd (append_step lib iid (result_popped_id r) now caps
                                            (result_verdict r) (result_digest r) w)) (wal k1)\<rparr>)))"

definition step ::
  "'z WalLib_scheme \<Rightarrow> ('o \<Rightarrow> KernelEvent \<Rightarrow> 'o option) \<Rightarrow> Tick \<Rightarrow> CapabilityMask \<Rightarrow> 'o Kernel
    \<Rightarrow> (StepReport \<times> 'o Kernel) outcome" where
  "step lib on_event now caps k =
     ofold (step_instance lib on_event now caps (wal k \<noteq> None)) (bt_keys (instances k)) (StepReport_default, k)"

end
