(* ===== verification/Step_Core.thy ===== *)
theory Step_Core
  imports Kernel
begin

text \<open>
  Properties of one pop (\<open>step_one_core\<close> of \<open>runtime/kernel.rs\<close>): the gate loop keeps a description of
  what it has accepted, and from it follow totality, the preservation of the instance invariant,
  the quotas and the byte budget, capability confinement of scheduled children, and rollback.
\<close>

section \<open>The gate loop\<close>

lemma project_current_eq: "project_current l op st = fold (project_op l) (ledger_deltas op) st"
  by (cases op) simp_all

definition within_budget :: "Instance \<Rightarrow> Op list \<Rightarrow> bool" where
  "within_budget inst acc \<longleftrightarrow> (0 < memory_budget_bytes (inst_config inst) \<longrightarrow>
     (\<forall>n. 0 < n \<longrightarrow> n \<le> length (concat (map ledger_deltas acc)) \<longrightarrow>
        fold (project_op (inst_ledger inst)) (take n (concat (map ledger_deltas acc))) (total_bytes (inst_ledger inst))
          \<le> memory_budget_bytes (inst_config inst)))"

definition within_quotas :: "Instance \<Rightarrow> Op list \<Rightarrow> bool" where
  "within_quotas inst acc \<longleftrightarrow>
     (0 < max_entities (inst_config inst) \<longrightarrow> entities_len inst \<le> unat (max_entities (inst_config inst)) \<longrightarrow>
        entities_len inst + count_ops spawns acc \<le> unat (max_entities (inst_config inst))) \<and>
     (0 < max_scheduled (inst_config inst) \<longrightarrow> sched_len (inst_scheduler inst) \<le> unat (max_scheduled (inst_config inst)) \<longrightarrow>
        sched_len (inst_scheduler inst) + count_ops schedules acc \<le> unat (max_scheduled (inst_config inst)))"

text \<open>What the loop knows about the intents \<open>acc\<close> it has dispatched so far.\<close>

definition gate_inv ::
  "Instance \<Rightarrow> Principal \<Rightarrow> CapabilityMask \<Rightarrow> Tick \<Rightarrow> Op list \<Rightarrow> GateState \<Rightarrow> bool" where
  "gate_inv inst prin eff now acc g \<longleftrightarrow>
     staged now prin eff (next_scheduled (inst_counters inst)) acc (g_stage g, g_next_id g) \<and>
     (\<forall>op\<in>set acc. prin \<noteq> Unauthenticated \<and> (needs_system op \<longrightarrow> contains eff SYSTEM)) \<and>
     within_budget inst acc \<and> within_quotas inst acc"

lemma within_budget_snoc:
  assumes "within_budget inst acc" and "ledger_delta stage = concat (map ledger_deltas acc)"
    and "\<not> over_budget inst stage op"
  shows "within_budget inst (acc @ [op])"
proof (cases "ledger_deltas op = [] \<or> memory_budget_bytes (inst_config inst) = 0")
  case True
  then show ?thesis using assms(1) by (auto simp: within_budget_def)
next
  case False
  let ?ls = "concat (map ledger_deltas acc)" and ?l = "inst_ledger inst"
  from False obtain x where x: "ledger_deltas op = [x]" by (cases op) auto
  have last: "project_op ?l x (fold (project_op ?l) ?ls (total_bytes ?l)) \<le> memory_budget_bytes (inst_config inst)"
    using assms(2,3) False x
    by (simp add: over_budget_def Let_def projected_component_bytes_def project_current_eq word_neq_0_conv [symmetric])
  show ?thesis unfolding within_budget_def
  proof (intro impI allI)
    fix n
    assume b: "0 < memory_budget_bytes (inst_config inst)" and n: "0 < n" "n \<le> length (concat (map ledger_deltas (acc @ [op])))"
    show "fold (project_op ?l) (take n (concat (map ledger_deltas (acc @ [op])))) (total_bytes ?l) \<le> memory_budget_bytes (inst_config inst)"
    proof (cases "n \<le> length ?ls")
      case True
      then show ?thesis using assms(1) b n(1) x by (simp add: within_budget_def)
    next
      case False
      with n(2) x have "n = Suc (length ?ls)" by simp
      then show ?thesis using last x by simp
    qed
  qed
qed

lemma unat_ucast_32_64 [simp]: "unat (ucast (x :: u32) :: u64) = unat x"
proof -
  have "unat (ucast x :: u64) = unat x mod 2 ^ 64" by (simp add: unsigned_ucast_eq take_bit_eq_mod)
  moreover have "unat x < 2 ^ 64" using unat_le_max [of x] by simp
  ultimately show ?thesis by simp
qed

text \<open>A quota comparison that did not trip, read as natural numbers.\<close>

lemma quota_room:
  assumes "\<not> ucast (m :: u32) \<le> saturating_add (of_nat len) (adv :: u64)" and "len \<le> unat m"
    and "unat adv = min n (2 ^ 64 - 1)"
  shows "len + n < unat m"
proof -
  have m: "unat m < 2 ^ 32" using unat_le_max [of m] by simp
  then have "unat (of_nat len :: u64) = len" using assms(2) by (simp add: unat_of_nat)
  then have "len + min n (2 ^ 64 - 1) < unat m \<or> 2 ^ 64 - 1 < unat m"
    using assms(1,3) by (simp add: word_le_nat_alt sat_simps not_le)
  with m show ?thesis by (auto simp: min_def split: if_splits)
qed

lemma within_quotas_snoc:
  assumes "within_quotas inst acc" and "staged now prin eff start acc (stage, nid)"
    and "\<not> over_entities inst stage op" and "\<not> over_scheduled inst stage op"
  shows "within_quotas inst (acc @ [op])"
proof -
  have adv: "unat (next_entity_advance (id_counters stage)) = min (count_ops spawns acc) (2 ^ 64 - 1)"
    "unat (next_scheduled_advance (id_counters stage)) = min (count_ops schedules acc) (2 ^ 64 - 1)"
    using assms(2) by (simp_all add: staged_def)
  show ?thesis
    using assms(1,3,4) quota_room [OF _ _ adv(1), of "max_entities (inst_config inst)" "entities_len inst"]
      quota_room [OF _ _ adv(2), of "max_scheduled (inst_config inst)" "sched_len (inst_scheduler inst)"]
    unfolding within_quotas_def over_entities_def over_scheduled_def Let_def
    by (auto simp: Suc_le_eq)
qed

lemma gate_op_inv:
  assumes "gate_inv inst prin eff now acc g"
  shows "\<exists>g' acc'. gate_op iid inst prin eff now op g = Done g' \<and> gate_inv inst prin eff now acc' g' \<and>
    (acc' = acc \<or> acc' = acc @ [op])"
proof (cases "prin \<noteq> Unauthenticated \<and> (needs_system op \<longrightarrow> contains eff SYSTEM)")
  case False
  then have "authorize eff (Effect_new iid prin op) = Inl DenyCapability" by (simp only: authorize_eq if_False)
  then show ?thesis using assms by (auto simp: gate_op_def gate_inv_def)
next
  case True
  then have auth: "authorize eff (Effect_new iid prin op) = Inr (Effect iid prin op)" by (auto simp: authorize_eq)
  have st: "staged now prin eff (next_scheduled (inst_counters inst)) acc (g_stage g, g_next_id g)"
    using assms by (simp add: gate_inv_def)
  show ?thesis
  proof (cases "over_budget inst (g_stage g) op \<or> over_entities inst (g_stage g) op \<or> over_scheduled inst (g_stage g) op")
    case True
    have "gate_inv inst prin eff now acc (deny iid reason g)" for reason
      using assms by (simp add: gate_inv_def deny_def staged_event)
    then show ?thesis using auth True by (auto simp: gate_op_def)
  next
    case ok: False
    obtain stage' nid' where d: "dispatch_op iid prin op now eff (g_stage g, g_next_id g) = Done (stage', nid')"
        "staged now prin eff (next_scheduled (inst_counters inst)) (acc @ [op]) (stage', nid')"
      using staged_dispatch [OF st, of iid op] by force
    have "within_budget inst (acc @ [op])"
      using within_budget_snoc [of inst acc "g_stage g" op] assms ok by (simp add: gate_inv_def staged_def)
    moreover have "within_quotas inst (acc @ [op])"
      using within_quotas_snoc [OF _ st] assms ok by (simp add: gate_inv_def)
    ultimately have "gate_inv inst prin eff now (acc @ [op])
        (g\<lparr>g_stage := stage', g_next_id := nid', g_applied := saturating_add (g_applied g) 1\<rparr>)"
      using d(2) assms True by (auto simp: gate_inv_def)
    moreover have "gate_op iid inst prin eff now op g =
        Done (g\<lparr>g_stage := stage', g_next_id := nid', g_applied := saturating_add (g_applied g) 1\<rparr>)"
      using auth ok d(1) by (simp add: gate_op_def dispatch_def)
    ultimately show ?thesis by blast
  qed
qed

lemma gate_loop_inv:
  assumes "gate_inv inst prin eff now acc g"
  shows "\<exists>g' acc'. ofold (gate_op iid inst prin eff now) ops g = Done g' \<and> gate_inv inst prin eff now (acc @ acc') g' \<and>
    subseq acc' ops"
  using assms
proof (induction ops arbitrary: acc g)
  case Nil
  then show ?case by (intro exI [of _ g] exI [of _ "[]"]) simp
next
  case (Cons op ops)
  obtain g1 acc1 where g1: "gate_op iid inst prin eff now op g = Done g1" "gate_inv inst prin eff now acc1 g1"
      "acc1 = acc \<or> acc1 = acc @ [op]"
    using gate_op_inv [OF Cons.prems, of iid op] by blast
  obtain g2 acc2 where g2: "ofold (gate_op iid inst prin eff now) ops g1 = Done g2"
      "gate_inv inst prin eff now (acc1 @ acc2) g2" "subseq acc2 ops"
    using Cons.IH [OF g1(2)] by blast
  from g1(3) obtain pre where pre: "acc1 = acc @ pre" "subseq pre [op]" by auto
  have "subseq (pre @ acc2) ([op] @ ops)" using pre(2) g2(3) by (rule list_emb_append_mono)
  then show ?case using g1(1) g2(1,2) pre(1) by (intro exI [of _ g2] exI [of _ "pre @ acc2"]) simp
qed

lemma run_gates_inv:
  "\<exists>g acc. run_gates iid inst prin eff now ops scratch = Done g \<and> gate_inv inst prin eff now acc g \<and> subseq acc ops"
proof -
  let ?g = "\<lparr>g_stage = StepStage_default, g_next_id = next_scheduled (inst_counters inst), g_any_denied = False,
        g_applied = 0, g_denied = 0\<rparr>"
  have "gate_inv inst prin eff now [] ?g"
    by (simp add: gate_inv_def staged_default within_budget_def within_quotas_def)
  from gate_loop_inv [OF this, of iid ops] show ?thesis by (simp add: run_gates_def)
qed

text \<open>Once an intent is denied by authorization, the loop remembers it to the end.\<close>

lemma gate_op_denied_mono:
  "gate_op iid inst prin eff now op g = Done g' \<Longrightarrow> g_any_denied g \<Longrightarrow> g_any_denied g'"
  by (auto simp: gate_op_def deny_def obind_eq_Done split: sum.splits if_splits prod.splits)

section \<open>Outcomes of a pop\<close>

lemma apply_adds_Done:
  assumes "schedule_deltas stage = map Add es"
  shows "\<exists>s. apply_stage stage inst = Done (pending_signals stage,
     advance_local_tick (local_tick_delta stage) (advance_wall_remainder (wall_remainder_delta stage)
       ((fold apply_state_op (state_ops stage) (inst\<lparr>inst_counters := apply_counters (id_counters stage) (inst_counters inst)\<rparr>))
          \<lparr>inst_ledger := fold apply_ledger_op (ledger_delta stage) (inst_ledger inst), inst_scheduler := s\<rparr>)),
     stage\<lparr>state_ops := [], ledger_delta := [], schedule_deltas := [], pending_signals := []\<rparr>) \<and>
     ofold apply_schedule_delta (map Add es) (inst_scheduler inst) = Done s"
proof -
  have "ofold apply_schedule_delta (map Add es) (inst_scheduler inst) \<noteq> Panic"
    by (rule ofold_no_panic) auto
  then obtain s where "ofold apply_schedule_delta (map Add es) (inst_scheduler inst) = Done s"
    by (cases "ofold apply_schedule_delta (map Add es) (inst_scheduler inst)") auto
  with assms show ?thesis by (simp add: apply_stage_def Let_def)
qed

text \<open>
  Every pop ends in one of four ways: nothing was due; the entry was skipped; an intent was not
  authorized and the stage was dropped; or the accepted intents were applied.
\<close>

lemma step_one_core_cases:
  obtains (idle) "pop_due now (inst_scheduler inst) = Done (None, inst_scheduler inst)"
      "step_one_core lib iid inst reg scratch now scaps md = Done (None, inst, scratch)"
  | (skip) entry sched reason where "pop_due now (inst_scheduler inst) = Done (Some entry, sched)"
      "step_one_core lib iid inst reg scratch now scaps md =
        Done (Some (core_without_effects lib md entry (Skipped reason) 0 (inst\<lparr>inst_scheduler := sched\<rparr>)),
              inst\<lparr>inst_scheduler := sched\<rparr>, scratch)"
  | (run) entry sched r action eff acc g where "pop_due now (inst_scheduler inst) = Done (Some entry, sched)"
      "registry_get (action_type_code entry) reg = Some r"
      "deserializer r (schema_version r) (action_bytes entry) = Inr action"
      "eff = effective_caps (default_caps (inst_config inst)) (entry_principal entry) (caps_ceiling entry) AND scaps"
      "run_gates iid (inst\<lparr>inst_scheduler := sched\<rparr>) (entry_principal entry) eff now
         (compute_dyn action (ActionContext_new (entry_actor entry) now iid (inst\<lparr>inst_scheduler := sched\<rparr>))) scratch = Done g"
      "gate_inv (inst\<lparr>inst_scheduler := sched\<rparr>) (entry_principal entry) eff now acc g"
      "subseq acc (compute_dyn action (ActionContext_new (entry_actor entry) now iid (inst\<lparr>inst_scheduler := sched\<rparr>)))"
      "step_one_core lib iid inst reg scratch now scaps md =
         finish_step lib md entry (inst\<lparr>inst_scheduler := sched\<rparr>) g"
proof -
  obtain popped sched where pop: "pop_due now (inst_scheduler inst) = Done (popped, sched)"
    using pop_due_Done by (cases "pop_due now (inst_scheduler inst)") auto
  show thesis
  proof (cases popped)
    case None
    with pop have "sched = inst_scheduler inst" by (auto simp: pop_due_eq split: option.splits if_splits)
    with pop None show thesis by (intro idle) (simp_all add: step_one_core_def)
  next
    case (Some entry)
    let ?inst = "inst\<lparr>inst_scheduler := sched\<rparr>"
    show thesis
    proof (cases "registry_get (action_type_code entry) reg")
      case None
      with pop Some show thesis by (intro skip [of entry sched Unregistered]) (simp_all add: step_one_core_def Let_def)
    next
      case reg: (Some r)
      show thesis
      proof (cases "deserializer r (schema_version r) (action_bytes entry)")
        case (Inl e)
        with pop Some reg show thesis by (intro skip [of entry sched DeserFailed]) (simp_all add: step_one_core_def Let_def)
      next
        case (Inr action)
        let ?eff = "effective_caps (default_caps (inst_config inst)) (entry_principal entry) (caps_ceiling entry) AND scaps"
        let ?ops = "compute_dyn action (ActionContext_new (entry_actor entry) now iid ?inst)"
        obtain g acc where g: "run_gates iid ?inst (entry_principal entry) ?eff now ?ops scratch = Done g"
            "gate_inv ?inst (entry_principal entry) ?eff now acc g" "subseq acc ?ops"
          using run_gates_inv [of iid ?inst "entry_principal entry" ?eff now ?ops scratch] by blast
        have "step_one_core lib iid inst reg scratch now scaps md = finish_step lib md entry ?inst g"
          using pop Some reg Inr g(1) by (simp add: step_one_core_def Let_def)
        with pop Some reg Inr g show thesis by (intro run [of entry sched r action ?eff g acc]) simp_all
      qed
    qed
  qed
qed

lemma gate_inv_adds:
  assumes "gate_inv inst prin eff now acc g"
  obtains es where "schedule_deltas (g_stage g) = map Add es"
    "map entry_id es = map (minted (next_scheduled (inst_counters inst)) \<circ> Suc) [0..<count_ops schedules acc]"
    "\<forall>e\<in>set es. caps_ceiling e = eff \<and> entry_principal e = prin"
  using assms by (auto simp: gate_inv_def staged_def)

lemma finish_step_Done:
  assumes "gate_inv inst prin eff now acc g"
  shows "finish_step lib md entry inst g \<noteq> Panic"
proof -
  from assms obtain es where "schedule_deltas (g_stage g) = map Add es" by (rule gate_inv_adds)
  from apply_adds_Done [OF this, of inst] show ?thesis by (auto simp: finish_step_def Let_def)
qed

lemma step_one_core_Done: "step_one_core lib iid inst reg scratch now scaps md \<noteq> Panic"
  by (rule step_one_core_cases [of now inst lib iid reg scratch scaps md]) (auto simp: finish_step_Done)

lemma step_one_core_scratch:
  "obind (step_one_core lib iid inst reg scratch now scaps md) (\<lambda>(c, i, _). Done (c, i)) =
   obind (step_one_core lib iid inst reg scratch' now scaps md) (\<lambda>(c, i, _). Done (c, i))"
proof -
  have gates: "run_gates iid inst prin eff now ops scratch = run_gates iid inst prin eff now ops scratch'" for inst prin eff ops
    by (simp add: run_gates_def)
  show ?thesis
    unfolding step_one_core_def obind_assoc
    by (rule obind_cong [OF refl]) (auto simp: Let_def gates split: option.splits sum.splits)
qed

section \<open>The instance invariant\<close>

definition ops_bounded :: "nat \<Rightarrow> ActionRegistry \<Rightarrow> bool" where
  "ops_bounded M reg \<longleftrightarrow>
     (\<forall>tc r v bs a ctx. fmlookup reg tc = Some r \<longrightarrow> deserializer r v bs = Inr a \<longrightarrow> length (compute_dyn a ctx) \<le> M)"

lemma pop_instance_inv:
  assumes "instance_inv inst" and "pop_due now (inst_scheduler inst) = Done (r, sched)"
  shows "instance_inv (inst\<lparr>inst_scheduler := sched\<rparr>)"
  using assms pop_due_inv [of "inst_scheduler inst" now r sched] pop_due_counters [of "inst_scheduler inst" now r sched]
  by (simp add: instance_inv_def instance_sched_def instance_sync_def)

lemma step_one_core_inv:
  assumes inv: "instance_inv inst" and bound: "ops_bounded M reg"
    and room: "unat (next_scheduled (inst_counters inst)) + M < 2 ^ 64"
    and res: "step_one_core lib iid inst reg scratch now scaps md = Done (core, inst', scratch')"
  shows "instance_inv inst' \<and> inst_config inst' = inst_config inst \<and> inst_id inst' = inst_id inst \<and>
    unat (next_scheduled (inst_counters inst')) \<le> unat (next_scheduled (inst_counters inst)) + M"
proof (rule step_one_core_cases [of now inst lib iid reg scratch scaps md], goal_cases)
  case 1
  then show ?case using res inv by simp
next
  case (2 entry sched reason)
  then show ?case using res pop_instance_inv [OF inv 2(1)] by auto
next
  case (3 entry sched r action eff acc g)
  let ?inst = "inst\<lparr>inst_scheduler := sched\<rparr>"
  have inv1: "instance_inv ?inst" by (rule pop_instance_inv [OF inv 3(1)])
  show ?case
  proof (cases "g_any_denied g")
    case True
    then show ?thesis using res inv1 3(8) by (auto simp: finish_step_def)
  next
    case False
    have "count_ops schedules acc \<le> length acc" by (rule count_ops_le)
    also have "\<dots> \<le> M"
      using list_emb_length [OF 3(7)] bound 3(2,3) unfolding ops_bounded_def registry_get_def
      by (meson le_trans)
    finally have c: "count_ops schedules acc \<le> M" .
    have "unat (next_scheduled (inst_counters ?inst)) + count_ops schedules acc < 2 ^ 64" using room c by simp
    from apply_staged [OF inv1 _ this] 3(6) obtain inst2 stage2 where
      a: "apply_stage (g_stage g) ?inst = Done (pending_signals (g_stage g), inst2, stage2)" "instance_inv inst2"
        "inst_config inst2 = inst_config ?inst" "inst_id inst2 = inst_id ?inst"
        "unat (next_scheduled (inst_counters inst2)) = unat (next_scheduled (inst_counters ?inst)) + count_ops schedules acc"
      unfolding gate_inv_def by blast
    then have "inst' = inst2" using res 3(8) False by (simp add: finish_step_def Let_def)
    then show ?thesis using a c by simp
  qed
qed

section \<open>Quotas\<close>

lemma spawn_count_le:
  "entities_len (fold apply_state_op (state_deltas now op) inst) \<le> entities_len inst + (if spawns op then 1 else 0)"
  by (cases op) (auto simp: entities_len_def insert_entity_def inst_remove_entity_maps insert_component_def
      inst_remove_component_def bt_len_upd bt_len_drop)

lemma spawns_count_le:
  "entities_len (fold apply_state_op (concat (map (state_deltas now) acc)) inst) \<le> entities_len inst + count_ops spawns acc"
proof (induction acc rule: rev_induct)
  case (snoc op acc)
  then show ?case
    using spawn_count_le [of now op "fold apply_state_op (concat (map (state_deltas now) acc)) inst"] by auto
qed (simp add: entities_len_def)

lemma adds_len_le:
  "ofold apply_schedule_delta (map Add es) s = Done t \<Longrightarrow> sched_len t \<le> sched_len s + length es"
proof (induction es arbitrary: s)
  case (Cons e es)
  let ?s = "schedule_with_id (entry_id e) (entry_at e) (entry_actor e) (entry_principal e)
             (caps_ceiling e) (action_type_code e) (action_bytes e) s"
  have "sched_len ?s \<le> Suc (sched_len s)"
    by (simp add: sched_len_def schedule_with_id_def Let_def bt_len_upd)
  moreover have "sched_len t \<le> sched_len ?s + length es" using Cons by simp
  ultimately show ?case by simp
qed simp

lemma pop_len_le: "pop_due now s = Done (r, t) \<Longrightarrow> sched_len t \<le> sched_len s"
  by (auto simp: pop_due_eq sched_len_def bt_len_drop split: option.splits if_splits)

text \<open>What a committed step leaves, in terms of the accepted intents.\<close>

lemma committed_instance:
  assumes "gate_inv inst prin eff now acc g" and "apply_stage (g_stage g) inst = Done (sigs, inst', stage')"
  shows "entities_len inst' \<le> entities_len inst + count_ops spawns acc"
    and "sched_len (inst_scheduler inst') \<le> sched_len (inst_scheduler inst) + count_ops schedules acc"
    and "inst_ledger inst' = fold apply_ledger_op (concat (map ledger_deltas acc)) (inst_ledger inst)"
    and "inst_config inst' = inst_config inst"
proof -
  from assms(1) obtain es where es: "schedule_deltas (g_stage g) = map Add es"
      "map entry_id es = map (minted (next_scheduled (inst_counters inst)) \<circ> Suc) [0..<count_ops schedules acc]"
    by (rule gate_inv_adds)
  have len: "length es = count_ops schedules acc" using arg_cong [OF es(2), of length] by simp
  obtain s where s: "ofold apply_schedule_delta (map Add es) (inst_scheduler inst) = Done s"
      "inst' = advance_local_tick (local_tick_delta (g_stage g)) (advance_wall_remainder (wall_remainder_delta (g_stage g))
       ((fold apply_state_op (state_ops (g_stage g)) (inst\<lparr>inst_counters := apply_counters (id_counters (g_stage g)) (inst_counters inst)\<rparr>))
          \<lparr>inst_ledger := fold apply_ledger_op (ledger_delta (g_stage g)) (inst_ledger inst), inst_scheduler := s\<rparr>))"
    using apply_adds_Done [OF es(1), of inst] assms(2) by auto
  have st: "state_ops (g_stage g) = concat (map (state_deltas now) acc)"
      "ledger_delta (g_stage g) = concat (map ledger_deltas acc)"
    using assms(1) by (simp_all add: gate_inv_def staged_def)
  have adv: "inst_entities (advance_local_tick d i) = inst_entities i" "inst_entities (advance_wall_remainder d' i) = inst_entities i"
      "inst_scheduler (advance_local_tick d i) = inst_scheduler i" "inst_scheduler (advance_wall_remainder d' i) = inst_scheduler i"
      "inst_ledger (advance_local_tick d i) = inst_ledger i" "inst_ledger (advance_wall_remainder d' i) = inst_ledger i"
      "inst_config (advance_local_tick d i) = inst_config i" "inst_config (advance_wall_remainder d' i) = inst_config i"
    for d d' i by (simp_all add: advance_local_tick_def advance_wall_remainder_def)
  show "entities_len inst' \<le> entities_len inst + count_ops spawns acc"
    using spawns_count_le [of now acc "inst\<lparr>inst_counters := apply_counters (id_counters (g_stage g)) (inst_counters inst)\<rparr>"] s(2) st
    by (simp add: entities_len_def adv)
  show "sched_len (inst_scheduler inst') \<le> sched_len (inst_scheduler inst) + count_ops schedules acc"
    using adds_len_le [OF s(1)] len s(2) by (simp add: adv)
  show "inst_ledger inst' = fold apply_ledger_op (concat (map ledger_deltas acc)) (inst_ledger inst)"
    and "inst_config inst' = inst_config inst"
    using s(2) st by (simp_all add: adv)
qed

lemma step_one_core_frame:
  assumes res: "step_one_core lib iid inst reg scratch now scaps md = Done (core, inst', scratch')"
  shows "inst_config inst' = inst_config inst" and "signal_inbox inst' = signal_inbox inst"
    and "inflight_refs inst' = inflight_refs inst" and "inbox_seq inst' = inbox_seq inst"
proof -
  have "inst_config inst' = inst_config inst \<and> signal_inbox inst' = signal_inbox inst \<and>
    inflight_refs inst' = inflight_refs inst \<and> inbox_seq inst' = inbox_seq inst"
  proof (rule step_one_core_cases [of now inst lib iid reg scratch scaps md], goal_cases)
    case 1
    then show ?case using res by simp
  next
    case (2 entry sched reason)
    then show ?case using res by auto
  next
    case (3 entry sched r action eff acc g)
    let ?inst = "inst\<lparr>inst_scheduler := sched\<rparr>"
    from 3(6) obtain es where "schedule_deltas (g_stage g) = map Add es" by (rule gate_inv_adds)
    from apply_adds_Done [OF this, of ?inst] show ?case
      using res 3(8) by (auto simp: finish_step_def Let_def advance_local_tick_def advance_wall_remainder_def split: if_splits)
  qed
  then show "inst_config inst' = inst_config inst" "signal_inbox inst' = signal_inbox inst"
    "inflight_refs inst' = inflight_refs inst" "inbox_seq inst' = inbox_seq inst" by simp_all
qed

definition quotas_ok :: "Instance \<Rightarrow> bool" where
  "quotas_ok inst \<longleftrightarrow>
     (0 < max_entities (inst_config inst) \<longrightarrow> entities_len inst \<le> unat (max_entities (inst_config inst))) \<and>
     (0 < max_scheduled (inst_config inst) \<longrightarrow> sched_len (inst_scheduler inst) \<le> unat (max_scheduled (inst_config inst)))"

lemma quotas_ok_pop:
  "quotas_ok inst \<Longrightarrow> pop_due now (inst_scheduler inst) = Done (r, sched) \<Longrightarrow> quotas_ok (inst\<lparr>inst_scheduler := sched\<rparr>)"
  by (auto simp: quotas_ok_def entities_len_def dest!: pop_len_le)

lemma step_one_core_quotas:
  assumes q: "quotas_ok inst" and res: "step_one_core lib iid inst reg scratch now scaps md = Done (core, inst', scratch')"
  shows "quotas_ok inst'"
proof (rule step_one_core_cases [of now inst lib iid reg scratch scaps md], goal_cases)
  case 1
  then show ?case using res q by simp
next
  case (2 entry sched reason)
  then show ?case using res quotas_ok_pop [OF q 2(1)] by auto
next
  case (3 entry sched r action eff acc g)
  let ?inst = "inst\<lparr>inst_scheduler := sched\<rparr>"
  note q1 = quotas_ok_pop [OF q 3(1)]
  show ?case
  proof (cases "g_any_denied g")
    case True
    then show ?thesis using res q1 3(8) by (auto simp: finish_step_def)
  next
    case False
    then obtain sigs stage2 where a: "apply_stage (g_stage g) ?inst = Done (sigs, inst', stage2)"
      using res 3(8) by (auto simp: finish_step_def Let_def obind_eq_Done)
    have "within_quotas ?inst acc" using 3(6) by (simp add: gate_inv_def)
    then show ?thesis
      using committed_instance [OF 3(6) a] q1 unfolding quotas_ok_def within_quotas_def by fastforce
  qed
qed

section \<open>The byte budget\<close>

text \<open>
  The projection does not fall below the exact count as long as it has not saturated: at every
  prefix the running projection stays within the budget, and the budget is below the maximum.
\<close>

lemma projection_lower:
  assumes "\<forall>n. n \<le> length ops \<longrightarrow> unat (fold (project_op l) (take n ops) b) < 2 ^ 64 - 1"
  shows "unat b + (\<Sum>op\<leftarrow>ops. put_size (ledger_puts op)) \<le>
    unat (fold (project_op l) ops b) + (\<Sum>op\<leftarrow>ops. del_size (component_sizes l) (ledger_dels op))"
  using assms
proof (induction ops rule: rev_induct)
  case (snoc op ops)
  let ?p = "fold (project_op l) ops b"
  have IH: "unat b + (\<Sum>op\<leftarrow>ops. put_size (ledger_puts op)) \<le> unat ?p + (\<Sum>op\<leftarrow>ops. del_size (component_sizes l) (ledger_dels op))"
  proof (rule snoc.IH, intro allI impI)
    fix n assume "n \<le> length ops"
    then show "unat (fold (project_op l) (take n ops) b) < 2 ^ 64 - 1" using snoc.prems [rule_format, of n] by simp
  qed
  have "unat (project_op l op ?p) < 2 ^ 64 - 1" using snoc.prems [rule_format, of "Suc (length ops)"] by simp
  then have "unat ?p + put_size (ledger_puts op) \<le> unat (project_op l op ?p) + del_size (component_sizes l) (ledger_dels op)"
    by (cases op) (auto simp: put_size_def del_size_def size_at_def component_size_def sat_simps split: option.splits)
  with IH show ?case by simp
qed simp

text \<open>The component keys an action detaches, in order.\<close>

definition detached :: "Op list \<Rightarrow> (EntityId \<times> TypeCode) option list" where
  "detached acc = filter (\<lambda>d. d \<noteq> None) (map ledger_dels (concat (map ledger_deltas acc)))"

text \<open>A list of ledger operations whose running projection never leaves the budget.\<close>

definition projected_within :: "ResourceLedger \<Rightarrow> u64 \<Rightarrow> LedgerOp list \<Rightarrow> bool" where
  "projected_within l B ops \<longleftrightarrow> (\<forall>n. n \<le> length ops \<longrightarrow> fold (project_op l) (take n ops) (total_bytes l) \<le> B)"

lemma projected_within_butlast: "projected_within l B (ops @ [op]) \<Longrightarrow> projected_within l B ops"
  unfolding projected_within_def by (metis le_SucI length_append_singleton take_append append_Nil2 diff_is_0_eq' take0)

lemma accounted_within:
  assumes p: "projected_within l B ops" and exact: "ledger_exact l" and own: "ledger_owned l"
    and lim: "B \<noteq> - 1" and dist: "distinct (filter (\<lambda>d. d \<noteq> None) (map ledger_dels ops))"
  shows "accounted (fold apply_ledger_op ops l) \<le> unat B"
proof -
  have "unat B \<noteq> unat (- 1 :: u64)" using lim by (metis word_unat_eq_iff)
  then have B: "unat B < 2 ^ 64 - 1" using unat_le_max [of B] unat_max_word [where 'a = 64] by simp
  have "unat (fold (project_op l) (take n ops) (total_bytes l)) < 2 ^ 64 - 1" if "n \<le> length ops" for n
    using p that B unfolding projected_within_def word_le_nat_alt by (meson le_less_trans)
  then have "unat (total_bytes l) + (\<Sum>op\<leftarrow>ops. put_size (ledger_puts op)) \<le>
      unat (fold (project_op l) ops (total_bytes l)) + (\<Sum>op\<leftarrow>ops. del_size (component_sizes l) (ledger_dels op))"
    by (intro projection_lower) blast
  moreover have "accounted (fold apply_ledger_op ops l) + (\<Sum>op\<leftarrow>ops. del_size (component_sizes l) (ledger_dels op)) \<le>
      accounted l + (\<Sum>op\<leftarrow>ops. put_size (ledger_puts op))"
    using ledger.run_credit [OF own dist] by (simp add: accounted_def)
  moreover have "unat (total_bytes l) = accounted l" using exact by (simp add: ledger_exact_def)
  moreover have "unat (fold (project_op l) ops (total_bytes l)) \<le> unat B"
    using p [unfolded projected_within_def, rule_format, of "length ops"] by (simp add: word_le_nat_alt)
  ultimately show ?thesis by linarith
qed

lemma ledger_op_exact:
  "ledger_exact l \<Longrightarrow> accounted (apply_ledger_op op l) < 2 ^ 64 \<Longrightarrow> ledger_exact (apply_ledger_op op l)"
  by (cases op) (simp_all add: remove_entity_total add_component_exact remove_component_exact,
      simp add: ledger_exact_def accounted_def)

lemma exact_within:
  assumes "projected_within l B ops" and "ledger_exact l" and "ledger_owned l" and "B \<noteq> - 1"
    and "distinct (filter (\<lambda>d. d \<noteq> None) (map ledger_dels ops))"
  shows "ledger_exact (fold apply_ledger_op ops l)"
  using assms
proof (induction ops rule: rev_induct)
  case (snoc op ops)
  have "ledger_exact (fold apply_ledger_op ops l)"
    using snoc.IH [OF projected_within_butlast [OF snoc.prems(1)]] snoc.prems by (auto split: if_splits)
  moreover have "accounted (fold apply_ledger_op (ops @ [op]) l) < 2 ^ 64"
    using accounted_within [OF snoc.prems] unat_le_max [of B] by simp
  ultimately show ?case by (simp add: ledger_op_exact)
qed simp

lemma within_budget_projected:
  assumes "within_budget inst acc" and "0 < memory_budget_bytes (inst_config inst)"
    and "total_bytes (inst_ledger inst) \<le> memory_budget_bytes (inst_config inst)"
  shows "projected_within (inst_ledger inst) (memory_budget_bytes (inst_config inst)) (concat (map ledger_deltas acc))"
  using assms unfolding within_budget_def projected_within_def by (metis fold_simps(1) gr0I take0)

section \<open>Authority of scheduled children\<close>

lemma adds_entries:
  "ofold apply_schedule_delta (map Add es) s = Done t \<Longrightarrow> fmlookup (ready t) k = Some e' \<Longrightarrow>
   fmlookup (ready s) k = Some e' \<or> e' \<in> set es"
proof (induction es arbitrary: s)
  case (Cons e es)
  let ?s = "schedule_with_id (entry_id e) (entry_at e) (entry_actor e) (entry_principal e)
             (caps_ceiling e) (action_type_code e) (action_bytes e) s"
  have "fmlookup (ready ?s) k = Some e' \<or> e' \<in> set es" using Cons by simp
  moreover have "fmlookup (ready s) k = Some e' \<or> e' = e" if "fmlookup (ready ?s) k = Some e'"
    using that by (auto simp: schedule_with_id_def Let_def split: if_splits)
  ultimately show ?case by auto
qed simp

lemma pop_due_entries:
  assumes "pop_due now s = Done (r, t)" and "fmlookup (ready t) k = Some e"
  shows "fmlookup (ready s) k = Some e"
  using assms by (auto simp: pop_due_eq split: option.splits if_splits)

lemma children_confined:
  assumes res: "step_one_core lib iid inst reg scratch now scaps md = Done (core, inst', scratch')"
    and e': "fmlookup (ready (inst_scheduler inst')) k = Some e'"
    and new: "fmlookup (ready (inst_scheduler inst)) k \<noteq> Some e'"
  shows "\<exists>entry sched. pop_due now (inst_scheduler inst) = Done (Some entry, sched) \<and>
    contains (default_caps (inst_config inst)) SYSTEM \<and> contains (caps_ceiling entry) SYSTEM \<and> contains scaps SYSTEM \<and>
    entry_principal entry \<noteq> Unauthenticated \<and> entry_principal e' = entry_principal entry \<and>
    caps_ceiling e' = default_caps (inst_config inst) AND caps_ceiling entry AND scaps"
proof (rule step_one_core_cases [of now inst lib iid reg scratch scaps md], goal_cases)
  case 1
  then show ?case using res e' new by simp
next
  case (2 entry sched reason)
  then show ?case using res e' new pop_due_entries [OF 2(1)] by auto
next
  case (3 entry sched r action eff acc g)
  let ?inst = "inst\<lparr>inst_scheduler := sched\<rparr>"
  have old: "fmlookup (ready sched) k \<noteq> Some e'" using new pop_due_entries [OF 3(1)] by blast
  have nd: "\<not> g_any_denied g" using res 3(8) e' old by (auto simp: finish_step_def)
  then obtain sigs stage2 where a: "apply_stage (g_stage g) ?inst = Done (sigs, inst', stage2)"
    using res 3(8) by (auto simp: finish_step_def Let_def obind_eq_Done)
  from 3(6) obtain es where es: "schedule_deltas (g_stage g) = map Add es"
      "map entry_id es = map (minted (next_scheduled (inst_counters ?inst)) \<circ> Suc) [0..<count_ops schedules acc]"
      "\<forall>e\<in>set es. caps_ceiling e = eff \<and> entry_principal e = entry_principal entry"
    by (rule gate_inv_adds)
  have "ofold apply_schedule_delta (map Add es) sched = Done (inst_scheduler inst')"
    using apply_adds_Done [OF es(1), of ?inst] a
    by (auto simp: advance_local_tick_def advance_wall_remainder_def)
  then have mem: "e' \<in> set es" using adds_entries [OF _ e'] old by blast
  then have "0 < length es" by (rule length_pos_if_in_set)
  moreover have "length es = count_ops schedules acc" using arg_cong [OF es(2), of length] by simp
  ultimately have "count_ops schedules acc \<noteq> 0" by linarith
  then obtain op where op: "op \<in> set acc" "schedules op" by (auto simp: count_ops_def filter_empty_conv)
  from op(2) have "needs_system op" by (cases op) auto
  with op(1) 3(6) have eff: "entry_principal entry \<noteq> Unauthenticated" "contains eff SYSTEM"
    by (auto simp: gate_inv_def)
  moreover have "eff = (default_caps (inst_config inst) AND caps_ceiling entry) AND scaps"
    using 3(4) eff(1) by (cases "entry_principal entry") auto
  ultimately show ?case
    using es(3) mem 3(1) by (auto simp: and.assoc)
qed

section \<open>Rollback\<close>

lemma rollback:
  assumes "step_one_core lib iid inst reg scratch now scaps md = Done (Some core, inst', scratch')"
    and "core_verdict core \<in> {AuthDenied, Skipped Unregistered, Skipped DeserFailed}"
  shows "\<exists>entry sched. pop_due now (inst_scheduler inst) = Done (Some entry, sched) \<and>
    inst' = inst\<lparr>inst_scheduler := sched\<rparr> \<and> core_signals core = [] \<and> core_events core = [] \<and>
    core_applied core = 0 \<and> core_popped_id core = entry_id entry"
proof (rule step_one_core_cases [of now inst lib iid reg scratch scaps md], goal_cases)
  case 1
  then show ?case using assms by simp
next
  case (2 entry sched reason)
  then show ?case using assms by (auto simp: core_without_effects_def)
next
  case (3 entry sched r action eff acc g)
  have "g_any_denied g" using assms 3(8) by (auto simp: finish_step_def Let_def obind_eq_Done split: if_splits prod.splits)
  then show ?case using assms 3(1,8) by (auto simp: finish_step_def core_without_effects_def)
qed

section \<open>A sample instance\<close>

text \<open>
  One entity with two components of 60 and 40 bytes, one due action of type 7, and a registry
  whose action of that type returns a given list of intents.
\<close>

definition sample_registry :: "Op list \<Rightarrow> ActionRegistry" where
  "sample_registry ops = fmupd (TypeCode 7)
     \<lparr>schema_version = 1, deserializer = (\<lambda>v bs. Inr \<lparr>canonical_bytes_dyn = Done bs, compute_dyn = (\<lambda>ctx. ops)\<rparr>)\<rparr> fmempty"
definition sample_entry :: ScheduledEntry where
  "sample_entry = \<lparr>entry_id = ScheduledActionId 1, entry_at = Tick 0, entry_actor = None, entry_principal = System,
     action_type_code = TypeCode 7, action_bytes = [], caps_ceiling = - 1\<rparr>"
definition sample_instance :: "InstanceConfig \<Rightarrow> Instance" where
  "sample_instance cfg = (Instance_new (InstanceId 1) cfg)
     \<lparr>inst_entities := fmupd (EntityId 1) \<lparr>meta_owner = System, meta_created = Tick 0\<rparr> fmempty,
      inst_components := fmupd (EntityId 1, TypeCode 2) [2] (fmupd (EntityId 1, TypeCode 1) [1] fmempty),
      inst_ledger := \<lparr>ledger_entities = {|EntityId 1|},
         component_sizes = fmupd (EntityId 1, TypeCode 2) 40 (fmupd (EntityId 1, TypeCode 1) 60 fmempty), total_bytes = 100\<rparr>,
      inst_counters := \<lparr>next_entity = 1, next_scheduled = 1, next_source_seq = 0\<rparr>,
      inst_scheduler := schedule_with_id (ScheduledActionId 1) (Tick 0) None System (- 1) (TypeCode 7) [] Scheduler_new\<rparr>"

lemma sample_pop:
   "pop_due (Tick 0) (inst_scheduler (sample_instance cfg)) =
   Done (Some sample_entry, (Scheduler_new\<lparr>next_seq := 1, next_id := 1\<rparr>))"
  by (simp add: pop_due_eq sample_instance_def schedule_with_id_def Scheduler_new_def sample_entry_def
      index_insert_def index_remove_def saturating_add_def Let_def)

definition bypass_config :: InstanceConfig where
  "bypass_config = InstanceConfig_default\<lparr>default_caps := - 1, memory_budget_bytes := 100\<rparr>"
definition bypass_ops :: "Op list" where
  "bypass_ops = [RemoveComponent (EntityId 1) (TypeCode 1) 0, RemoveComponent (EntityId 1) (TypeCode 1) 0,
       SetComponent (EntityId 1) (TypeCode 3) [] 100]"

lemma bypass_sizes:
  "component_size (EntityId 1) (TypeCode 1) (inst_ledger (sample_instance cfg)) = Some 60"
  "total_bytes (inst_ledger (sample_instance cfg)) = 100" "inst_config (sample_instance cfg) = cfg"
  by (simp_all add: sample_instance_def component_size_def Instance_new_def)

lemma sat_sample: "saturating_sub (100::u64) 60 = 40" "saturating_sub (40::u64) 60 = 0" "saturating_add (0::u64) 100 = 100"
  by (simp_all add: saturating_sub_def saturating_add_def word_le_nat_alt)

lemma gate_bypass:
  assumes i: "inst = (sample_instance bypass_config)\<lparr>inst_scheduler := sched\<rparr>" and op: "\<not> needs_system op" "\<not> spawns op" 
    and b: "fold (project_op (inst_ledger inst)) (ledger_delta (g_stage g) @ ledger_deltas op) 100 \<le> 100"
  shows "gate_op iid inst System eff now op g = obind (dispatch (Effect iid System op) now eff (g_stage g, g_next_id g)) (\<lambda>(stage, nid).
            Done (g\<lparr>g_stage := stage, g_next_id := nid, g_applied := saturating_add (g_applied g) 1\<rparr>))"
proof -
  have "\<not> schedules op" using op(1) by (cases op) auto
  moreover have "inst_ledger inst = inst_ledger (sample_instance bypass_config)" "inst_config inst = bypass_config"
    using i by (simp_all add: bypass_sizes)
  ultimately show ?thesis using b op
    by (simp add: gate_op_def authorize_eq over_budget_def over_entities_def over_scheduled_def Let_def
       projected_component_bytes_def project_current_eq bypass_sizes bypass_config_def not_less [symmetric])
qed

lemma bypass_gates:
  assumes i: "inst = (sample_instance bypass_config)\<lparr>inst_scheduler := sched\<rparr>"
  shows "\<exists>g. run_gates iid inst System eff now bypass_ops scratch = Done g \<and> \<not> g_any_denied g \<and> g_denied g = 0 \<and>
   ledger_delta (g_stage g) = concat (map ledger_deltas bypass_ops) \<and> schedule_deltas (g_stage g) = []"
proof -
  have l: "inst_ledger inst = inst_ledger (sample_instance bypass_config)" using i by simp
  show ?thesis
    by (simp add: run_gates_def bypass_ops_def gate_bypass [OF i] l bypass_sizes sat_sample dispatch_def StepStage_default_def)
qed

lemma sample_sched_inv: "sched_inv (schedule_with_id (ScheduledActionId 1) (Tick 0) None System (- 1) (TypeCode 7) [] Scheduler_new)"
  by (rule schedule_above_inv(1) [OF sched_inv_new]) (simp_all add: Scheduler_new_def word_less_nat_alt)

lemma sample_ledger: "ledger_exact (inst_ledger (sample_instance cfg))" "ledger_owned (inst_ledger (sample_instance cfg))"
proof -
  have "fmsum unat (fmupd (EntityId 1, TypeCode 2) (40::u64) (fmupd (EntityId 1, TypeCode 1) 60 fmempty)) = 100"
    by (simp add: fmsum_upd fmsum_drop)
  then show "ledger_exact (inst_ledger (sample_instance cfg))"
    by (simp add: ledger_exact_def accounted_def sample_instance_def Instance_new_def)
  show "ledger_owned (inst_ledger (sample_instance cfg))"
    by (auto simp: ledger_owned_def sample_instance_def Instance_new_def)
qed

lemma sample_inv: "instance_inv (sample_instance cfg)"
proof -
  have "instance_sync (sample_instance cfg)"
    using sample_ledger [of cfg]
    by (simp add: instance_sync_def ledger_exact_def) (simp add: sample_instance_def Instance_new_def)
  moreover have "instance_sched (sample_instance cfg)"
    using sample_sched_inv
    by (simp add: instance_sched_def sample_instance_def Instance_new_def)
      (simp add: schedule_with_id_def Let_def Scheduler_new_def saturating_add_def word_less_nat_alt)
  ultimately show ?thesis by (simp add: instance_inv_def)
qed

lemma sample_ops_bounded: "ops_bounded (length ops) (sample_registry ops)"
  by (auto simp: ops_bounded_def sample_registry_def split: if_splits)

definition child_config :: InstanceConfig where
  "child_config = InstanceConfig_default\<lparr>default_caps := - 1\<rparr>"

definition child_entry :: ScheduledEntry where
  "child_entry = \<lparr>entry_id = ScheduledActionId 2, entry_at = Tick 5, entry_actor = None, entry_principal = System,
     action_type_code = TypeCode 7, action_bytes = [9], caps_ceiling = 1\<rparr>"

text \<open>The sample action schedules one child while the session ceiling is the \<open>SYSTEM\<close> bit alone.\<close>

lemma sample_child:
  "\<exists>core inst' s. step_one_core sample_lib (InstanceId 1) (sample_instance child_config)
     (sample_registry [ScheduleAction (Tick 5) None (TypeCode 7) [9]]) StepStage_default (Tick 0) 1 False = Done (core, inst', s) \<and>
   fmlookup (ready (inst_scheduler inst')) (SchedKey (Tick 5) 1 (ScheduledActionId 2)) = Some child_entry"
proof -
  let ?i = "(sample_instance child_config)\<lparr>inst_scheduler := Scheduler_new\<lparr>next_seq := 1, next_id := 1\<rparr>\<rparr>"
  let ?op = "ScheduleAction (Tick 5) None (TypeCode 7) [9]"
  let ?stage = "StepStage_default\<lparr>schedule_deltas := [Add child_entry],
      id_counters := IdCountersDelta_default\<lparr>next_scheduled_advance := 1\<rparr>\<rparr>"
  have n: "next_scheduled (inst_counters (sample_instance child_config)) = 1" "inst_config ?i = child_config" "inst_config (sample_instance child_config) = child_config"
    by (simp_all add: sample_instance_def Instance_new_def)
  have "gate_op (InstanceId 1) ?i System 1 (Tick 0) ?op
      \<lparr>g_stage = StepStage_default, g_next_id = 1, g_any_denied = False, g_applied = 0, g_denied = 0\<rparr> =
    Done \<lparr>g_stage = ?stage, g_next_id = 2, g_any_denied = False, g_applied = 1, g_denied = 0\<rparr>"
    unfolding gate_op_def authorize_eq
    by (simp add: over_budget_def over_entities_def over_scheduled_def bypass_sizes child_config_def InstanceConfig_default_def
        dispatch_def SYSTEM_def StepStage_default_def IdCountersDelta_default_def saturating_add_def child_entry_def
        ScheduledActionId_new_def Let_def)
  then have g: "run_gates (InstanceId 1) ?i System 1 (Tick 0) [?op] StepStage_default =
      Done \<lparr>g_stage = ?stage, g_next_id = 2, g_any_denied = False, g_applied = 1, g_denied = 0\<rparr>"
    by (simp add: run_gates_def n)
  have eff: "effective_caps (default_caps child_config) System (- 1) AND 1 = (1 :: u64)"
    by (simp add: child_config_def)
  have step: "step_one_core sample_lib (InstanceId 1) (sample_instance child_config) (sample_registry [?op])
      StepStage_default (Tick 0) 1 False =
    finish_step sample_lib False sample_entry ?i
      \<lparr>g_stage = ?stage, g_next_id = 2, g_any_denied = False, g_applied = 1, g_denied = 0\<rparr>"
    using g eff n by (simp add: step_one_core_def sample_pop Let_def sample_registry_def registry_get_def)
      (simp add: sample_entry_def)
  show ?thesis unfolding step
    by (simp add: finish_step_def apply_stage_def Let_def StepStage_default_def schedule_with_id_def
       advance_local_tick_def advance_wall_remainder_def child_entry_def)
qed

section \<open>The budget over a whole pop\<close>

definition detaches_once :: "ActionRegistry \<Rightarrow> bool" where
  "detaches_once reg \<longleftrightarrow>
     (\<forall>tc r v bs a ctx. fmlookup reg tc = Some r \<longrightarrow> deserializer r v bs = Inr a \<longrightarrow> distinct (detached (compute_dyn a ctx)))"

lemma distinct_subseq: "subseq xs ys \<Longrightarrow> distinct ys \<Longrightarrow> distinct xs"
  by (induction rule: list_emb.induct) (auto dest: list_emb_set)

lemma subseq_detached: "subseq acc ops \<Longrightarrow> subseq (detached acc) (detached ops)"
proof (induction rule: list_emb.induct)
  case (list_emb_Cons2 x y xs ys)
  then show ?case unfolding detached_def by (auto intro: list_emb_append_mono)
qed (auto simp: detached_def intro: list_emb_append2)

lemma budget_kept:
  assumes "ledger_exact (inst_ledger inst)" and "ledger_owned (inst_ledger inst)"
    and "0 < memory_budget_bytes (inst_config inst)" and "memory_budget_bytes (inst_config inst) \<noteq> - 1"
    and "total_bytes (inst_ledger inst) \<le> memory_budget_bytes (inst_config inst)" and "detaches_once reg"
    and res: "step_one_core lib iid inst reg scratch now scaps md = Done (core, inst', s)"
  shows "ledger_exact (inst_ledger inst') \<and> accounted (inst_ledger inst') \<le> unat (memory_budget_bytes (inst_config inst))"
proof (rule step_one_core_cases [of now inst lib iid reg scratch scaps md], goal_cases)
  case 1
  then show ?case using res assms(1,5) by (auto simp: ledger_exact_def word_le_nat_alt)
next
  case (2 entry sched reason)
  then show ?case using res assms(1,5) by (auto simp: ledger_exact_def word_le_nat_alt)
next
  case (3 entry sched r action eff acc g)
  let ?inst = "inst\<lparr>inst_scheduler := sched\<rparr>"
  show ?case
  proof (cases "g_any_denied g")
    case True
    then show ?thesis using res 3(8) assms(1,5) by (auto simp: finish_step_def ledger_exact_def word_le_nat_alt)
  next
    case False
    then obtain sigs stage2 where a: "apply_stage (g_stage g) ?inst = Done (sigs, inst', stage2)"
      using res 3(8) by (auto simp: finish_step_def Let_def obind_eq_Done)
    have "distinct (detached (compute_dyn action (ActionContext_new (entry_actor entry) now iid ?inst)))"
      using assms(6) 3(2,3) by (auto simp: detaches_once_def registry_get_def)
    then have dist: "distinct (detached acc)"
      using subseq_detached [OF 3(7)] by (rule distinct_subseq [rotated])
    have p: "projected_within (inst_ledger ?inst) (memory_budget_bytes (inst_config ?inst)) (concat (map ledger_deltas acc))"
      using 3(6) assms(3,5) by (intro within_budget_projected) (simp_all add: gate_inv_def)
    note args = p _ _ _ dist [unfolded detached_def]
    show ?thesis
      using accounted_within [OF args] exact_within [OF args] assms committed_instance(3) [OF 3(6) a] by simp
  qed
qed

section \<open>Properties\<close>

text \<open>
  C29 (a pop is total and carries nothing over). On every instance, registry and scratch
  \<open>step_one_core\<close> returns, none of its \<open>expect\<close> calls fires, and the outcome and the resulting
  instance do not depend on what an earlier action left in the reused scratch stage.
\<close>

theorem pop_total_scratch_free:
  "\<exists>core inst' s s'. step_one_core lib iid inst reg scratch now scaps md = Done (core, inst', s) \<and>
     step_one_core lib iid inst reg scratch' now scaps md = Done (core, inst', s')"
proof -
  obtain c i s c' i' s' where r: "step_one_core lib iid inst reg scratch now scaps md = Done (c, i, s)"
      "step_one_core lib iid inst reg scratch' now scaps md = Done (c', i', s')"
    using step_one_core_Done [of lib iid inst reg scratch now scaps md]
      step_one_core_Done [of lib iid inst reg scratch' now scaps md]
    by (cases "step_one_core lib iid inst reg scratch now scaps md";
        cases "step_one_core lib iid inst reg scratch' now scaps md") auto
  with step_one_core_scratch [of lib iid inst reg scratch now scaps md scratch'] show ?thesis by auto
qed

text \<open>
  C5 (a pop keeps the instance consistent). If the entity and component stores agree with the
  ledger, the scheduler's three tables agree and the id counter has room for the intents one
  action can produce, then after a pop, whatever its verdict, all of this still holds and the
  configuration is unchanged: the two separately applied staging passes do not drift apart and no
  scheduled id is ever issued twice.
\<close>

theorem pop_keeps_instance_inv:
  assumes "instance_inv inst" and "ops_bounded M reg" and "unat (next_scheduled (inst_counters inst)) + M < 2 ^ 64"
  shows "\<exists>core inst' s. step_one_core lib iid inst reg scratch now scaps md = Done (core, inst', s) \<and>
     instance_inv inst' \<and> inst_config inst' = inst_config inst \<and>
     unat (next_scheduled (inst_counters inst')) \<le> unat (next_scheduled (inst_counters inst)) + M"
proof -
  obtain core inst' s where "step_one_core lib iid inst reg scratch now scaps md = Done (core, inst', s)"
    using step_one_core_Done [of lib iid inst reg scratch now scaps md]
    by (cases "step_one_core lib iid inst reg scratch now scaps md") auto
  with step_one_core_inv [OF assms this] show ?thesis by blast
qed

theorem pop_keeps_instance_inv_witness:
  "\<exists>core inst' s. step_one_core sample_lib (InstanceId 1) (sample_instance bypass_config) (sample_registry bypass_ops)
       StepStage_default (Tick 0) (- 1) True = Done (core, inst', s) \<and> instance_inv inst'"
  using pop_keeps_instance_inv [OF sample_inv [of bypass_config] sample_ops_bounded [of bypass_ops],
      of sample_lib "InstanceId 1" StepStage_default "Tick 0" "- 1" True]
  by (auto simp: sample_instance_def bypass_ops_def)

text \<open>
  C18 (hard quotas). An instance within its entity and scheduled-action limits (a limit of zero is
  no limit) is within them after any pop.
\<close>

theorem pop_respects_quotas:
  assumes "quotas_ok inst"
  shows "\<exists>core inst' s. step_one_core lib iid inst reg scratch now scaps md = Done (core, inst', s) \<and> quotas_ok inst'"
proof -
  obtain core inst' s where "step_one_core lib iid inst reg scratch now scaps md = Done (core, inst', s)"
    using step_one_core_Done [of lib iid inst reg scratch now scaps md]
    by (cases "step_one_core lib iid inst reg scratch now scaps md") auto
  with step_one_core_quotas [OF assms this] show ?thesis by blast
qed

text \<open>An action that spawns two entities where only one more fits.\<close>

theorem pop_respects_quotas_witness:
  "\<exists>core inst' s. step_one_core sample_lib (InstanceId 1) (sample_instance (InstanceConfig_default\<lparr>max_entities := 2\<rparr>))
       (sample_registry [SpawnEntity (EntityId 2) System, SpawnEntity (EntityId 3) System])
       StepStage_default (Tick 0) (- 1) True = Done (core, inst', s) \<and> quotas_ok inst'"
proof (rule pop_respects_quotas)
  show "quotas_ok (sample_instance (InstanceConfig_default\<lparr>max_entities := 2\<rparr>))"
    by (simp add: quotas_ok_def sample_instance_def Instance_new_def entities_len_def bt_len_upd InstanceConfig_default_def)
qed

text \<open>
  C16 (the byte budget). Take an instance with a positive byte budget (below the largest 64-bit
  value) whose ledger is exact and within the budget, and a registry whose actions never detach
  one component key twice. After any pop the ledger is still exact and the bytes of all attached
  components are within the budget.
\<close>

theorem pop_respects_byte_budget:
  assumes "ledger_exact (inst_ledger inst)" and "ledger_owned (inst_ledger inst)"
    and "0 < memory_budget_bytes (inst_config inst)" and "memory_budget_bytes (inst_config inst) \<noteq> - 1"
    and "total_bytes (inst_ledger inst) \<le> memory_budget_bytes (inst_config inst)" and "detaches_once reg"
  shows "\<exists>core inst' s. step_one_core lib iid inst reg scratch now scaps md = Done (core, inst', s) \<and>
     ledger_exact (inst_ledger inst') \<and> accounted (inst_ledger inst') \<le> unat (memory_budget_bytes (inst_config inst))"
proof -
  obtain core inst' s where "step_one_core lib iid inst reg scratch now scaps md = Done (core, inst', s)"
    using step_one_core_Done [of lib iid inst reg scratch now scaps md]
    by (cases "step_one_core lib iid inst reg scratch now scaps md") auto
  with budget_kept [OF assms this] show ?thesis by blast
qed

theorem pop_respects_byte_budget_witness:
  "\<exists>core inst' s. step_one_core sample_lib (InstanceId 1) (sample_instance bypass_config)
       (sample_registry [RemoveComponent (EntityId 1) (TypeCode 1) 0, SetComponent (EntityId 1) (TypeCode 3) [] 100])
       StepStage_default (Tick 0) (- 1) True = Done (core, inst', s) \<and>
     ledger_exact (inst_ledger inst') \<and> accounted (inst_ledger inst') \<le> 100"
proof -
  let ?ops = "[RemoveComponent (EntityId 1) (TypeCode 1) 0, SetComponent (EntityId 1) (TypeCode 3) [] 100]"
  have "detaches_once (sample_registry ?ops)"
    by (auto simp: detaches_once_def sample_registry_def detached_def split: if_splits)
  from pop_respects_byte_budget [OF sample_ledger [of bypass_config] _ _ _ this]
  show ?thesis by (simp add: bypass_sizes) (simp add: bypass_config_def InstanceConfig_default_def)
qed

text \<open>
  C37 (a repeated removal defeats the budget). The gate credits a removal by the size stored before
  the action, however often the action removes the same key. An action that removes a 60-byte
  component twice and then attaches 100 bytes passes a budget of 100 on an instance that holds 100
  bytes, and leaves it with 140.
\<close>

theorem repeated_remove_bypasses_budget:
  "\<exists>core inst' s. step_one_core sample_lib (InstanceId 1) (sample_instance bypass_config) (sample_registry bypass_ops)
       scratch (Tick 0) scaps False = Done (Some core, inst', s) \<and>
     core_verdict core = Committed \<and> memory_budget_bytes (inst_config inst') = 100 \<and> total_bytes (inst_ledger inst') = 140"
proof -
  let ?inst = "(sample_instance bypass_config)\<lparr>inst_scheduler := Scheduler_new\<lparr>next_seq := 1, next_id := 1\<rparr>\<rparr>"
  let ?eff = "effective_caps (default_caps (inst_config (sample_instance bypass_config))) System (- 1) AND scaps"
  obtain g where g: "run_gates (InstanceId 1) ?inst System ?eff (Tick 0) bypass_ops scratch = Done g"
      "\<not> g_any_denied g" "g_denied g = 0" "ledger_delta (g_stage g) = concat (map ledger_deltas bypass_ops)"
      "schedule_deltas (g_stage g) = []"
    using bypass_gates [OF refl] by blast
  have st: "step_one_core sample_lib (InstanceId 1) (sample_instance bypass_config) (sample_registry bypass_ops)
      scratch (Tick 0) scaps False = finish_step sample_lib False sample_entry ?inst g"
    using g(1) by (simp add: step_one_core_def sample_pop Let_def sample_registry_def registry_get_def)
      (simp add: sample_entry_def)
  have l: "total_bytes (fold apply_ledger_op (concat (map ledger_deltas bypass_ops)) (inst_ledger (sample_instance bypass_config))) = 140"
    by (simp add: bypass_ops_def sample_instance_def Instance_new_def remove_component_def add_component_def Let_def
        saturating_sub_def saturating_add_def word_le_nat_alt)
  obtain s where s: "apply_stage (g_stage g) ?inst = Done (pending_signals (g_stage g),
      advance_local_tick (local_tick_delta (g_stage g)) (advance_wall_remainder (wall_remainder_delta (g_stage g))
       ((fold apply_state_op (state_ops (g_stage g)) (?inst\<lparr>inst_counters := apply_counters (id_counters (g_stage g)) (inst_counters ?inst)\<rparr>))
          \<lparr>inst_ledger := fold apply_ledger_op (ledger_delta (g_stage g)) (inst_ledger ?inst), inst_scheduler := s\<rparr>)),
      (g_stage g)\<lparr>state_ops := [], ledger_delta := [], schedule_deltas := [], pending_signals := []\<rparr>)"
    using apply_adds_Done [of "g_stage g" "[]" ?inst] g(5) by auto
  show ?thesis
    unfolding st using g(2,3,4) l s
    by (simp add: finish_step_def Let_def advance_local_tick_def advance_wall_remainder_def bypass_sizes)
      (simp add: bypass_config_def)
qed

text \<open>
  C10 (no time-shifted escalation). An entry that a pop adds to the scheduler carries the principal
  of the action that scheduled it and, as its ceiling, exactly the intersection of the instance's
  grant, the parent's own ceiling and the operator's session ceiling; and all three contain the
  \<open>SYSTEM\<close> bit. So authority only narrows from parent to child, whatever ceiling is in force when
  the child runs.
\<close>

theorem scheduled_child_confined:
  assumes "step_one_core lib iid inst reg scratch now scaps md = Done (core, inst', scratch')"
    and "fmlookup (ready (inst_scheduler inst')) k = Some child"
    and "fmlookup (ready (inst_scheduler inst)) k \<noteq> Some child"
  shows "\<exists>parent sched. pop_due now (inst_scheduler inst) = Done (Some parent, sched) \<and>
    contains (default_caps (inst_config inst)) SYSTEM \<and> contains (caps_ceiling parent) SYSTEM \<and> contains scaps SYSTEM \<and>
    entry_principal parent \<noteq> Unauthenticated \<and> entry_principal child = entry_principal parent \<and>
    caps_ceiling child = default_caps (inst_config inst) AND caps_ceiling parent AND scaps"
  using assms by (rule children_confined)

theorem scheduled_child_confined_witness:
  "contains (default_caps child_config) SYSTEM \<and> entry_principal child_entry = System \<and>
   caps_ceiling child_entry = default_caps child_config AND caps_ceiling sample_entry AND 1"
proof -
  obtain core inst' s where r: "step_one_core sample_lib (InstanceId 1) (sample_instance child_config)
     (sample_registry [ScheduleAction (Tick 5) None (TypeCode 7) [9]]) StepStage_default (Tick 0) 1 False = Done (core, inst', s)"
   "fmlookup (ready (inst_scheduler inst')) (SchedKey (Tick 5) 1 (ScheduledActionId 2)) = Some child_entry"
    using sample_child by blast
  have "fmlookup (ready (inst_scheduler (sample_instance child_config))) (SchedKey (Tick 5) 1 (ScheduledActionId 2)) \<noteq> Some child_entry"
    by (simp add: sample_instance_def schedule_with_id_def Let_def Scheduler_new_def)
  from scheduled_child_confined [OF r this] show ?thesis
    by (auto simp: sample_pop bypass_sizes) (simp_all add: sample_entry_def)
qed

text \<open>
  C17 (denied and skipped actions leave no trace but the pop). When an intent is not authorized, or
  the action is unknown or does not decode, the instance afterwards is the instance before with
  the popped entry removed from its scheduler, and no signal or event leaves the step.
\<close>

theorem denied_pop_rolls_back:
  assumes "step_one_core lib iid inst reg scratch now scaps md = Done (Some core, inst', scratch')"
    and "core_verdict core \<in> {AuthDenied, Skipped Unregistered, Skipped DeserFailed}"
  shows "\<exists>entry sched. pop_due now (inst_scheduler inst) = Done (Some entry, sched) \<and>
    inst' = inst\<lparr>inst_scheduler := sched\<rparr> \<and> core_signals core = [] \<and> core_events core = [] \<and>
    core_applied core = 0 \<and> core_popped_id core = entry_id entry"
  using assms by (rule rollback)

theorem denied_pop_rolls_back_witness:
  "\<exists>entry sched. pop_due (Tick 0) (inst_scheduler (sample_instance bypass_config)) = Done (Some entry, sched) \<and>
     (sample_instance bypass_config)\<lparr>inst_scheduler := Scheduler_new\<lparr>next_seq := 1, next_id := 1\<rparr>\<rparr> =
       (sample_instance bypass_config)\<lparr>inst_scheduler := sched\<rparr>"
proof -
  let ?i = "(sample_instance bypass_config)\<lparr>inst_scheduler := Scheduler_new\<lparr>next_seq := 1, next_id := 1\<rparr>\<rparr>"
  have "step_one_core sample_lib (InstanceId 1) (sample_instance bypass_config) fmempty StepStage_default (Tick 0) 0 True =
      Done (Some (core_without_effects sample_lib True sample_entry (Skipped Unregistered) 0 ?i), ?i, StepStage_default)"
    by (simp add: step_one_core_def sample_pop registry_get_def Let_def)
  from denied_pop_rolls_back [OF this] show ?thesis by (auto simp: core_without_effects_def)
qed

end
