(* ===== verification/Kernel_Refine.thy ===== *)
theory Kernel_Refine
  imports Step_Core
begin

text \<open>
  The kernel without its observers. \<open>pure_process\<close> and \<open>pure_step\<close> are the specification of
  \<open>process_instance_record\<close> and \<open>step\<close> on the instance map alone: which instance map results, and
  which facts are logged. The refinement lemmas show that the detailed functions compute exactly
  this, whatever the observers do, and never panic. From it follow that steps, pops and admissions keep
  the invariant of the instances and the hard limits, and that the signal router is a bounded queue.
\<close>

section \<open>The observer-free kernel\<close>

definition route_pure ::
  "InstanceId \<Rightarrow> PendingSignal \<Rightarrow> (InstanceId, Instance) fmap \<Rightarrow> (InstanceId, Instance) fmap" where
  "route_pure from sg insts =
     (case fmlookup insts (pending_target sg) of
        None \<Rightarrow> insts
      | Some target \<Rightarrow>
          if inbox_full (pending_route sg) target then insts
          else fmupd (pending_target sg) (accept_signal from sg target) insts)"

definition pure_core ::
  "'z DigestLib_scheme \<Rightarrow> ActionRegistry \<Rightarrow> Tick \<Rightarrow> CapabilityMask \<Rightarrow> bool \<Rightarrow> InstanceId \<Rightarrow> Instance \<Rightarrow> StepCore option \<times> Instance" where
  "pure_core lib reg now scaps md iid inst =
     (case step_one_core lib iid inst reg StepStage_default now scaps md of
        Done (c, inst', _) \<Rightarrow> (c, inst') | Panic \<Rightarrow> (None, inst))"

definition pure_process ::
  "'z DigestLib_scheme \<Rightarrow> ActionRegistry \<Rightarrow> Tick \<Rightarrow> CapabilityMask \<Rightarrow> bool \<Rightarrow> InstanceId \<Rightarrow> (InstanceId, Instance) fmap
    \<Rightarrow> StepCore option \<times> (InstanceId, Instance) fmap" where
  "pure_process lib reg now scaps md iid insts =
     (case fmlookup insts iid of
        None \<Rightarrow> (None, insts)
      | Some inst \<Rightarrow>
          (case pure_core lib reg now scaps md iid inst of
             (None, inst') \<Rightarrow> (None, fmupd iid inst' insts)
           | (Some c, inst') \<Rightarrow> (Some c, fold (route_pure iid) (core_signals c) (fmupd iid inst' insts))))"

text \<open>The facts of one pop, as the log records them.\<close>

fun pure_step ::
  "'z DigestLib_scheme \<Rightarrow> ActionRegistry \<Rightarrow> Tick \<Rightarrow> CapabilityMask \<Rightarrow> bool \<Rightarrow> InstanceId list \<Rightarrow> (InstanceId, Instance) fmap
    \<Rightarrow> (InstanceId \<times> StepCore) list \<times> (InstanceId, Instance) fmap" where
  "pure_step lib reg now scaps md [] insts = ([], insts)"
| "pure_step lib reg now scaps md (iid # ids) insts =
     (let (res, insts1) = pure_process lib reg now scaps md iid insts;
          (log, insts2) = pure_step lib reg now scaps md ids insts1
      in (case res of None \<Rightarrow> log | Some c \<Rightarrow> (iid, c) # log, insts2))"

definition result_of :: "StepCore \<Rightarrow> u32 \<Rightarrow> InstanceStepResult" where
  "result_of c n =
     \<lparr>result_popped_id = core_popped_id c, result_verdict = core_verdict c, result_digest = core_digest c,
      result_applied = core_applied c, result_denied = core_denied c, result_domain_events = core_domain_events c,
      result_evicted = n\<rparr>"

section \<open>Refinement\<close>

text \<open>Two kernels, possibly with observers of different types, that agree on all but observers and scratch.\<close>

definition same_core :: "'o Kernel \<Rightarrow> 'p Kernel \<Rightarrow> bool" where
  "same_core k k' \<longleftrightarrow> instances k = instances k' \<and> action_registry k = action_registry k' \<and>
     next_instance_id k = next_instance_id k' \<and> kernel_manifest_digest k = kernel_manifest_digest k' \<and> wal k = wal k'"

definition rest_of :: "'o Kernel \<Rightarrow> ActionRegistry \<times> u64 \<times> bytes \<times> WalWriter option" where
  "rest_of k = (action_registry k, next_instance_id k, kernel_manifest_digest k, wal k)"

lemma deliver_counted_frame [simp]:
  "instances (snd (deliver_counted oe ev st)) = instances (snd st)"
  "rest_of (snd (deliver_counted oe ev st)) = rest_of (snd st)"
  by (simp_all add: deliver_counted_def rest_of_def case_prod_beta Let_def)

lemma deliver_all_frame [simp]:
  "instances (snd (fold (deliver_counted oe) evs st)) = instances (snd st)"
  "rest_of (snd (fold (deliver_counted oe) evs st)) = rest_of (snd st)"
  by (induction evs arbitrary: st) simp_all

lemma route_one_frame:
  "instances (snd (route_one oe from sg st)) = route_pure from sg (instances (snd st))"
  "rest_of (snd (route_one oe from sg st)) = rest_of (snd st)"
  by (cases st; simp add: route_one_def route_pure_def Let_def rest_of_def [of "_\<lparr>instances := _\<rparr>"] split: option.splits;
      simp add: rest_of_def)+

lemma route_all_frame:
  "instances (snd (fold (route_one oe from) sgs st)) = fold (route_pure from) sgs (instances (snd st))"
  "rest_of (snd (fold (route_one oe from) sgs st)) = rest_of (snd st)"
  by (induction sgs arbitrary: st) (simp_all add: route_one_frame)

lemma pure_core_eq:
  "\<exists>s. step_one_core lib iid inst reg scratch now scaps md =
     Done (fst (pure_core lib reg now scaps md iid inst), snd (pure_core lib reg now scaps md iid inst), s)"
proof -
  obtain c i s where a: "step_one_core lib iid inst reg scratch now scaps md = Done (c, i, s)"
    using step_one_core_Done [of lib iid inst reg scratch now scaps md]
    by (cases "step_one_core lib iid inst reg scratch now scaps md") auto
  obtain c' i' s' where b: "step_one_core lib iid inst reg StepStage_default now scaps md = Done (c', i', s')"
    using step_one_core_Done [of lib iid inst reg StepStage_default now scaps md]
    by (cases "step_one_core lib iid inst reg StepStage_default now scaps md") auto
  from step_one_core_scratch [of lib iid inst reg scratch now scaps md StepStage_default] a b
  show ?thesis by (simp add: pure_core_def)
qed

lemma process_refines:
  "\<exists>n k'. process_instance_record lib oe iid now scaps md k =
      Done (map_option (\<lambda>c. result_of c n) (fst (pure_process lib (action_registry k) now scaps md iid (instances k))), k') \<and>
    instances k' = snd (pure_process lib (action_registry k) now scaps md iid (instances k)) \<and> rest_of k' = rest_of k"
proof (cases "fmlookup (instances k) iid")
  case None
  then show ?thesis by (simp add: process_instance_record_def pure_process_def)
next
  case (Some inst)
  obtain c inst' where pc: "pure_core lib (action_registry k) now scaps md iid inst = (c, inst')" by fastforce
  with pure_core_eq [of lib iid inst "action_registry k" "step_scratch k" now scaps md]
  obtain s where s: "step_one_core lib iid inst (action_registry k) (step_scratch k) now scaps md = Done (c, inst', s)"
    by auto
  let ?k1 = "k\<lparr>instances := fmupd iid inst' (instances k), step_scratch := s\<rparr>"
  show ?thesis
  proof (cases c)
    case None
    with Some s pc show ?thesis
      by (simp add: process_instance_record_def pure_process_def rest_of_def Let_def)
  next
    case c: (Some core)
    define st2 where "st2 = fold (deliver_counted oe) (core_events core) (0, ?k1)"
    define st3 where "st3 = (case core_verdict core of
        Committed \<Rightarrow> deliver_counted oe (ActionExecuted iid (core_action_type core) now) st2
      | BudgetPartial _ \<Rightarrow> deliver_counted oe (ActionExecuted iid (core_action_type core) now) st2
      | _ \<Rightarrow> st2)"
    obtain n k4 where st4: "fold (route_one oe iid) (core_signals core) st3 = (n, k4)" by fastforce
    have i3: "instances (snd st3) = fmupd iid inst' (instances k)" "rest_of (snd st3) = rest_of k"
      by (simp_all add: st3_def st2_def split: StepVerdict.splits) (simp_all add: rest_of_def)
    have k4: "instances k4 = fold (route_pure iid) (core_signals core) (fmupd iid inst' (instances k))"
      "rest_of k4 = rest_of k"
      using route_all_frame [of oe iid "core_signals core" st3] st4 i3 by simp_all
    have "process_instance_record lib oe iid now scaps md k = Done (Some (result_of core n), k4)"
      using Some s c st4
      by (simp add: process_instance_record_def result_of_def Let_def st3_def st2_def cong: StepVerdict.case_cong)
    then show ?thesis using Some pc c k4 by (auto simp: pure_process_def)
  qed
qed

subsection \<open>The step loop\<close>

definition log_core :: "'z WalLib_scheme \<Rightarrow> Tick \<Rightarrow> CapabilityMask \<Rightarrow> InstanceId \<times> StepCore \<Rightarrow> WalWriter \<Rightarrow> WalWriter" where
  "log_core lib now caps ic w =
     snd (append_step lib (fst ic) (core_popped_id (snd ic)) now caps (core_verdict (snd ic)) (core_digest (snd ic)) w)"

lemma rest_of_wal: "rest_of (k\<lparr>wal := w\<rparr>) = (action_registry k, next_instance_id k, kernel_manifest_digest k, w)"
  by (simp add: rest_of_def)

lemma step_loop_refines:
  assumes "rest_of k = (reg, ni, mdg, w)"
  shows "\<exists>rep' k'. ofold (step_instance lib oe now caps md) ids (rep, k) = Done (rep', k') \<and>
    instances k' = snd (pure_step lib reg now caps md ids (instances k)) \<and>
    rest_of k' = (reg, ni, mdg, map_option (fold (log_core lib now caps) (fst (pure_step lib reg now caps md ids (instances k)))) w)"
  using assms
proof (induction ids arbitrary: rep k w)
  case Nil
  then show ?case by (simp add: option.map_ident)
next
  case (Cons iid ids)
  have reg: "action_registry k = reg" using Cons.prems by (simp add: rest_of_def)
  obtain res insts1 where pp: "pure_process lib reg now caps md iid (instances k) = (res, insts1)" by fastforce
  obtain n k1 where k1: "process_instance_record lib oe iid now caps md k = Done (map_option (\<lambda>c. result_of c n) res, k1)"
      "instances k1 = insts1" "rest_of k1 = (reg, ni, mdg, w)"
    using process_refines [of lib oe iid now caps md k] Cons.prems reg pp by auto
  obtain log insts2 where ps: "pure_step lib reg now caps md ids insts1 = (log, insts2)" by fastforce
  have w1: "wal k1 = w" "action_registry k1 = reg" "next_instance_id k1 = ni" "kernel_manifest_digest k1 = mdg"
    using k1(3) by (simp_all add: rest_of_def)
  show ?case
  proof (cases res)
    case None
    then have "step_instance lib oe now caps md iid (rep, k) = Done (rep, k1)" using k1(1) by (simp add: step_instance_def)
    then show ?thesis using Cons.IH [OF k1(3), of rep] None pp ps k1(2) by simp
  next
    case (Some c)
    let ?k2 = "k1\<lparr>wal := map_option (log_core lib now caps (iid, c)) (wal k1)\<rparr>"
    have "step_instance lib oe now caps md iid (rep, k) = Done (add_result (result_of c n) rep, ?k2)"
      using k1(1) Some by (simp add: step_instance_def result_of_def log_core_def [abs_def])
    moreover have "rest_of ?k2 = (reg, ni, mdg, map_option (log_core lib now caps (iid, c)) w)"
      using w1 by (simp add: rest_of_wal)
    ultimately show ?thesis
      using Cons.IH [of ?k2 "map_option (log_core lib now caps (iid, c)) w" "add_result (result_of c n) rep"]
        Some pp ps k1(2) by (simp add: option.map_comp comp_def)
  qed
qed

lemma step_refines:
  "\<exists>rep k'. step lib oe now caps k = Done (rep, k') \<and>
     instances k' = snd (pure_step lib (action_registry k) now caps (wal k \<noteq> None) (bt_keys (instances k)) (instances k)) \<and>
     rest_of k' = (action_registry k, next_instance_id k, kernel_manifest_digest k,
       map_option (fold (log_core lib now caps)
         (fst (pure_step lib (action_registry k) now caps (wal k \<noteq> None) (bt_keys (instances k)) (instances k)))) (wal k))"
  unfolding step_def by (rule step_loop_refines) (simp add: rest_of_def)

section \<open>The invariant of the whole kernel\<close>

text \<open>
  Every instance is consistent, sits under its own id and has issued at most \<open>bound iid\<close> scheduled
  ids.
\<close>

definition insts_inv :: "(InstanceId \<Rightarrow> nat) \<Rightarrow> (InstanceId, Instance) fmap \<Rightarrow> bool" where
  "insts_inv bound insts \<longleftrightarrow>
     (\<forall>iid inst. fmlookup insts iid = Some inst \<longrightarrow>
        instance_inv inst \<and> inst_id inst = iid \<and> unat (next_scheduled (inst_counters inst)) \<le> bound iid)"

lemma insts_inv_mono: "insts_inv f insts \<Longrightarrow> (\<And>i. f i \<le> g i) \<Longrightarrow> insts_inv g insts"
  unfolding insts_inv_def by (meson le_trans)

lemma insts_inv_upd:
  "insts_inv b insts \<Longrightarrow> instance_inv inst \<Longrightarrow> inst_id inst = iid \<Longrightarrow>
   unat (next_scheduled (inst_counters inst)) \<le> b iid \<Longrightarrow> insts_inv b (fmupd iid inst insts)"
  by (auto simp: insts_inv_def)

lemma accept_signal_frame:
  "inst_scheduler (accept_signal from sg t) = inst_scheduler t" "inst_counters (accept_signal from sg t) = inst_counters t"
  "inst_ledger (accept_signal from sg t) = inst_ledger t" "inst_entities (accept_signal from sg t) = inst_entities t"
  "inst_components (accept_signal from sg t) = inst_components t" "inst_config (accept_signal from sg t) = inst_config t"
  "inst_id (accept_signal from sg t) = inst_id t"
  by (simp_all add: accept_signal_def Let_def deliver_signal_def)

lemma accept_signal_inv: "instance_inv (accept_signal from sg t) = instance_inv t"
  by (simp add: instance_inv_def instance_sync_def instance_sched_def accept_signal_frame)

lemma route_pure_inv: "insts_inv b insts \<Longrightarrow> insts_inv b (route_pure from sg insts)"
  by (auto simp: insts_inv_def route_pure_def accept_signal_inv accept_signal_frame split: option.splits)

lemma route_fold_inv: "insts_inv b insts \<Longrightarrow> insts_inv b (fold (route_pure from) sgs insts)"
  by (induction sgs arbitrary: insts) (simp_all add: route_pure_inv)

lemma pure_core_inv:
  assumes "instance_inv inst" and "ops_bounded M reg" and "unat (next_scheduled (inst_counters inst)) + M < 2 ^ 64"
    and "pure_core lib reg now scaps md iid inst = (c, inst')"
  shows "instance_inv inst' \<and> inst_id inst' = inst_id inst \<and>
    unat (next_scheduled (inst_counters inst')) \<le> unat (next_scheduled (inst_counters inst)) + M"
proof -
  obtain s where "step_one_core lib iid inst reg StepStage_default now scaps md = Done (c, inst', s)"
    using pure_core_eq [of lib iid inst reg StepStage_default now scaps md] assms(4) by auto
  from step_one_core_inv [OF assms(1-3) this] show ?thesis by blast
qed

lemma pure_process_inv:
  assumes "insts_inv b insts" and "ops_bounded M reg" and "b iid + M < 2 ^ 64"
  shows "insts_inv (b(iid := b iid + M)) (snd (pure_process lib reg now scaps md iid insts))"
proof (cases "fmlookup insts iid")
  case None
  then show ?thesis using insts_inv_mono [OF assms(1)] by (simp add: pure_process_def)
next
  case (Some inst)
  obtain c inst' where pc: "pure_core lib reg now scaps md iid inst = (c, inst')" by fastforce
  have inst: "instance_inv inst" "inst_id inst = iid" "unat (next_scheduled (inst_counters inst)) \<le> b iid"
    using assms(1) Some by (auto simp: insts_inv_def)
  with pure_core_inv [OF inst(1) assms(2) _ pc] assms(3)
  have "instance_inv inst'" "inst_id inst' = iid" "unat (next_scheduled (inst_counters inst')) \<le> b iid + M" by auto
  then have "insts_inv (b(iid := b iid + M)) (fmupd iid inst' insts)"
    using assms(1) by (auto simp: insts_inv_def)
  then show ?thesis using Some pc by (auto simp: pure_process_def route_fold_inv split: option.splits)
qed

lemma pure_step_inv:
  assumes "insts_inv b insts" and "ops_bounded M reg" and "\<And>i. b i + M < 2 ^ 64" and "distinct ids"
  shows "insts_inv (\<lambda>i. b i + (if i \<in> set ids then M else 0)) (snd (pure_step lib reg now scaps md ids insts))"
proof -
  have "insts_inv (\<lambda>i. b i + (if i \<in> set ids then M else 0)) (snd (pure_step lib reg now scaps md ids insts))"
    if "insts_inv b insts" "\<And>i. i \<in> set ids \<Longrightarrow> b i + M < 2 ^ 64" "distinct ids" for b ids insts
    using that
  proof (induction ids arbitrary: b insts)
    case (Cons iid ids)
    obtain res insts1 where pp: "pure_process lib reg now scaps md iid insts = (res, insts1)" by fastforce
    have "insts_inv (b(iid := b iid + M)) insts1"
      using pure_process_inv [OF Cons.prems(1) assms(2)] Cons.prems(2) pp by (metis list.set_intros(1) snd_conv)
    then have "insts_inv (\<lambda>i. (b(iid := b iid + M)) i + (if i \<in> set ids then M else 0))
        (snd (pure_step lib reg now scaps md ids insts1))"
      using Cons.prems(2,3) by (intro Cons.IH) (auto simp: fun_upd_def)
    then have "insts_inv (\<lambda>i. b i + (if i \<in> set (iid # ids) then M else 0)) (snd (pure_step lib reg now scaps md ids insts1))"
      using Cons.prems(3) by (elim insts_inv_mono) auto
    then show ?case using pp by (simp add: Let_def case_prod_beta)
  qed simp
  then show ?thesis using assms by blast
qed

lemma submit_inst_inv:
  assumes "instance_inv inst" and "unat (next_scheduled (inst_counters inst)) + 1 < 2 ^ 64"
  defines "n \<equiv> saturating_add (next_scheduled (inst_counters inst)) 1"
  shows "instance_inv (admit (ScheduledActionId n) prin actor caps at tc bs n inst)"
    and "unat n = unat (next_scheduled (inst_counters inst)) + 1"
proof -
  show n: "unat n = unat (next_scheduled (inst_counters inst)) + 1"
    using assms(2) by (simp add: n_def sat_simps)
  have i: "sched_inv (inst_scheduler inst)" "next_id (inst_scheduler inst) < n" "next_seq (inst_scheduler inst) < n"
    using assms(1) n by (auto simp: instance_inv_def instance_sched_def word_le_nat_alt word_less_nat_alt)
  from schedule_above_inv [of "inst_scheduler inst" "ScheduledActionId n"] i
  show "instance_inv (admit (ScheduledActionId n) prin actor caps at tc bs n inst)"
    using assms(1) by (simp add: instance_inv_def instance_sync_def instance_sched_def admit_def)
qed

section \<open>Hard limits\<close>

definition limits_ok :: "Instance \<Rightarrow> bool" where
  "limits_ok inst \<longleftrightarrow> quotas_ok inst \<and>
     (0 < max_inbox_per_route (inst_config inst) \<longrightarrow>
        (\<forall>route. inbox_len route inst \<le> unat (max_inbox_per_route (inst_config inst))))"

definition all_limits :: "(InstanceId, Instance) fmap \<Rightarrow> bool" where
  "all_limits insts \<longleftrightarrow> (\<forall>iid inst. fmlookup insts iid = Some inst \<longrightarrow> limits_ok inst)"

lemma limits_core:
  assumes "limits_ok inst" and "pure_core lib reg now scaps md iid inst = (c, inst')"
  shows "limits_ok inst'"
proof -
  obtain s where s: "step_one_core lib iid inst reg StepStage_default now scaps md = Done (c, inst', s)"
    using pure_core_eq [of lib iid inst reg StepStage_default now scaps md] assms(2) by auto
  have "inbox_len route inst' = inbox_len route inst" for route
    by (simp add: inbox_len_def step_one_core_frame(2) [OF s])
  with assms(1) step_one_core_quotas [OF _ s] step_one_core_frame(1) [OF s] show ?thesis by (auto simp: limits_ok_def)
qed

lemma limits_accept:
  assumes "limits_ok t" and "\<not> inbox_full (pending_route sg) t"
  shows "limits_ok (accept_signal from sg t)"
proof -
  have "inbox_len route (accept_signal from sg t) = inbox_len route t + (if route = pending_route sg then 1 else 0)" for route
    by (simp add: inbox_len_def accept_signal_def deliver_signal_def Let_def split: option.splits)
  with assms show ?thesis
    by (auto simp: limits_ok_def quotas_ok_def accept_signal_frame entities_len_def inbox_full_def Let_def)
qed

lemma limits_route: "all_limits insts \<Longrightarrow> all_limits (fold (route_pure from) sgs insts)"
proof (induction sgs arbitrary: insts)
  case (Cons sg sgs)
  have "all_limits (route_pure from sg insts)"
    using Cons.prems by (auto simp: all_limits_def route_pure_def limits_accept split: option.splits)
  then show ?case using Cons.IH by simp
qed simp

lemma limits_process: "all_limits insts \<Longrightarrow> all_limits (snd (pure_process lib reg now scaps md iid insts))"
proof (cases "fmlookup insts iid")
  case (Some inst)
  assume a: "all_limits insts"
  obtain c inst' where pc: "pure_core lib reg now scaps md iid inst = (c, inst')" by fastforce
  have "limits_ok inst'" using limits_core [OF _ pc] a Some by (auto simp: all_limits_def)
  with a have "all_limits (fmupd iid inst' insts)" by (auto simp: all_limits_def)
  then show ?thesis using Some pc by (auto simp: pure_process_def limits_route split: option.splits)
qed (simp add: pure_process_def)

lemma limits_step: "all_limits insts \<Longrightarrow> all_limits (snd (pure_step lib reg now scaps md ids insts))"
proof (induction ids arbitrary: insts)
  case (Cons iid ids)
  from Cons.IH [OF limits_process [OF Cons.prems]] show ?case by (simp add: Let_def case_prod_beta)
qed simp

lemma limits_new: "limits_ok (Instance_new iid config)"
  by (simp add: limits_ok_def quotas_ok_def Instance_new_def entities_len_def sched_len_def Scheduler_new_def inbox_len_def)

lemma limits_admit:
  assumes "limits_ok inst" and "\<not> (0 < max_scheduled (inst_config inst) \<and>
      unat (max_scheduled (inst_config inst)) \<le> sched_len (inst_scheduler inst))"
  shows "limits_ok (admit sid prin actor caps at tc bs n inst)"
proof -
  have "sched_len (schedule_with_id sid at actor prin caps tc bs (inst_scheduler inst)) \<le> Suc (sched_len (inst_scheduler inst))"
    by (simp add: sched_len_def schedule_with_id_def Let_def bt_len_upd)
  with assms show ?thesis
    by (auto simp: limits_ok_def quotas_ok_def admit_def entities_len_def inbox_len_def)
qed

section \<open>Creation and admission\<close>

lemma create_instance_eq:
  "create_instance config k =
     Done (InstanceId (saturating_add (next_instance_id k) 1),
           k\<lparr>next_instance_id := saturating_add (next_instance_id k) 1,
             instances := fmupd (InstanceId (saturating_add (next_instance_id k) 1))
               (Instance_new (InstanceId (saturating_add (next_instance_id k) 1)) config) (instances k)\<rparr>)"
  by (simp add: create_instance_def Let_def)

lemma submit_cases:
  obtains (none) "fmlookup (instances k) iid = None" "submit lib iid prin actor caps at tc bs k = Done (Inl InstanceNotFound, k)"
  | (full) inst where "fmlookup (instances k) iid = Some inst" "0 < max_scheduled (inst_config inst)"
      "unat (max_scheduled (inst_config inst)) \<le> sched_len (inst_scheduler inst)"
      "submit lib iid prin actor caps at tc bs k = Done (Inl QuotaExceeded, k)"
  | (ok) inst n where "fmlookup (instances k) iid = Some inst"
      "\<not> (0 < max_scheduled (inst_config inst) \<and> unat (max_scheduled (inst_config inst)) \<le> sched_len (inst_scheduler inst))"
      "n = saturating_add (next_scheduled (inst_counters inst)) 1"
      "submit lib iid prin actor caps at tc bs k = Done (Inr (ScheduledActionId n),
         k\<lparr>instances := fmupd iid (admit (ScheduledActionId n) prin actor caps at tc bs n inst) (instances k),
           wal := map_option (\<lambda>w. snd (append_submit lib iid prin actor caps at tc bs (ScheduledActionId n) w)) (wal k)\<rparr>)"
proof (cases "fmlookup (instances k) iid")
  case None
  then show thesis by (intro none) (simp_all add: submit_def)
next
  case (Some inst)
  show thesis
  proof (cases "0 < max_scheduled (inst_config inst) \<and> unat (max_scheduled (inst_config inst)) \<le> sched_len (inst_scheduler inst)")
    case True
    with Some show thesis by (intro full [of inst]) (simp_all add: submit_def Let_def)
  next
    case False
    with Some show thesis
      by (intro ok [of inst "saturating_add (next_scheduled (inst_counters inst)) 1"]) (auto simp: submit_def Let_def)
  qed
qed

section \<open>The log a kernel holds\<close>

lemma log_core_written: "written lib wid mdigest cls w \<Longrightarrow> written lib wid mdigest cls (fold (log_core lib now caps) log w)"
  by (induction log arbitrary: w) (simp_all add: log_core_def written.step)

section \<open>The signal router as a bounded queue\<close>

text \<open>A route's inbox as a list, what a signal says apart from its number, and the signals for one route.\<close>

definition inbox :: "RouteId \<Rightarrow> Instance \<Rightarrow> InboundSignal list" where
  "inbox route inst = (case fmlookup (signal_inbox inst) route of None \<Rightarrow> [] | Some q \<Rightarrow> q)"

definition sent :: "InstanceId \<Rightarrow> PendingSignal \<Rightarrow> InstanceId \<times> Principal \<times> bytes" where
  "sent from sg = (from, pending_principal sg, pending_payload sg)"

definition received :: "InboundSignal \<Rightarrow> InstanceId \<times> Principal \<times> bytes" where
  "received s = (sig_from s, sig_principal s, sig_payload s)"

definition addressed :: "InstanceId \<Rightarrow> RouteId \<Rightarrow> PendingSignal list \<Rightarrow> PendingSignal list" where
  "addressed t route sgs = filter (\<lambda>sg. pending_target sg = t \<and> pending_route sg = route) sgs"

text \<open>The part of a queue that still fits into a route's inbox.\<close>

definition fitting :: "Instance \<Rightarrow> RouteId \<Rightarrow> 'a list \<Rightarrow> 'a list" where
  "fitting inst route xs =
     (if max_inbox_per_route (inst_config inst) = 0 then xs
      else take (unat (max_inbox_per_route (inst_config inst)) - length (inbox route inst)) xs)"

text \<open>What the router does with one target, signal by signal.\<close>

definition take_in :: "InstanceId \<Rightarrow> PendingSignal \<Rightarrow> Instance \<Rightarrow> Instance" where
  "take_in from sg inst = (if inbox_full (pending_route sg) inst then inst else accept_signal from sg inst)"

lemma route_all_target:
  "fmlookup insts t = Some inst \<Longrightarrow>
   fmlookup (fold (route_pure from) sgs insts) t = Some (fold (take_in from) (filter (\<lambda>sg. pending_target sg = t) sgs) inst)"
proof (induction sgs arbitrary: insts inst)
  case (Cons sg sgs)
  have "fmlookup (route_pure from sg insts) t = Some (if pending_target sg = t then take_in from sg inst else inst)"
    using Cons.prems by (auto simp: route_pure_def take_in_def split: option.splits)
  with Cons.IH show ?case by simp
qed simp

lemma route_all_dom: "fmdom (fold (route_pure from) sgs insts) = fmdom insts"
  by (induction sgs arbitrary: insts) (auto simp: route_pure_def finsert_absorb fmdomI split: option.splits)

lemma accept_inbox:
  "inbox route (accept_signal from sg t) = inbox route t @ (if route = pending_route sg
     then [\<lparr>sig_from = from, sig_principal = pending_principal sg, sig_payload = pending_payload sg, sig_seq = inbox_seq t\<rparr>] else [])"
  by (simp add: inbox_def accept_signal_def deliver_signal_def Let_def split: option.splits)

lemma accept_refs:
  "inflight_refs_for route (accept_signal from sg t) =
     (if route = pending_route sg then saturating_add (inflight_refs_for route t) 1 else inflight_refs_for route t)"
  by (simp add: inflight_refs_for_def accept_signal_def deliver_signal_def Let_def split: option.splits)

lemma accept_seq: "inbox_seq (accept_signal from sg t) = saturating_add (inbox_seq t) 1"
  by (simp add: accept_signal_def deliver_signal_def Let_def)

lemma inbox_len_eq: "inbox_len route inst = length (inbox route inst)"
  by (simp add: inbox_len_def inbox_def split: option.splits)

lemma fitting_full: "inbox_full route inst \<Longrightarrow> fitting inst route xs = []"
  by (auto simp: fitting_def inbox_full_def Let_def inbox_len_eq)

lemma fitting_accept:
  "\<not> inbox_full (pending_route sg) inst \<Longrightarrow>
   fitting inst (pending_route sg) (sg # xs) = sg # fitting (accept_signal from sg inst) (pending_route sg) xs"
  "route \<noteq> pending_route sg \<Longrightarrow> fitting (accept_signal from sg inst) route xs = fitting inst route xs"
proof -
  assume "\<not> inbox_full (pending_route sg) inst"
  then have "max_inbox_per_route (inst_config inst) = 0 \<or>
      length (inbox (pending_route sg) inst) < unat (max_inbox_per_route (inst_config inst))"
    by (auto simp: inbox_full_def Let_def inbox_len_eq word_gt_0)
  then show "fitting inst (pending_route sg) (sg # xs) = sg # fitting (accept_signal from sg inst) (pending_route sg) xs"
    by (auto simp: fitting_def accept_signal_frame accept_inbox take_Cons' diff_Suc)
qed (simp add: fitting_def accept_signal_frame accept_inbox)

text \<open>One route: the new tail of its inbox and its reference count.\<close>

lemma take_in_route:
  "\<exists>new. inbox route (fold (take_in from) sgs inst) = inbox route inst @ new \<and>
     map received new = map (sent from) (fitting inst route (filter (\<lambda>sg. pending_route sg = route) sgs)) \<and>
     unat (inflight_refs_for route (fold (take_in from) sgs inst)) = min (2 ^ 32 - 1) (unat (inflight_refs_for route inst) + length new)"
proof (induction sgs arbitrary: inst)
  case Nil
  have "unat (inflight_refs_for route inst) < 2 ^ 32" by (rule order_less_le_trans [OF unsigned_less]) simp
  then show ?case by (simp add: fitting_def)
next
  case (Cons sg sgs)
  show ?case
  proof (cases "inbox_full (pending_route sg) inst")
    case True
    with Cons.IH [of inst] show ?thesis by (auto simp: take_in_def fitting_full)
  next
    case False
    then have t: "take_in from sg inst = accept_signal from sg inst" by (simp add: take_in_def)
    obtain new where new: "inbox route (fold (take_in from) sgs (accept_signal from sg inst)) = inbox route (accept_signal from sg inst) @ new"
        "map received new = map (sent from) (fitting (accept_signal from sg inst) route (filter (\<lambda>sg. pending_route sg = route) sgs))"
        "unat (inflight_refs_for route (fold (take_in from) sgs (accept_signal from sg inst))) =
           min (2 ^ 32 - 1) (unat (inflight_refs_for route (accept_signal from sg inst)) + length new)"
      using Cons.IH by blast
    show ?thesis
    proof (cases "route = pending_route sg")
      case True
      let ?s = "\<lparr>sig_from = from, sig_principal = pending_principal sg, sig_payload = pending_payload sg, sig_seq = inbox_seq inst\<rparr>"
      have "received ?s = sent from sg" by (simp add: received_def sent_def)
      with new(1,2) t True fitting_accept(1) [OF False, of _ "from"]
      have "inbox route (fold (take_in from) (sg # sgs) inst) = inbox route inst @ ?s # new"
        "map received (?s # new) = map (sent from) (fitting inst route (filter (\<lambda>sg. pending_route sg = route) (sg # sgs)))"
        by (simp_all add: accept_inbox)
      moreover have "unat (inflight_refs_for route (fold (take_in from) (sg # sgs) inst)) =
          min (2 ^ 32 - 1) (unat (inflight_refs_for route inst) + length (?s # new))"
        using new(3) t True by (simp add: accept_refs unat_saturating_add)
      ultimately show ?thesis by blast
    next
      case False
      with new t show ?thesis by (auto simp: accept_inbox accept_refs fitting_accept(2))
    qed
  qed
qed

text \<open>The numbers of the new tail ascend from the target's counter.\<close>

lemma take_in_numbers:
  assumes "unat (inbox_seq inst) + length sgs < 2 ^ 64"
    and "inbox route (fold (take_in from) sgs inst) = inbox route inst @ new"
  shows "sorted_wrt (<) (map sig_seq new) \<and> (\<forall>s \<in> set new. inbox_seq inst \<le> sig_seq s)"
  using assms
proof (induction sgs arbitrary: inst new)
  case (Cons sg sgs)
  show ?case
  proof (cases "inbox_full (pending_route sg) inst")
    case True
    then have "take_in from sg inst = inst" by (simp add: take_in_def)
    then show ?thesis using Cons.IH [of inst new] Cons.prems by simp
  next
    case False
    let ?i = "accept_signal from sg inst"
    have u: "unat (inbox_seq ?i) = Suc (unat (inbox_seq inst))" using Cons.prems(1) by (simp add: accept_seq sat_simps)
    then have lt: "inbox_seq inst < inbox_seq ?i" by (simp add: word_less_nat_alt)
    have t: "take_in from sg inst = ?i" using False by (simp add: take_in_def)
    obtain new' where n: "inbox route (fold (take_in from) sgs ?i) = inbox route ?i @ new'" using take_in_route by blast
    with Cons.prems(2) t have "new = (if route = pending_route sg then
        [\<lparr>sig_from = from, sig_principal = pending_principal sg, sig_payload = pending_payload sg, sig_seq = inbox_seq inst\<rparr>] else []) @ new'"
      by (simp add: accept_inbox split: if_splits)
    moreover have "sorted_wrt (<) (map sig_seq new')" "\<forall>s \<in> set new'. inbox_seq ?i \<le> sig_seq s"
      using Cons.IH [OF _ n] Cons.prems(1) u by auto
    ultimately show ?thesis using lt by fastforce
  qed
qed simp

lemma take_in_frame:
  "(fold (take_in from) sgs inst)\<lparr>signal_inbox := signal_inbox inst, inflight_refs := inflight_refs inst, inbox_seq := inbox_seq inst\<rparr> = inst"
proof -
  have one: "(take_in from sg i)\<lparr>signal_inbox := a, inflight_refs := b, inbox_seq := c\<rparr> = i\<lparr>signal_inbox := a, inflight_refs := b, inbox_seq := c\<rparr>" for sg i a b c
    by (simp add: take_in_def accept_signal_def deliver_signal_def Let_def)
  have "(fold (take_in from) sgs i)\<lparr>signal_inbox := a, inflight_refs := b, inbox_seq := c\<rparr> = i\<lparr>signal_inbox := a, inflight_refs := b, inbox_seq := c\<rparr>" for i a b c
    by (induction sgs arbitrary: i) (simp_all add: one)
  then show ?thesis by simp
qed

section \<open>A sample kernel\<close>

definition ignore_events :: "unit \<Rightarrow> KernelEvent \<Rightarrow> unit option" where
  "ignore_events o' ev = Some o'"

definition sample_kernel :: "unit Kernel" where
  "sample_kernel = (new_with_wal_signed sample_lib zero32 zero32 sample_class)
     \<lparr>instances := fmupd (InstanceId 1) (Instance_new (InstanceId 1) bypass_config) fmempty, next_instance_id := 1\<rparr>"

lemma sample_kernel_created:
  "create_instance bypass_config (new_with_wal_signed sample_lib zero32 zero32 sample_class) = Done (InstanceId 1, sample_kernel)"
  by (simp add: create_instance_eq sample_kernel_def new_with_wal_signed_def saturating_add_def)

section \<open>Properties\<close>

text \<open>
  C2 (the step loop refines its specification and never panics). On every kernel, whatever its
  observers do, \<open>step\<close> returns. The instances afterwards and the step records appended to the log are
  those of \<open>pure_step\<close>: every instance, in ascending id order, pops at most one due action, and the
  signals it sends are routed before the next instance runs. Registry, id counter and manifest are
  untouched.
\<close>

theorem step_refines_pure_step:
  "\<exists>rep k'. step lib oe now caps k = Done (rep, k') \<and>
     sorted (bt_keys (instances k)) \<and> distinct (bt_keys (instances k)) \<and>
     instances k' = snd (pure_step lib (action_registry k) now caps (wal k \<noteq> None) (bt_keys (instances k)) (instances k)) \<and>
     wal k' = map_option (fold (log_core lib now caps)
         (fst (pure_step lib (action_registry k) now caps (wal k \<noteq> None) (bt_keys (instances k)) (instances k)))) (wal k) \<and>
     action_registry k' = action_registry k \<and> next_instance_id k' = next_instance_id k \<and>
     kernel_manifest_digest k' = kernel_manifest_digest k"
  using step_refines [of lib oe now caps k] sorted_bt_keys [of "instances k"] by (auto simp: rest_of_def)

text \<open>
  C11 (observers cannot influence the kernel). Two kernels that agree on everything but their
  observers and scratch still do after a step at the same tick with the same ceiling, even when
  the observers have different types, masks and behaviour, and some of them panic.
\<close>

theorem observers_do_not_influence:
  fixes k :: "'o Kernel" and k' :: "'p Kernel"
  assumes "same_core k k'"
  shows "\<exists>rep k1 rep' k1'. step lib oe now caps k = Done (rep, k1) \<and> step lib oe' now caps k' = Done (rep', k1') \<and> same_core k1 k1'"
  using step_refines [of lib oe now caps k] step_refines [of lib oe' now caps k'] assms
  by (auto simp: same_core_def rest_of_def)

theorem observers_do_not_influence_witness:
  "\<exists>rep k1 rep' k1'. step sample_lib ignore_events (Tick 0) 1 sample_kernel = Done (rep, k1) \<and>
     step sample_lib (\<lambda>o' ev. None) (Tick 0) 1 (snd (register_observer () sample_kernel)) = Done (rep', k1') \<and> same_core k1 k1'"
proof (rule observers_do_not_influence)
  show "same_core sample_kernel (snd (register_observer () sample_kernel))"
    by (simp add: same_core_def register_observer_def case_prod_beta Let_def)
qed

text \<open>
  C24 (the signal router is a bounded queue per target and route). Let the router loop of one pop run over
  its staged signals, whatever the observers do. Afterwards the same instances exist, and for each of
  them and each route the inbox is the old inbox followed by the staged signals addressed to this target
  and route, in staged order, with sender, principal and payload intact, cut off where the inbox limit is
  reached (never, when the limit is 0); signals beyond it and signals to unknown targets leave no trace.
  The route's reference count has grown by exactly the number delivered, saturating at the top of its 32
  bits; the new signals carry strictly ascending sequence numbers from the target's counter, while that
  has headroom; nothing else of the target changes.
\<close>

theorem router_bounded_fifo:
  assumes "fmlookup (instances k) t = Some inst"
  shows "\<exists>inst'. fmlookup (instances (snd (fold (route_one oe from) sgs (n, k)))) t = Some inst' \<and>
     fmdom (instances (snd (fold (route_one oe from) sgs (n, k)))) = fmdom (instances k) \<and>
     inst'\<lparr>signal_inbox := signal_inbox inst, inflight_refs := inflight_refs inst, inbox_seq := inbox_seq inst\<rparr> = inst \<and>
     (\<forall>route. \<exists>new. inbox route inst' = inbox route inst @ new \<and>
        map received new = map (sent from) (fitting inst route (addressed t route sgs)) \<and>
        unat (inflight_refs_for route inst') = min (2 ^ 32 - 1) (unat (inflight_refs_for route inst) + length new) \<and>
        (unat (inbox_seq inst) + length sgs < 2 ^ 64 \<longrightarrow>
           sorted_wrt (<) (map sig_seq new) \<and> (\<forall>s \<in> set new. inbox_seq inst \<le> sig_seq s)))"
proof -
  let ?sgs = "filter (\<lambda>sg. pending_target sg = t) sgs"
  let ?inst = "fold (take_in from) ?sgs inst"
  have l: "instances (snd (fold (route_one oe from) sgs (n, k))) = fold (route_pure from) sgs (instances k)"
    by (simp add: route_all_frame)
  have addr: "filter (\<lambda>sg. pending_route sg = route) ?sgs = addressed t route sgs" for route
    by (simp add: addressed_def conj_commute)
  have room: "unat (inbox_seq inst) + length ?sgs < 2 ^ 64" if "unat (inbox_seq inst) + length sgs < 2 ^ 64"
    using that length_filter_le [of "\<lambda>sg. pending_target sg = t" sgs] by linarith
  have "\<exists>new. inbox route ?inst = inbox route inst @ new \<and>
      map received new = map (sent from) (fitting inst route (addressed t route sgs)) \<and>
      unat (inflight_refs_for route ?inst) = min (2 ^ 32 - 1) (unat (inflight_refs_for route inst) + length new) \<and>
      (unat (inbox_seq inst) + length sgs < 2 ^ 64 \<longrightarrow>
         sorted_wrt (<) (map sig_seq new) \<and> (\<forall>s \<in> set new. inbox_seq inst \<le> sig_seq s))" for route
    using take_in_route [where sgs = ?sgs and inst = inst and route = route, unfolded addr] take_in_numbers [OF room] by blast
  then show ?thesis
    using route_all_target [OF assms] take_in_frame [where sgs = ?sgs and inst = inst]
    by (simp add: l route_all_dom)
qed

definition mail :: "u64 \<Rightarrow> u32 \<Rightarrow> bytes \<Rightarrow> PendingSignal" where
  "mail t route bs = \<lparr>pending_target = InstanceId t, pending_route = RouteId route, pending_payload = bs, pending_principal = System\<rparr>"

definition mail_kernel :: "unit Kernel" where
  "mail_kernel = Kernel_new\<lparr>instances := fmupd (InstanceId 1)
     (Instance_new (InstanceId 1) (bypass_config\<lparr>max_inbox_per_route := 2\<rparr>)) fmempty\<rparr>"

theorem router_bounded_fifo_witness:
  "\<exists>inst'. fmlookup (instances (snd (fold (route_one ignore_events (InstanceId 7))
       [mail 1 4 [10], mail 9 4 [11], mail 1 5 [12], mail 1 4 [13], mail 1 4 [14]] (0, mail_kernel)))) (InstanceId 1) = Some inst' \<and>
     map received (inbox (RouteId 4) inst') = [(InstanceId 7, System, [10]), (InstanceId 7, System, [13])] \<and>
     unat (inflight_refs_for (RouteId 4) inst') = 2 \<and>
     map received (inbox (RouteId 5) inst') = [(InstanceId 7, System, [12])]"
proof -
  let ?sgs = "[mail 1 4 [10], mail 9 4 [11], mail 1 5 [12], mail 1 4 [13], mail 1 4 [14]]"
  let ?i = "Instance_new (InstanceId 1) (bypass_config\<lparr>max_inbox_per_route := 2\<rparr>)"
  have i: "inbox r ?i = []" "inflight_refs_for r ?i = 0" "max_inbox_per_route (inst_config ?i) = 2" for r
    by (simp_all add: Instance_new_def inbox_def inflight_refs_for_def)
  have "fmlookup (instances mail_kernel) (InstanceId 1) = Some ?i" by (simp add: mail_kernel_def)
  from router_bounded_fifo [OF this, of ignore_events "InstanceId 7" ?sgs 0] obtain inst' where
    l: "fmlookup (instances (snd (fold (route_one ignore_events (InstanceId 7)) ?sgs (0, mail_kernel)))) (InstanceId 1) = Some inst'"
    and r: "\<forall>route. \<exists>new. inbox route inst' = inbox route ?i @ new \<and>
        map received new = map (sent (InstanceId 7)) (fitting ?i route (addressed (InstanceId 1) route ?sgs)) \<and>
        unat (inflight_refs_for route inst') = min (2 ^ 32 - 1) (unat (inflight_refs_for route ?i) + length new)" by blast
  have "length xs = length ys" if "map received xs = map (sent f) ys" for xs ys f using that by (metis length_map)
  with r [rule_format, of "RouteId 4"] r [rule_format, of "RouteId 5"] l show ?thesis
    by (auto simp: i fitting_def addressed_def mail_def sent_def)
qed

end
