(* ===== verification/Replay.thy ===== *)
theory Replay
  imports Kernel_Refine
begin

text \<open>
  Replay of a write-ahead log into a kernel (\<open>persist/replay.rs\<close>): the header gates, the record
  loop with its tripwires, and the two entry points. The locale \<open>deterministic_log\<close> states what
  makes a log of inputs sufficient; it is interpreted on the observer-free kernel, and the main
  theorem lifts it to the code: replaying the log a kernel has written reproduces its instances and
  its chain tip.
\<close>

section \<open>Reports and errors\<close>

record ReplayReport =
  submits_replayed :: u32
  steps_replayed :: u32
  total_effects_applied :: u32
  total_effects_denied :: u32
  final_chain_tip :: bytes

definition ReplayReport_default :: ReplayReport where
  "ReplayReport_default = \<lparr>submits_replayed = 0, steps_replayed = 0, total_effects_applied = 0,
     total_effects_denied = 0, final_chain_tip = zero32\<rparr>"

datatype ReplayError =
    ReplayHeaderIncompatible string
  | KernelSemverMismatch "u16 \<times> u16 \<times> u16" "u16 \<times> u16 \<times> u16"
  | AbiVersionMismatch "u16 \<times> u16" "u16 \<times> u16"
  | PostcardVersionMismatch u32 u32
  | Blake3VersionMismatch u32 u32
  | WalCorrupted WalError
  | SubmitFailed string
  | StepUnderflow InstanceId
  | PoppedIdDivergence u64
  | VerdictDivergence u64 StepVerdict StepVerdict
  | StateDigestDivergence u64
  | ChainTipDivergence bytes bytes
  | ReplayManifestDigestMismatch bytes bytes

definition check_header_gates :: "Wal \<Rightarrow> ReplayError + unit" where
  "check_header_gates log =
     (let h = header log
      in if magic h \<noteq> MAGIC then Inl (ReplayHeaderIncompatible ''magic mismatch (expected ARKHEWAL)'')
         else if fst (kernel_semver h) \<noteq> fst CURRENT_KERNEL_SEMVER
              then Inl (KernelSemverMismatch CURRENT_KERNEL_SEMVER (kernel_semver h))
         else if abi_version h \<noteq> ABI_VERSION then Inl (AbiVersionMismatch ABI_VERSION (abi_version h))
         else if postcard_version h \<noteq> POSTCARD_MAJOR then Inl (PostcardVersionMismatch POSTCARD_MAJOR (postcard_version h))
         else if blake3_version h \<noteq> BLAKE3_MAJOR then Inl (Blake3VersionMismatch BLAKE3_MAJOR (blake3_version h))
         else Inr ())"

section \<open>The record loop\<close>

text \<open>
  One record: the new report, measuring writer and kernel, or the error with the kernel as far as
  it had been driven. \<open>dbg\<close> renders an error for the message of \<open>SubmitFailed\<close>.
\<close>

fun replay_one ::
  "'z WalLib_scheme \<Rightarrow> ('o \<Rightarrow> KernelEvent \<Rightarrow> 'o option) \<Rightarrow> (ArkheError \<Rightarrow> string) \<Rightarrow> WalRecordContent
    \<Rightarrow> ReplayReport \<Rightarrow> WalWriter \<Rightarrow> 'o Kernel \<Rightarrow> ((ReplayError + (ReplayReport \<times> WalWriter)) \<times> 'o Kernel) outcome" where
  "replay_one lib oe dbg (Submit seq inst prin actor caps at tc bs aid) rep w k =
     (case submit_with_id inst prin actor caps aid at tc bs k of
        (Inl e, k1) \<Rightarrow> Done (Inl (SubmitFailed (dbg e)), k1)
      | (Inr _, k1) \<Rightarrow>
          (case append_submit lib inst prin actor caps at tc bs aid w of
             (Inl e, _) \<Rightarrow> Done (Inl (WalCorrupted e), k1)
           | (Inr _, w1) \<Rightarrow> Done (Inr (rep\<lparr>submits_replayed := saturating_add (submits_replayed rep) 1\<rparr>, w1), k1)))"
| "replay_one lib oe dbg (Step seq inst pid now caps v d) rep w k =
     obind (process_instance_record lib oe inst now caps True k) (\<lambda>(res, k1).
       case res of
         None \<Rightarrow> Done (Inl (StepUnderflow inst), k1)
       | Some r \<Rightarrow>
           if result_popped_id r \<noteq> pid then Done (Inl (PoppedIdDivergence seq), k1)
           else if result_verdict r \<noteq> v then Done (Inl (VerdictDivergence seq v (result_verdict r)), k1)
           else if result_digest r \<noteq> d then Done (Inl (StateDigestDivergence seq), k1)
           else (case append_step lib inst pid now caps v d w of
                   (Inl e, _) \<Rightarrow> Done (Inl (WalCorrupted e), k1)
                 | (Inr _, w1) \<Rightarrow>
                     Done (Inr (rep\<lparr>steps_replayed := saturating_add (steps_replayed rep) 1,
                                    total_effects_applied := saturating_add (total_effects_applied rep) (result_applied r),
                                    total_effects_denied := saturating_add (total_effects_denied rep) (result_denied r)\<rparr>, w1), k1)))"

fun replay_loop ::
  "'z WalLib_scheme \<Rightarrow> ('o \<Rightarrow> KernelEvent \<Rightarrow> 'o option) \<Rightarrow> (ArkheError \<Rightarrow> string) \<Rightarrow> WalRecord list
    \<Rightarrow> ReplayReport \<Rightarrow> WalWriter \<Rightarrow> 'o Kernel \<Rightarrow> ((ReplayError + (ReplayReport \<times> WalWriter)) \<times> 'o Kernel) outcome" where
  "replay_loop lib oe dbg [] rep w k = Done (Inr (rep, w), k)"
| "replay_loop lib oe dbg (rec # recs) rep w k =
     obind (replay_one lib oe dbg (content rec) rep w k) (\<lambda>(r, k1).
       case r of
         Inl e \<Rightarrow> Done (Inl e, k1)
       | Inr (rep1, w1) \<Rightarrow> replay_loop lib oe dbg recs rep1 w1 k1)"

definition replay_records ::
  "'z WalLib_scheme \<Rightarrow> ('o \<Rightarrow> KernelEvent \<Rightarrow> 'o option) \<Rightarrow> (ArkheError \<Rightarrow> string) \<Rightarrow> Wal \<Rightarrow> 'o Kernel
    \<Rightarrow> ((ReplayError + ReplayReport) \<times> 'o Kernel) outcome" where
  "replay_records lib oe dbg log k =
     obind (replay_loop lib oe dbg (records log) ReplayReport_default (rebuild_from_header lib (header log)) k) (\<lambda>(r, k1).
       case r of
         Inl e \<Rightarrow> Done (Inl e, k1)
       | Inr (rep, w) \<Rightarrow>
           let measured = writer_chain_tip w; sealed = chain_tip log
           in if measured \<noteq> sealed then Done (Inl (ChainTipDivergence sealed measured), k1)
              else Done (Inr (rep\<lparr>final_chain_tip := measured\<rparr>), k1))"

definition replay_into ::
  "'z WalLib_scheme \<Rightarrow> ('o \<Rightarrow> KernelEvent \<Rightarrow> 'o option) \<Rightarrow> (ArkheError \<Rightarrow> string) \<Rightarrow> Wal \<Rightarrow> 'o Kernel
    \<Rightarrow> ((ReplayError + ReplayReport) \<times> 'o Kernel) outcome" where
  "replay_into lib oe dbg log k =
     (case check_header_gates log of
        Inl e \<Rightarrow> Done (Inl e, k)
      | Inr _ \<Rightarrow>
          if manifest_digest (header log) \<noteq> kernel_manifest_digest k
          then Done (Inl (ReplayManifestDigestMismatch (manifest_digest (header log)) (kernel_manifest_digest k)), k)
          else obind (verify_chain lib (world_id (header log)) log) (\<lambda>r.
            case r of Inl e \<Rightarrow> Done (Inl (WalCorrupted e), k)
            | Inr _ \<Rightarrow> replay_records lib oe dbg log k))"

definition replay_into_verified ::
  "'z WalLib_scheme \<Rightarrow> ('o \<Rightarrow> KernelEvent \<Rightarrow> 'o option) \<Rightarrow> (ArkheError \<Rightarrow> string) \<Rightarrow> Wal \<Rightarrow> bytes \<Rightarrow> TrustAnchor \<Rightarrow> 'o Kernel
    \<Rightarrow> ((ReplayError + ReplayReport) \<times> 'o Kernel) outcome" where
  "replay_into_verified lib oe dbg log wid anchor k =
     (case check_header_gates log of
        Inl e \<Rightarrow> Done (Inl e, k)
      | Inr _ \<Rightarrow>
          obind (verify_chain_anchored lib wid anchor log) (\<lambda>r.
            case r of Inl e \<Rightarrow> Done (Inl (WalCorrupted e), k)
            | Inr _ \<Rightarrow> replay_records lib oe dbg log k))"

section \<open>Deterministic logs\<close>

fun redo_all :: "('c \<Rightarrow> 's \<Rightarrow> 's option) \<Rightarrow> 'c list \<Rightarrow> 's \<Rightarrow> 's option" where
  "redo_all redo [] s = Some s"
| "redo_all redo (c # cs) s = Option.bind (redo c s) (redo_all redo cs)"

lemma redo_all_append: "redo_all redo (cs @ ds) s = Option.bind (redo_all redo cs s) (redo_all redo ds)"
  by (induction cs arbitrary: s) (auto split: bind_splits)

fun live_all :: "('i \<Rightarrow> 's \<Rightarrow> 'c list \<times> 's) \<Rightarrow> 'i list \<Rightarrow> 's \<Rightarrow> 'c list \<times> 's" where
  "live_all live [] s = ([], s)"
| "live_all live (i # is) s =
     (let (cs, s1) = live i s; (ds, s2) = live_all live is s1 in (cs @ ds, s2))"

text \<open>
  What makes a log of inputs sufficient: redoing the facts that one live input logged takes the
  state where the input took it.
\<close>

locale deterministic_log =
  fixes live :: "'i \<Rightarrow> 's \<Rightarrow> 'c list \<times> 's" and redo :: "'c \<Rightarrow> 's \<Rightarrow> 's option"
  assumes redo_live: "live i s = (cs, s') \<Longrightarrow> redo_all redo cs s = Some s'"
begin

lemma redo_live_all: "live_all live is s = (cs, s') \<Longrightarrow> redo_all redo cs s = Some s'"
proof (induction "is" arbitrary: s cs)
  case (Cons i "is")
  obtain cs1 s1 where 1: "live i s = (cs1, s1)" by fastforce
  obtain ds s2 where 2: "live_all live is s1 = (ds, s2)" by fastforce
  have cs: "cs = cs1 @ ds" and s2: "s2 = s'" using Cons.prems 1 2 by auto
  show ?case using redo_live [OF 1] Cons.IH [OF 2 [unfolded s2]] by (simp add: cs redo_all_append)
qed simp

end

section \<open>The observer-free kernel as a deterministic log\<close>

datatype KernelInput =
    InSubmit InstanceId Principal "EntityId option" CapabilityMask Tick TypeCode bytes
  | InStep Tick CapabilityMask

type_synonym LogState = "(InstanceId, Instance) fmap \<times> u64"

text \<open>The records of one step, numbered from the writer's sequence counter.\<close>

fun step_contents :: "Tick \<Rightarrow> CapabilityMask \<Rightarrow> u64 \<Rightarrow> (InstanceId \<times> StepCore) list \<Rightarrow> WalRecordContent list" where
  "step_contents now caps seq [] = []"
| "step_contents now caps seq ((iid, c) # log) =
     (let seq' = saturating_add seq 1
      in Step seq' iid (core_popped_id c) now caps (core_verdict c) (core_digest c) # step_contents now caps seq' log)"

primrec advance_seq :: "nat \<Rightarrow> u64 \<Rightarrow> u64" where
  "advance_seq 0 seq = seq"
| "advance_seq (Suc n) seq = advance_seq n (saturating_add seq 1)"

fun live_pure :: "'z DigestLib_scheme \<Rightarrow> ActionRegistry \<Rightarrow> KernelInput \<Rightarrow> LogState \<Rightarrow> WalRecordContent list \<times> LogState" where
  "live_pure lib reg (InSubmit iid prin actor caps at tc bs) (insts, seq) =
     (case fmlookup insts iid of
        None \<Rightarrow> ([], insts, seq)
      | Some inst \<Rightarrow>
          if 0 < max_scheduled (inst_config inst) \<and> unat (max_scheduled (inst_config inst)) \<le> sched_len (inst_scheduler inst)
          then ([], insts, seq)
          else let n = saturating_add (next_scheduled (inst_counters inst)) 1; seq' = saturating_add seq 1
               in ([Submit seq' iid prin actor caps at tc bs (ScheduledActionId n)],
                   fmupd iid (admit (ScheduledActionId n) prin actor caps at tc bs n inst) insts, seq'))"
| "live_pure lib reg (InStep now caps) (insts, seq) =
     (let (log, insts') = pure_step lib reg now caps True (bt_keys insts) insts
      in (step_contents now caps seq log, insts', advance_seq (length log) seq))"

fun redo_pure :: "'z DigestLib_scheme \<Rightarrow> ActionRegistry \<Rightarrow> WalRecordContent \<Rightarrow> LogState \<Rightarrow> LogState option" where
  "redo_pure lib reg (Submit seq iid prin actor caps at tc bs aid) (insts, s) =
     (if seq \<noteq> saturating_add s 1 then None
      else case fmlookup insts iid of
        None \<Rightarrow> None
      | Some inst \<Rightarrow>
          let n = (if next_scheduled (inst_counters inst) < scheduled_id_get aid then scheduled_id_get aid
                   else next_scheduled (inst_counters inst))
          in Some (fmupd iid (admit aid prin actor caps at tc bs n inst) insts, seq))"
| "redo_pure lib reg (Step seq iid pid now caps v d) (insts, s) =
     (if seq \<noteq> saturating_add s 1 then None
      else case pure_process lib reg now caps True iid insts of
        (None, _) \<Rightarrow> None
      | (Some c, insts') \<Rightarrow>
          if core_popped_id c = pid \<and> core_verdict c = v \<and> core_digest c = d then Some (insts', seq) else None)"

lemma fmupd_same: "fmlookup m k = Some v \<Longrightarrow> fmupd k v m = m"
  by (auto intro!: fmap_ext)

lemma finish_step_Some: "finish_step lib md entry inst g \<noteq> Done (None, r)"
  by (cases "apply_stage (g_stage g) inst") (auto simp: finish_step_def Let_def)

text \<open>An instance with nothing due is left exactly as it was.\<close>

lemma pure_process_idle:
  assumes "pure_process lib reg now scaps md iid insts = (None, insts')"
  shows "insts' = insts"
proof (cases "fmlookup insts iid")
  case (Some inst)
  obtain c inst' where pc: "pure_core lib reg now scaps md iid inst = (c, inst')" by fastforce
  have c: "c = None" "insts' = fmupd iid inst' insts" using assms Some pc by (auto simp: pure_process_def split: option.splits)
  obtain s where s: "step_one_core lib iid inst reg StepStage_default now scaps md = Done (None, inst', s)"
    using pure_core_eq [of lib iid inst reg StepStage_default now scaps md] pc c by auto
  have "inst' = inst"
  proof (rule step_one_core_cases [of now inst lib iid reg StepStage_default scaps md], goal_cases)
    case 3
    with s finish_step_Some show ?case by metis
  qed (use s in simp_all)
  then show ?thesis using c fmupd_same [OF Some] by simp
qed (use assms in \<open>simp add: pure_process_def\<close>)

lemma redo_steps:
  "pure_step lib reg now caps True ids insts = (log, insts') \<Longrightarrow>
   redo_all (redo_pure lib reg) (step_contents now caps seq log) (insts, seq) = Some (insts', advance_seq (length log) seq)"
proof (induction ids arbitrary: insts seq log)
  case (Cons iid ids)
  obtain res insts1 where pp: "pure_process lib reg now caps True iid insts = (res, insts1)" by fastforce
  obtain log1 where ps: "pure_step lib reg now caps True ids insts1 = (log1, insts')"
    and log: "log = (case res of None \<Rightarrow> log1 | Some c \<Rightarrow> (iid, c) # log1)"
    using Cons.prems pp by (auto simp: Let_def split: prod.splits)
  show ?case
  proof (cases res)
    case None
    then have "insts1 = insts" using pure_process_idle pp by blast
    then show ?thesis using Cons.IH [OF ps] log None by simp
  next
    case (Some c)
    then show ?thesis using Cons.IH [OF ps, of "saturating_add seq 1"] log pp by (simp add: Let_def)
  qed
qed simp

lemma submit_id_counter: "(if (n::u64) < saturating_add n 1 then saturating_add n 1 else n) = saturating_add n 1"
  using saturating_add_ge [of n 1] by auto

interpretation kernel_log: deterministic_log "live_pure lib reg" "redo_pure lib reg" for lib reg
proof
  fix i s cs s'
  assume live: "live_pure lib reg i s = (cs, s')"
  obtain insts seq where s: "s = (insts, seq)" by (cases s)
  show "redo_all (redo_pure lib reg) cs s = Some s'"
  proof (cases i)
    case (InSubmit iid prin actor caps at tc bs)
    show ?thesis
    proof (cases "fmlookup insts iid")
      case None
      with live s InSubmit show ?thesis by auto
    next
      case (Some inst)
      show ?thesis
      proof (cases "0 < max_scheduled (inst_config inst) \<and> unat (max_scheduled (inst_config inst)) \<le> sched_len (inst_scheduler inst)")
        case True
        with live s InSubmit Some show ?thesis by auto
      next
        case False
        with live s InSubmit Some show ?thesis
          by (auto simp only: live_pure.simps if_False option.case Let_def redo_all.simps redo_pure.simps
              bind.bind_lunit prod.inject ScheduledActionId.sel submit_id_counter if_cancel simp_thms)
      qed
    qed
  next
    case (InStep now caps)
    obtain log insts' where ps: "pure_step lib reg now caps True (bt_keys insts) insts = (log, insts')" by fastforce
    with live s InStep redo_steps [OF ps, of seq] show ?thesis by auto
  qed
qed

section \<open>From the code to the deterministic log\<close>

text \<open>Every record body can be encoded: postcard writes these types into a growing buffer.\<close>

definition encodes_all :: "'z WalLib_scheme \<Rightarrow> bool" where
  "encodes_all lib \<longleftrightarrow> (\<forall>b. \<exists>bs. postcard_body lib b = Inr bs)"

definition contents :: "WalWriter \<Rightarrow> WalRecordContent list" where
  "contents w = map content (w_records w)"

lemma contents_seq [simp]: "contents (w\<lparr>w_next_seq := n\<rparr>) = contents w"
  by (simp add: contents_def)

lemma push_total:
  assumes "encodes_all lib"
  shows "\<exists>rec w'. push_sealed lib c w = (Inr rec, w') \<and> contents w' = contents w @ [c] \<and> w_next_seq w' = w_next_seq w"
proof (rule push_sealed_cases [of lib c w], goal_cases)
  case (1 e)
  with assms show ?case by (metis encodes_all_def sum.distinct(1))
qed (simp add: contents_def)

lemma append_submit_total:
  assumes "encodes_all lib"
  shows "\<exists>rec w'. append_submit lib iid prin actor caps at tc bs aid w = (Inr rec, w') \<and>
     contents w' = contents w @ [Submit (saturating_add (w_next_seq w) 1) iid prin actor caps at tc bs aid] \<and>
     w_next_seq w' = saturating_add (w_next_seq w) 1"
  using push_total [OF assms, of "Submit (saturating_add (w_next_seq w) 1) iid prin actor caps at tc bs aid"
      "w\<lparr>w_next_seq := saturating_add (w_next_seq w) 1\<rparr>"] by (auto simp: append_submit_def Let_def)

lemma append_step_total:
  assumes "encodes_all lib"
  shows "\<exists>rec w'. append_step lib iid pid now caps v d w = (Inr rec, w') \<and>
     contents w' = contents w @ [Step (saturating_add (w_next_seq w) 1) iid pid now caps v d] \<and>
     w_next_seq w' = saturating_add (w_next_seq w) 1"
  using push_total [OF assms, of "Step (saturating_add (w_next_seq w) 1) iid pid now caps v d"
      "w\<lparr>w_next_seq := saturating_add (w_next_seq w) 1\<rparr>"] by (auto simp: append_step_def Let_def)

lemma log_cores_contents:
  assumes "encodes_all lib"
  shows "contents (fold (log_core lib now caps) log w) = contents w @ step_contents now caps (w_next_seq w) log \<and>
     w_next_seq (fold (log_core lib now caps) log w) = advance_seq (length log) (w_next_seq w)"
proof (induction log arbitrary: w)
  case (Cons ic log)
  obtain iid c where ic: "ic = (iid, c)" by (cases ic)
  obtain rec w' where a: "append_step lib iid (core_popped_id c) now caps (core_verdict c) (core_digest c) w = (Inr rec, w')"
    "contents w' = contents w @ [Step (saturating_add (w_next_seq w) 1) iid (core_popped_id c) now caps (core_verdict c) (core_digest c)]"
    "w_next_seq w' = saturating_add (w_next_seq w) 1"
    using append_step_total [OF assms] by blast
  have "log_core lib now caps ic w = w'" using a(1) by (simp add: log_core_def ic)
  then show ?case using Cons.IH [of w'] a(2,3) by (simp add: ic Let_def)
qed simp

subsection \<open>The live run\<close>

fun live_input :: "'z WalLib_scheme \<Rightarrow> ('o \<Rightarrow> KernelEvent \<Rightarrow> 'o option) \<Rightarrow> KernelInput \<Rightarrow> 'o Kernel \<Rightarrow> 'o Kernel outcome" where
  "live_input lib oe (InSubmit iid prin actor caps at tc bs) k =
     obind (submit lib iid prin actor caps at tc bs k) (\<lambda>(_, k'). Done k')"
| "live_input lib oe (InStep now caps) k = obind (step lib oe now caps k) (\<lambda>(_, k'). Done k')"

definition live_run :: "'z WalLib_scheme \<Rightarrow> ('o \<Rightarrow> KernelEvent \<Rightarrow> 'o option) \<Rightarrow> KernelInput list \<Rightarrow> 'o Kernel \<Rightarrow> 'o Kernel outcome" where
  "live_run lib oe inputs k = ofold (live_input lib oe) inputs k"

lemma live_input_refines:
  assumes "encodes_all lib" and "wal k = Some w" and "written lib wid md cls w"
    and "live_pure lib (action_registry k) i (instances k, w_next_seq w) = (cs, insts', seq')"
  shows "\<exists>k' w'. live_input lib oe i k = Done k' \<and> wal k' = Some w' \<and> written lib wid md cls w' \<and>
     contents w' = contents w @ cs \<and> instances k' = insts' \<and> w_next_seq w' = seq' \<and> action_registry k' = action_registry k"
proof (cases i)
  case i: (InSubmit iid prin actor caps at tc bs)
  show ?thesis
  proof (rule submit_cases [of k iid lib prin actor caps at tc bs], goal_cases)
    case (3 inst n)
    obtain rec w' where a: "append_submit lib iid prin actor caps at tc bs (ScheduledActionId n) w = (Inr rec, w')"
      "contents w' = contents w @ [Submit (saturating_add (w_next_seq w) 1) iid prin actor caps at tc bs (ScheduledActionId n)]"
      "w_next_seq w' = saturating_add (w_next_seq w) 1"
      using append_submit_total [OF assms(1)] by blast
    have wr: "written lib wid md cls w'"
      using written.submit [OF assms(3), of iid prin actor caps at tc bs "ScheduledActionId n"] a(1) by simp
    have "cs = [Submit (saturating_add (w_next_seq w) 1) iid prin actor caps at tc bs (ScheduledActionId n)]"
      "insts' = fmupd iid (admit (ScheduledActionId n) prin actor caps at tc bs n inst) (instances k)"
      "seq' = saturating_add (w_next_seq w) 1"
      using assms(4) i 3(1-3) by (auto simp only: live_pure.simps option.case if_False Let_def prod.inject)
    then show ?case using i 3(4) a wr assms(2) by simp
  qed (use assms i in auto)
next
  case i: (InStep now caps)
  let ?p = "pure_step lib (action_registry k) now caps True (bt_keys (instances k)) (instances k)"
  from step_refines [of lib oe now caps k] assms(2) obtain rep k' where
    k': "step lib oe now caps k = Done (rep, k')" "instances k' = snd ?p"
      "wal k' = Some (fold (log_core lib now caps) (fst ?p) w)" "action_registry k' = action_registry k"
    by (auto simp: rest_of_def)
  have "cs = step_contents now caps (w_next_seq w) (fst ?p)" "insts' = snd ?p" "seq' = advance_seq (length (fst ?p)) (w_next_seq w)"
    using assms(4) i by (auto simp: case_prod_beta Let_def)
  with k' i log_cores_contents [OF assms(1), of now caps "fst ?p" w] log_core_written [OF assms(3)] show ?thesis by simp
qed

lemma live_run_refines:
  assumes "encodes_all lib"
  shows "wal k = Some w \<Longrightarrow> written lib wid md cls w \<Longrightarrow>
     live_all (live_pure lib (action_registry k)) inputs (instances k, w_next_seq w) = (cs, insts', seq') \<Longrightarrow>
     \<exists>k' w'. live_run lib oe inputs k = Done k' \<and> wal k' = Some w' \<and> written lib wid md cls w' \<and>
       contents w' = contents w @ cs \<and> instances k' = insts'"
proof (induction inputs arbitrary: k w cs)
  case Nil
  then show ?case by (auto simp: live_run_def)
next
  case (Cons i inputs)
  obtain cs1 insts1 seq1 where 1: "live_pure lib (action_registry k) i (instances k, w_next_seq w) = (cs1, insts1, seq1)"
    by (cases "live_pure lib (action_registry k) i (instances k, w_next_seq w)") auto
  from live_input_refines [OF assms Cons.prems(1,2) 1] obtain k1 w1 where
    k1: "live_input lib oe i k = Done k1" "wal k1 = Some w1" "written lib wid md cls w1" "contents w1 = contents w @ cs1"
      "instances k1 = insts1" "w_next_seq w1 = seq1" "action_registry k1 = action_registry k" by blast
  obtain ds where "live_all (live_pure lib (action_registry k1)) inputs (instances k1, w_next_seq w1) = (ds, insts', seq')" "cs = cs1 @ ds"
    using Cons.prems(3) 1 k1(5-7) by (auto split: prod.splits)
  with Cons.IH [OF k1(2,3)] k1(1,4) show ?case by (fastforce simp: live_run_def)
qed

subsection \<open>The replay loop\<close>

text \<open>The measuring writer keeps its chain key and stays linked.\<close>

definition measures :: "'z WalLib_scheme \<Rightarrow> bytes \<Rightarrow> WalWriter \<Rightarrow> bool" where
  "measures lib key w \<longleftrightarrow> writer_linked lib w \<and> w_chain_key w = key"

lemma measures_seq: "measures lib key (w\<lparr>w_next_seq := n\<rparr>) = measures lib key w"
  by (simp add: measures_def writer_linked_def)

lemma measures_append:
  assumes "measures lib key w"
  shows "measures lib key (snd (append_submit lib iid prin actor caps at tc bs aid w))"
    and "measures lib key (snd (append_step lib iid pid now caps v d w))"
proof -
  have "measures lib key (snd (push_sealed lib c (w\<lparr>w_next_seq := n\<rparr>)))" for c n
    using push_sealed_linked [of lib "w\<lparr>w_next_seq := n\<rparr>" c] assms measures_seq [of lib key n w]
    by (auto simp: measures_def)
  then show "measures lib key (snd (append_submit lib iid prin actor caps at tc bs aid w))"
    "measures lib key (snd (append_step lib iid pid now caps v d w))"
    by (simp_all add: append_submit_def append_step_def Let_def)
qed

lemma measures_tip:
  "measures lib key w \<Longrightarrow> run_chain (chain_link lib key) zero32 (contents w) = Some (writer_chain_tip w)"
  using linked_run_chain [of lib key zero32 "w_records w"]
  by (auto simp: measures_def writer_linked_def writer_chain_tip_def contents_def)

lemma replay_one_complete:
  assumes "encodes_all lib" and "measures lib key w"
    and "redo_pure lib (action_registry k) c (instances k, w_next_seq w) = Some (insts', seq')"
  shows "\<exists>rep' w' k'. replay_one lib oe dbg c rep w k = Done (Inr (rep', w'), k') \<and> instances k' = insts' \<and>
     w_next_seq w' = seq' \<and> contents w' = contents w @ [c] \<and> action_registry k' = action_registry k \<and> measures lib key w'"
proof (cases c)
  case c: (Submit seq iid prin actor caps at tc bs aid)
  from assms(3) c obtain inst where inst: "fmlookup (instances k) iid = Some inst" "seq = saturating_add (w_next_seq w) 1"
    by (auto split: option.splits if_splits)
  obtain rec w' where a: "append_submit lib iid prin actor caps at tc bs aid w = (Inr rec, w')"
      "contents w' = contents w @ [c]" "w_next_seq w' = seq"
    using append_submit_total [OF assms(1)] inst(2) c by blast
  with measures_append(1) [OF assms(2), of iid prin actor caps at tc bs aid] have "measures lib key w'" by simp
  with a inst assms(3) c show ?thesis by (auto simp: submit_with_id_def Let_def)
next
  case c: (Step seq iid pid now caps v d)
  obtain res insts1 where pp: "pure_process lib (action_registry k) now caps True iid (instances k) = (res, insts1)" by fastforce
  from assms(3) c pp obtain core where core: "res = Some core" "seq = saturating_add (w_next_seq w) 1"
      "core_popped_id core = pid" "core_verdict core = v" "core_digest core = d" "insts' = insts1" "seq' = seq"
    by (auto split: option.splits if_splits)
  from process_refines [of lib oe iid now caps True k] pp core(1) obtain n k' where
    k': "process_instance_record lib oe iid now caps True k = Done (Some (result_of core n), k')" "instances k' = insts1"
      "action_registry k' = action_registry k" by (auto simp: rest_of_def)
  obtain rec w' where a: "append_step lib iid pid now caps v d w = (Inr rec, w')"
      "contents w' = contents w @ [c]" "w_next_seq w' = seq"
    using append_step_total [OF assms(1)] core(2) c by blast
  with measures_append(2) [OF assms(2), of iid pid now caps v d] have "measures lib key w'" by simp
  with a k' core c show ?thesis by (simp add: result_of_def)
qed

lemma replay_loop_complete:
  assumes "encodes_all lib"
  shows "measures lib key w \<Longrightarrow>
     redo_all (redo_pure lib (action_registry k)) (map content recs) (instances k, w_next_seq w) = Some (insts', seq') \<Longrightarrow>
     \<exists>rep' w' k'. replay_loop lib oe dbg recs rep w k = Done (Inr (rep', w'), k') \<and> instances k' = insts' \<and>
       contents w' = contents w @ map content recs \<and> measures lib key w'"
proof (induction recs arbitrary: rep w k)
  case (Cons rec recs)
  from Cons.prems(2) obtain insts1 seq1 where
    1: "redo_pure lib (action_registry k) (content rec) (instances k, w_next_seq w) = Some (insts1, seq1)"
      "redo_all (redo_pure lib (action_registry k)) (map content recs) (insts1, seq1) = Some (insts', seq')"
    by (auto split: bind_splits)
  from replay_one_complete [OF assms Cons.prems(1) 1(1), of oe dbg rep] obtain rep1 w1 k1 where
    k1: "replay_one lib oe dbg (content rec) rep w k = Done (Inr (rep1, w1), k1)" "instances k1 = insts1"
      "w_next_seq w1 = seq1" "contents w1 = contents w @ [content rec]" "action_registry k1 = action_registry k" "measures lib key w1"
    by blast
  from Cons.IH [OF k1(6), of k1 rep1] k1 1(2) show ?case by simp
qed auto

lemma measures_fresh: "measures lib (build_chain_key lib (world_id h)) (rebuild_from_header lib h)"
  by (simp add: measures_def writer_linked_def rebuild_from_header_def)

lemma written_measures: "written lib wid md cls w \<Longrightarrow> measures lib (build_chain_key lib wid) w"
  using written_inv [of lib wid md cls w] by (simp add: writer_inv_def measures_def)

lemma written_header: "written lib wid md cls w \<Longrightarrow> w_header w = w_header (with_signature lib wid md cls)"
  using written_inv [of lib wid md cls w] by (simp add: writer_inv_def)

lemma replay_records_complete:
  assumes "encodes_all lib" and "written lib wid md cls w"
    and "redo_all (redo_pure lib (action_registry k)) (contents w) (instances k, 0) = Some (insts', seq')"
  shows "\<exists>rep k'. replay_records lib oe dbg (from_writer w) k = Done (Inr rep, k') \<and> instances k' = insts' \<and>
     final_chain_tip rep = writer_chain_tip w"
proof -
  let ?h = "w_header w" and ?m = "rebuild_from_header lib (w_header w)"
  have wid: "world_id ?h = wid" by (simp add: written_header [OF assms(2)] with_signature_def Let_def)
  have m: "w_next_seq ?m = 0" "contents ?m = []" by (simp_all add: rebuild_from_header_def contents_def)
  from replay_loop_complete [OF assms(1) measures_fresh [of lib ?h], of k "w_records w" insts' seq' oe dbg ReplayReport_default]
  obtain rep w' k' where l: "replay_loop lib oe dbg (w_records w) ReplayReport_default ?m k = Done (Inr (rep, w'), k')"
      "instances k' = insts'" "contents w' = contents w" "measures lib (build_chain_key lib wid) w'"
    using assms(3) m wid by (auto simp: contents_def)
  have "writer_chain_tip w' = writer_chain_tip w"
    using measures_tip [OF l(4)] measures_tip [OF written_measures [OF assms(2)]] l(3) by simp
  moreover have "writer_chain_tip w = chain_tip (from_writer w)"
    using written_measures [OF assms(2)]
    by (simp add: measures_def writer_linked_def writer_chain_tip_def chain_tip_eq from_writer_def)
  ultimately show ?thesis using l by (simp add: replay_records_def from_writer_def Let_def)
qed

lemma run_contents:
  assumes "encodes_all lib" and "wal k0 = Some (with_signature lib wid md cls)"
    and "live_all (live_pure lib (action_registry k0)) inputs (instances k0, 0) = (cs, insts', seq')"
  shows "\<exists>k1 w. live_run lib oe inputs k0 = Done k1 \<and> wal k1 = Some w \<and> written lib wid md cls w \<and> contents w = cs \<and> instances k1 = insts'"
proof -
  have "w_next_seq (with_signature lib wid md cls) = 0" "contents (with_signature lib wid md cls) = []"
    by (simp_all add: with_signature_def Let_def contents_def)
  with live_run_refines [OF assms(1,2) written.fresh, of inputs cs insts' seq' oe] assms(3) show ?thesis by fastforce
qed

lemma live_then_replay:
  fixes k0 :: "'o Kernel" and kr :: "'p Kernel"
  assumes "encodes_all lib" and "wal k0 = Some (with_signature lib wid md cls)"
    and "instances kr = instances k0" and "action_registry kr = action_registry k0"
  shows "\<exists>k1 w rep kr'. live_run lib oe inputs k0 = Done k1 \<and> wal k1 = Some w \<and> written lib wid md cls w \<and>
     replay_records lib oe' dbg (from_writer w) kr = Done (Inr rep, kr') \<and>
     instances kr' = instances k1 \<and> final_chain_tip rep = writer_chain_tip w"
proof -
  obtain cs insts' seq' where l: "live_all (live_pure lib (action_registry k0)) inputs (instances k0, 0) = (cs, insts', seq')"
    by (cases "live_all (live_pure lib (action_registry k0)) inputs (instances k0, 0)") auto
  from run_contents [OF assms(1,2) l, of oe] obtain k1 w where
    k1: "live_run lib oe inputs k0 = Done k1" "wal k1 = Some w" "written lib wid md cls w" "contents w = cs" "instances k1 = insts'"
    by blast
  from kernel_log.redo_live_all [OF l] k1(4) assms(3,4)
  have "redo_all (redo_pure lib (action_registry kr)) (contents w) (instances kr, 0) = Some (insts', seq')" by simp
  from replay_records_complete [OF assms(1) k1(3) this] k1 show ?thesis by blast
qed

text \<open>The gates on a log that a writer has sealed: only the manifest can stand in the way.\<close>

lemma written_gates:
  assumes "written lib wid md cls w"
  shows "check_header_gates (from_writer w) = Inr ()" and "manifest_digest (header (from_writer w)) = md"
    and "world_id (header (from_writer w)) = wid"
proof -
  have h: "header (from_writer w) = w_header (with_signature lib wid md cls)"
    by (simp add: from_writer_def written_header [OF assms])
  show "check_header_gates (from_writer w) = Inr ()" "manifest_digest (header (from_writer w)) = md"
    "world_id (header (from_writer w)) = wid"
    unfolding check_header_gates_def h by (simp_all add: with_signature_def Let_def)
qed

lemma written_replay:
  assumes "written lib wid md cls w" and "class_keys_match lib cls" and "ed25519_laws lib" and "mldsa_laws lib"
  shows "replay_into lib oe dbg (from_writer w) k =
     (if md = kernel_manifest_digest k then replay_records lib oe dbg (from_writer w) k
      else Done (Inl (ReplayManifestDigestMismatch md (kernel_manifest_digest k)), k))"
  using written_gates [OF assms(1)] writer_inv_verifies [OF written_inv [OF assms(1)] assms(3,4,2)]
  by (simp add: replay_into_def)

subsection \<open>What a successful replay establishes\<close>

text \<open>A content without its sequence number; the measuring writer numbers afresh.\<close>

fun renumber :: "u64 \<Rightarrow> WalRecordContent \<Rightarrow> WalRecordContent" where
  "renumber s (Submit seq iid prin actor caps at tc bs aid) = Submit s iid prin actor caps at tc bs aid"
| "renumber s (Step seq iid pid now caps v d) = Step s iid pid now caps v d"

lemma append_ok_contents:
  assumes "append_submit lib iid prin actor caps at tc bs aid w = (Inr rec, w') \<or> append_step lib iid' pid now caps' v d w = (Inr rec, w')"
  shows "w_next_seq w' = saturating_add (w_next_seq w) 1 \<and> contents w' = contents w @ [content rec]"
proof -
  have "w_next_seq w' = n \<and> contents w' = contents w @ [content rec]"
    if "push_sealed lib c (w\<lparr>w_next_seq := n\<rparr>) = (Inr rec, w')" for c n
    by (rule push_sealed_cases [of lib c "w\<lparr>w_next_seq := n\<rparr>"]) (use that in \<open>auto simp: contents_def\<close>)
  with assms show ?thesis by (auto simp: append_submit_def append_step_def Let_def)
qed

lemma push_ok_content: "push_sealed lib c w = (Inr rec, w') \<Longrightarrow> content rec = c"
  by (rule push_sealed_cases [of lib c w]) auto

lemma replay_one_sound:
  assumes "replay_one lib oe dbg c rep w k = Done (Inr (rep', w'), k')" and "measures lib key w"
  defines "c' \<equiv> renumber (saturating_add (w_next_seq w) 1) c"
  shows "redo_pure lib (action_registry k) c' (instances k, w_next_seq w) = Some (instances k', w_next_seq w') \<and>
     contents w' = contents w @ [c'] \<and> action_registry k' = action_registry k \<and> measures lib key w'"
proof (cases c)
  case c: (Submit seq iid prin actor caps at tc bs aid)
  from assms(1) c obtain rec where a: "append_submit lib iid prin actor caps at tc bs aid w = (Inr rec, w')"
    and s: "submit_with_id iid prin actor caps aid at tc bs k = (Inr (), k')"
    by (auto split: prod.splits sum.splits)
  have "content rec = c'" using a push_ok_content by (auto simp: append_submit_def Let_def c'_def c)
  moreover have "measures lib key w'" using measures_append(1) [OF assms(2)] a by (metis snd_conv)
  ultimately show ?thesis using append_ok_contents [OF disjI1 [OF a]] s
    by (auto simp: c'_def c submit_with_id_def Let_def split: option.splits)
next
  case c: (Step seq iid pid now caps v d)
  obtain res insts1 where pp: "pure_process lib (action_registry k) now caps True iid (instances k) = (res, insts1)" by fastforce
  from process_refines [of lib oe iid now caps True k] pp obtain n k1 where
    k1: "process_instance_record lib oe iid now caps True k = Done (map_option (\<lambda>core. result_of core n) res, k1)"
      "instances k1 = insts1" "action_registry k1 = action_registry k" by (auto simp: rest_of_def)
  from assms(1) c k1(1) obtain core rec where core: "res = Some core" "k' = k1" "core_popped_id core = pid"
      "core_verdict core = v" "core_digest core = d" and a: "append_step lib iid pid now caps v d w = (Inr rec, w')"
    by (auto simp: result_of_def split: option.splits if_splits prod.splits sum.splits)
  have "content rec = c'" using a push_ok_content by (auto simp: append_step_def Let_def c'_def c)
  moreover have "measures lib key w'" using measures_append(2) [OF assms(2)] a by (metis snd_conv)
  ultimately show ?thesis using append_ok_contents [OF disjI2 [OF a]] core k1 pp by (simp add: c'_def c)
qed

fun renumber_all :: "u64 \<Rightarrow> WalRecordContent list \<Rightarrow> WalRecordContent list" where
  "renumber_all s [] = []"
| "renumber_all s (c # cs) = renumber (saturating_add s 1) c # renumber_all (saturating_add s 1) cs"

lemma redo_pure_seq: "redo_pure lib reg c (insts, s) = Some (insts', s') \<Longrightarrow> s' = content_seq c"
  by (cases c) (auto split: if_splits option.splits prod.splits)

lemma content_seq_renumber [simp]: "content_seq (renumber s c) = s"
  by (cases c) auto

lemma replay_loop_sound:
  "replay_loop lib oe dbg recs rep w k = Done (Inr (rep', w'), k') \<Longrightarrow> measures lib key w \<Longrightarrow>
   redo_all (redo_pure lib (action_registry k)) (renumber_all (w_next_seq w) (map content recs)) (instances k, w_next_seq w) =
     Some (instances k', w_next_seq w') \<and>
   contents w' = contents w @ renumber_all (w_next_seq w) (map content recs) \<and> measures lib key w'"
proof (induction recs arbitrary: rep w k)
  case (Cons rec recs)
  obtain r k1 where r: "replay_one lib oe dbg (content rec) rep w k = Done (r, k1)"
    using Cons.prems(1) by (auto simp: obind_eq_Done)
  with Cons.prems(1) obtain rep1 w1 where 1: "replay_one lib oe dbg (content rec) rep w k = Done (Inr (rep1, w1), k1)"
      "replay_loop lib oe dbg recs rep1 w1 k1 = Done (Inr (rep', w'), k')"
    by (cases r) auto
  note s = replay_one_sound [OF 1(1) Cons.prems(2)]
  then have "w_next_seq w1 = saturating_add (w_next_seq w) 1" using redo_pure_seq by fastforce
  with s Cons.IH [OF 1(2)] show ?case by auto
qed simp

subsection \<open>No panic\<close>

lemma anchored_returns: "\<exists>r. verify_chain_anchored lib wid anchor log = Done r"
proof -
  obtain r where "verify_chain lib wid log = Done r" using verify_chain_Done by (cases "verify_chain lib wid log") blast+
  then show ?thesis by (cases r; cases "header_tier log") (auto simp: verify_chain_anchored_def)
qed

lemma chain_returns: "\<exists>r. verify_chain lib wid log = Done r"
  using verify_chain_Done by (cases "verify_chain lib wid log") blast+

lemma replay_one_Done: "replay_one lib oe dbg c rep w k \<noteq> Panic"
proof (cases c)
  case (Step seq iid pid now caps v d)
  then show ?thesis using process_refines [of lib oe iid now caps True k]
    by (auto split: prod.splits sum.splits option.splits if_splits)
qed (auto split: prod.splits sum.splits)

lemma replay_records_Done: "replay_records lib oe dbg log k \<noteq> Panic"
proof -
  have "replay_loop lib oe dbg recs rep w k \<noteq> Panic" for recs rep w
    by (induction recs arbitrary: rep w k) (auto simp: obind_eq_Panic replay_one_Done split: sum.splits)
  then show ?thesis by (auto simp: replay_records_def obind_eq_Panic Let_def split: sum.splits if_splits)
qed

subsection \<open>Runs and their facts\<close>

lemma run_facts:
  assumes "encodes_all lib" and "wal k0 = Some (with_signature lib wid md cls)"
    and "live_run lib oe inputs k0 = Done k1" and "wal k1 = Some w"
  shows "\<exists>seq. written lib wid md cls w \<and>
     redo_all (redo_pure lib (action_registry k0)) (contents w) (instances k0, 0) = Some (instances k1, seq)"
proof -
  obtain cs insts' seq' where l: "live_all (live_pure lib (action_registry k0)) inputs (instances k0, 0) = (cs, insts', seq')"
    by (cases "live_all (live_pure lib (action_registry k0)) inputs (instances k0, 0)") auto
  from run_contents [OF assms(1,2) l, of oe] assms(3,4) have "written lib wid md cls w" "contents w = cs" "instances k1 = insts'" by auto
  with kernel_log.redo_live_all [OF l] show ?thesis by blast
qed

text \<open>The facts and the tip of a run do not depend on how the log is signed, nor on the manifest.\<close>

lemma same_run:
  fixes k :: "'o Kernel" and k' :: "'p Kernel"
  assumes "encodes_all lib" and "wal k = Some (with_signature lib wid md cls)" and "wal k' = Some (with_signature lib wid md' cls')"
    and "instances k' = instances k" and "action_registry k' = action_registry k"
  shows "\<exists>k1 w k2 w'. live_run lib oe inputs k = Done k1 \<and> wal k1 = Some w \<and> live_run lib oe' inputs k' = Done k2 \<and> wal k2 = Some w' \<and>
     written lib wid md cls w \<and> written lib wid md' cls' w' \<and> contents w' = contents w \<and> writer_chain_tip w' = writer_chain_tip w"
proof -
  obtain cs insts' seq' where l: "live_all (live_pure lib (action_registry k)) inputs (instances k, 0) = (cs, insts', seq')"
    by (cases "live_all (live_pure lib (action_registry k)) inputs (instances k, 0)") auto
  from run_contents [OF assms(1,2) l, of oe] obtain k1 w where
    1: "live_run lib oe inputs k = Done k1" "wal k1 = Some w" "written lib wid md cls w" "contents w = cs" by blast
  from run_contents [OF assms(1,3), of inputs cs insts' seq' oe'] l assms(4,5) obtain k2 w' where
    2: "live_run lib oe' inputs k' = Done k2" "wal k2 = Some w'" "written lib wid md' cls' w'" "contents w' = cs" by auto
  have "writer_chain_tip w' = writer_chain_tip w"
    using measures_tip [OF written_measures [OF 1(3)]] measures_tip [OF written_measures [OF 2(3)]] 1(4) 2(4) by simp
  with 1 2 show ?thesis by blast
qed

lemma replay_records_redo:
  assumes "encodes_all lib"
    and "redo_all (redo_pure lib (action_registry k)) (map content (records log)) (instances k, 0) = Some (insts', seq')"
    and "replay_records lib oe dbg log k = Done (r, k')"
  shows "instances k' = insts'"
proof -
  let ?m = "rebuild_from_header lib (header log)"
  have m: "w_next_seq ?m = 0" by (simp add: rebuild_from_header_def)
  from replay_loop_complete [OF assms(1) measures_fresh [of lib "header log"], of k "records log" insts' seq' oe dbg ReplayReport_default]
  obtain rep' w' k1 where "replay_loop lib oe dbg (records log) ReplayReport_default ?m k = Done (Inr (rep', w'), k1)" "instances k1 = insts'"
    using assms(2) m by auto
  with assms(3) show ?thesis by (auto simp: replay_records_def Let_def split: if_splits)
qed

subsection \<open>Anchored replay\<close>

text \<open>The anchor an operator records next to a run: the manifest and the tip of the log.\<close>

definition tip_anchor :: "bytes \<Rightarrow> WalWriter \<Rightarrow> TrustAnchor" where
  "tip_anchor md w =
     \<lparr>min_tier = None, anchor_ed25519_key = None, anchor_mldsa_key = None, expected_manifest_digest = Some md,
      expected_chain_tip = Some (writer_chain_tip w)\<rparr>"

lemma verified_replay_Inr:
  assumes "replay_into_verified lib oe dbg log wid anchor k = Done (Inr rep, k')"
  shows "verify_chain lib wid log = Done (Inr ())" and "pinned (expected_chain_tip anchor) (Some (chain_tip log))"
    and "replay_records lib oe dbg log k = Done (Inr rep, k')"
proof -
  obtain a v where a: "verify_chain_anchored lib wid anchor log = Done a" and v: "verify_chain lib wid log = Done v"
    using anchored_returns chain_returns by blast
  from assms a have "a = Inr ()" and r: "replay_records lib oe dbg log k = Done (Inr rep, k')"
    by (cases a; cases "check_header_gates log"; simp add: replay_into_verified_def)+
  with a v show "verify_chain lib wid log = Done (Inr ())" "pinned (expected_chain_tip anchor) (Some (chain_tip log))"
    by (cases v; cases "header_tier log"; auto simp: verify_chain_anchored_def split: if_splits)+
  show "replay_records lib oe dbg log k = Done (Inr rep, k')" by (rule r)
qed

lemma written_tip: "written lib wid md cls w \<Longrightarrow> chain_tip (from_writer w) = writer_chain_tip w"
  using written_measures [of lib wid md cls w]
  by (simp add: measures_def writer_linked_def writer_chain_tip_def chain_tip_eq from_writer_def)

lemma written_tier:
  assumes "written lib wid md cls w"
  shows "\<exists>tier. header_tier (from_writer w) = Inr tier"
proof -
  have "header (from_writer w) = w_header (with_signature lib wid md cls)"
    by (simp add: from_writer_def written_header [OF assms])
  then show ?thesis by (cases cls) (simp_all add: header_tier_def with_signature_def Let_def)
qed

lemma written_verified:
  assumes "written lib wid md cls w" and "class_keys_match lib cls" and "ed25519_laws lib" and "mldsa_laws lib"
  shows "replay_into_verified lib oe dbg (from_writer w) wid (tip_anchor md w) k = replay_records lib oe dbg (from_writer w) k"
proof -
  obtain tier where "header_tier (from_writer w) = Inr tier" using written_tier [OF assms(1)] by blast
  moreover have "verify_chain lib wid (from_writer w) = Done (Inr ())"
    using writer_inv_verifies [OF written_inv [OF assms(1)] assms(3,4,2)] .
  ultimately have "verify_chain_anchored lib wid (tip_anchor md w) (from_writer w) = Done (Inr ())"
    using written_gates(2) [OF assms(1)] written_tip [OF assms(1)]
    by (simp add: verify_chain_anchored_def tip_anchor_def pinned_def)
  then show ?thesis using written_gates(1) [OF assms(1)] by (simp add: replay_into_verified_def)
qed

subsection \<open>The digest of a pop\<close>

text \<open>A measured pop logs the digest of the instance it leaves behind, and keeps the reference counts.\<close>

lemma step_core_digest:
  assumes "step_one_core lib iid inst reg scratch now scaps md = Done (Some c, inst', scratch')"
  shows "core_digest c = digest_of lib md inst'"
proof (rule step_one_core_cases [of now inst lib iid reg scratch scaps md], goal_cases)
  case (3 entry sched r action eff acc g)
  then show ?case using assms
    by (cases "apply_stage (g_stage g) (inst\<lparr>inst_scheduler := sched\<rparr>)") (auto simp: finish_step_def core_without_effects_def Let_def split: if_splits)
qed (use assms in \<open>auto simp: core_without_effects_def\<close>)

lemma pure_core_digest:
  assumes "pure_core lib reg now scaps True iid inst = (Some c, inst')"
  shows "core_digest c = state_digest lib inst'"
  using pure_core_eq [of lib iid inst reg StepStage_default now scaps True] step_core_digest assms
  by (fastforce simp: digest_of_def)

lemma pure_core_refs:
  "inflight_refs (snd (pure_core lib reg now scaps md iid inst)) = inflight_refs inst"
  using pure_core_eq [of lib iid inst reg StepStage_default now scaps md] step_one_core_frame(3) by metis

lemma process_result:
  assumes "fmlookup (instances k) iid = Some inst" and "process_instance_record lib oe iid now scaps md k = Done (res, k')"
  shows "\<exists>n. res = map_option (\<lambda>c. result_of c n) (fst (pure_core lib (action_registry k) now scaps md iid inst))"
  using process_refines [of lib oe iid now scaps md k] assms
  by (auto simp: pure_process_def split: prod.splits option.splits)

section \<open>Properties\<close>

text \<open>
  C1 (replay reproduces the run). Take any kernel with a fresh signed log and any sequence of
  submits and steps. The run returns; the log it wrote, replayed into a kernel with the same
  instances, action registry and manifest but arbitrary other observers, is accepted; the instances
  afterwards are exactly those of the live kernel, and the measured chain tip is the live tip.
  Hypotheses: record bodies can be encoded, the signing keys match, and the signature libraries
  verify what they signed.
\<close>

theorem replay_reproduces:
  fixes k0 :: "'o Kernel" and kr :: "'p Kernel"
  assumes "wal k0 = Some (with_signature lib wid md cls)"
    and "instances kr = instances k0" and "action_registry kr = action_registry k0" and "kernel_manifest_digest kr = md"
    and "encodes_all lib" and "class_keys_match lib cls" and "ed25519_laws lib" and "mldsa_laws lib"
  shows "\<exists>k1 w rep kr'. live_run lib oe inputs k0 = Done k1 \<and> wal k1 = Some w \<and>
     replay_into lib oe' dbg (from_writer w) kr = Done (Inr rep, kr') \<and>
     instances kr' = instances k1 \<and> final_chain_tip rep = writer_chain_tip w"
proof -
  obtain k1 w rep kr' where r: "live_run lib oe inputs k0 = Done k1" "wal k1 = Some w" "written lib wid md cls w"
      "replay_records lib oe' dbg (from_writer w) kr = Done (Inr rep, kr')" "instances kr' = instances k1"
      "final_chain_tip rep = writer_chain_tip w"
    using live_then_replay [OF assms(5,1-3)] by blast
  have "replay_into lib oe' dbg (from_writer w) kr = Done (Inr rep, kr')"
    using written_replay [OF r(3) assms(6-8), of oe' dbg kr] r(4) assms(4) by simp
  with r show ?thesis by blast
qed

theorem replay_reproduces_witness:
  "\<exists>k1 w rep kr'.
     live_run sample_lib ignore_events [InSubmit (InstanceId 1) System None 1 (Tick 0) (TypeCode 7) [3], InStep (Tick 0) 1] sample_kernel = Done k1 \<and>
     wal k1 = Some w \<and> replay_into sample_lib (\<lambda>o' ev. None) (\<lambda>e. []) (from_writer w) (sample_kernel\<lparr>wal := None\<rparr>) = Done (Inr rep, kr') \<and>
     instances kr' = instances k1 \<and> final_chain_tip rep = writer_chain_tip w"
proof (rule replay_reproduces)
  show "wal sample_kernel = Some (with_signature sample_lib zero32 zero32 sample_class)"
    by (simp add: sample_kernel_def new_with_wal_signed_def)
  show "encodes_all sample_lib" by (simp add: encodes_all_def sample_lib_def)
  show "class_keys_match sample_lib sample_class" by (simp add: sample_class_def)
qed (simp_all add: sample_kernel_def new_with_wal_signed_def)

text \<open>
  C15 (an accepted log was really re-executed). If \<open>replay_into\<close> reports success, then the header
  gates, the manifest gate and the chain verification passed, the reported tip is the sealed one,
  and the final instances are the result of re-executing, from the initial ones, exactly the facts
  of the log numbered 1, 2, 3, \<dots>: every submit admitted, every step popping the recorded action with
  the recorded verdict and state digest. The recorded sequence numbers are then 1, 2, 3, \<dots> as well,
  unless the hashes computed for the two chains exhibit a collision.
\<close>

theorem replay_sound:
  assumes "replay_into lib oe dbg log k = Done (Inr rep, k')"
  defines "cs \<equiv> renumber_all 0 (map content (records log))" and "key \<equiv> build_chain_key lib (world_id (header log))"
  defines "S \<equiv> visited (chain_link lib key) zero32 cs \<union> visited (chain_link lib key) zero32 (map content (records log))"
  shows "check_header_gates log = Inr () \<and> manifest_digest (header log) = kernel_manifest_digest k \<and>
     verify_chain lib (world_id (header log)) log = Done (Inr ()) \<and> final_chain_tip rep = chain_tip log \<and>
     (\<exists>n. redo_all (redo_pure lib (action_registry k)) cs (instances k, 0) = Some (instances k', n)) \<and>
     (map content (records log) = cs \<or> chain_broken lib key S)"
proof -
  obtain v where v: "verify_chain lib (world_id (header log)) log = Done v" using chain_returns by blast
  with assms(1) have g: "check_header_gates log = Inr ()" "manifest_digest (header log) = kernel_manifest_digest k"
      "verify_chain lib (world_id (header log)) log = Done (Inr ())" and r: "replay_records lib oe dbg log k = Done (Inr rep, k')"
    by (cases v; cases "check_header_gates log"; auto simp: replay_into_def split: if_splits)+
  obtain res k1 where res: "replay_loop lib oe dbg (records log) ReplayReport_default (rebuild_from_header lib (header log)) k = Done (res, k1)"
    using r by (auto simp: replay_records_def obind_eq_Done)
  with r obtain rep1 w1 where l: "replay_loop lib oe dbg (records log) ReplayReport_default (rebuild_from_header lib (header log)) k = Done (Inr (rep1, w1), k')"
      "writer_chain_tip w1 = chain_tip log" "final_chain_tip rep = chain_tip log"
    by (cases res) (auto simp: replay_records_def Let_def split: if_splits)
  have m: "w_next_seq (rebuild_from_header lib (header log)) = 0" "contents (rebuild_from_header lib (header log)) = []"
    by (simp_all add: rebuild_from_header_def contents_def)
  note s = replay_loop_sound [OF l(1) measures_fresh, unfolded m, folded cs_def key_def]
  have "run_chain (chain_link lib key) zero32 cs = Some (chain_tip log)"
    using measures_tip s l(2) by fastforce
  moreover have "run_chain (chain_link lib key) zero32 (map content (records log)) = Some (chain_tip log)"
    using g(3) linked_run_chain by (auto simp: verify_chain_iff chain_tip_eq key_def)
  ultimately have "map content (records log) = cs" if "\<not> chain_broken lib key S"
    using wal_chain.tip_determines [OF that] by (auto simp: S_def)
  with g s l(3) show ?thesis by blast
qed

theorem replay_sound_witness:
  "let log = from_writer (with_signature sample_lib zero32 zero32 sample_class)
   in check_header_gates log = Inr () \<and> verify_chain sample_lib (world_id (header log)) log = Done (Inr ())"
proof -
  let ?log = "from_writer (with_signature sample_lib zero32 zero32 sample_class)"
  have v: "verify_chain sample_lib zero32 ?log = Done (Inr ())"
    by (rule writer_inv_verifies [OF writer_inv_fresh]) (simp_all add: sample_class_def)
  have "replay_into sample_lib ignore_events (\<lambda>e. []) ?log sample_kernel =
      Done (Inr (ReplayReport_default\<lparr>final_chain_tip := zero32\<rparr>), sample_kernel)"
    using v by (simp add: replay_into_def check_header_gates_def from_writer_def with_signature_def Let_def sample_kernel_def
        new_with_wal_signed_def replay_records_def writer_chain_tip_def rebuild_from_header_def chain_tip_def)
  from replay_sound [OF this] show ?thesis by (simp add: Let_def)
qed

text \<open>
  C28 (anchored replay is authentic). An operator has pinned the chain tip that a live run has written to its
  log. Any log whatever that \<open>replay_into_verified\<close> then accepts under this pin, for the same world and into
  a kernel with the instances and action types the run began with, holds exactly the facts of the run, and
  the kernel ends with exactly the instances of the live one, unless the hashes computed for the two logs
  exhibit a collision (two different bodies with one hash, or a body that hashes to the zero sentinel).
\<close>

theorem anchored_replay_authentic:
  fixes k0 :: "'o Kernel" and kr :: "'p Kernel"
  assumes "wal k0 = Some (with_signature lib wid md cls)" and "live_run lib oe inputs k0 = Done k1" and "wal k1 = Some w"
    and "encodes_all lib" and "digest32 lib (build_chain_key lib wid)"
    and "instances kr = instances k0" and "action_registry kr = action_registry k0"
    and "expected_chain_tip anchor = Some (writer_chain_tip w)"
    and "replay_into_verified lib oe' dbg log wid anchor kr = Done (Inr rep, kr')"
  defines "S \<equiv> visited (chain_link lib (build_chain_key lib wid)) zero32 (contents w) \<union>
               visited (chain_link lib (build_chain_key lib wid)) zero32 (map content (records log))"
  shows "(map content (records log) = contents w \<and> instances kr' = instances k1) \<or>
     link_clash lib (build_chain_key lib wid) S \<or> zero_link lib (build_chain_key lib wid) S"
proof -
  let ?key = "build_chain_key lib wid"
  from run_facts [OF assms(4,1-3)] obtain seq where w: "written lib wid md cls w"
    and redo: "redo_all (redo_pure lib (action_registry k0)) (contents w) (instances k0, 0) = Some (instances k1, seq)" by blast
  from verified_replay_Inr [OF assms(9)] have v: "verify_chain lib wid log = Done (Inr ())" "chain_tip log = writer_chain_tip w"
      "replay_records lib oe' dbg log kr = Done (Inr rep, kr')"
    using assms(8) by (auto simp: pinned_def)
  have "run_chain (chain_link lib ?key) zero32 (map content (records log)) = Some (writer_chain_tip w)"
    using v(1,2) linked_run_chain [of lib ?key zero32 "records log"] by (auto simp: verify_chain_iff chain_tip_eq)
  then have c: "map content (records log) = contents w" if "\<not> chain_broken lib ?key S"
    using wal_chain.tip_determines [OF that measures_tip [OF written_measures [OF w]], of "map content (records log)"]
    by (simp add: S_def)
  moreover have "instances kr' = instances k1" if "map content (records log) = contents w"
    using replay_records_redo [OF assms(4) _ v(3)] redo that assms(6,7) by simp
  ultimately show ?thesis using assms(5) by (auto simp: chain_broken_def)
qed

text \<open>The witness pins the tip of a signed run and replays the log that an unsigned kernel wrote of the same inputs.\<close>

theorem anchored_replay_authentic_witness:
  "\<exists>k1 w k2 w' rep kr'.
     live_run sample_lib ignore_events [InSubmit (InstanceId 1) System None 1 (Tick 0) (TypeCode 7) [3], InStep (Tick 0) 1] sample_kernel = Done k1 \<and>
     wal k1 = Some w \<and>
     live_run sample_lib ignore_events [InSubmit (InstanceId 1) System None 1 (Tick 0) (TypeCode 7) [3], InStep (Tick 0) 1]
       (sample_kernel\<lparr>wal := Some (WalWriter_new sample_lib zero32 zero32)\<rparr>) = Done k2 \<and> wal k2 = Some w' \<and>
     replay_into_verified sample_lib ignore_events (\<lambda>e. []) (from_writer w') zero32 (tip_anchor zero32 w) (sample_kernel\<lparr>wal := None\<rparr>) = Done (Inr rep, kr') \<and>
     (map content (records (from_writer w')) = contents w \<and> instances kr' = instances k1 \<or>
      (let key = build_chain_key sample_lib zero32;
           S = visited (chain_link sample_lib key) zero32 (contents w) \<union> visited (chain_link sample_lib key) zero32 (map content (records (from_writer w')))
       in link_clash sample_lib key S \<or> zero_link sample_lib key S))"
proof -
  let ?in = "[InSubmit (InstanceId 1) System None 1 (Tick 0) (TypeCode 7) [3], InStep (Tick 0) 1]"
  let ?k0 = "sample_kernel" and ?k0' = "sample_kernel\<lparr>wal := Some (WalWriter_new sample_lib zero32 zero32)\<rparr>" and ?kr = "sample_kernel\<lparr>wal := None\<rparr>"
  have w0: "wal ?k0 = Some (with_signature sample_lib zero32 zero32 sample_class)" "wal ?k0' = Some (with_signature sample_lib zero32 zero32 SigNone)"
    by (simp_all add: sample_kernel_def new_with_wal_signed_def WalWriter_new_def)
  have e: "encodes_all sample_lib" by (simp add: encodes_all_def sample_lib_def)
  from same_run [OF e w0, where inputs = ?in and oe = ignore_events and oe' = ignore_events] obtain k1 w k2 w' where
    r: "live_run sample_lib ignore_events ?in ?k0 = Done k1" "wal k1 = Some w"
      "live_run sample_lib ignore_events ?in ?k0' = Done k2" "wal k2 = Some w'" "written sample_lib zero32 zero32 SigNone w'"
      "writer_chain_tip w' = writer_chain_tip w" by auto
  from live_then_replay [OF e w0(2), of ?kr ignore_events ?in ignore_events "\<lambda>e. []"] r(3,4) obtain rep kr' where
    p: "replay_records sample_lib ignore_events (\<lambda>e. []) (from_writer w') ?kr = Done (Inr rep, kr')" by auto
  have "tip_anchor zero32 w = tip_anchor zero32 w'" by (simp add: tip_anchor_def r(6))
  with written_verified [OF r(5) _ sample_laws(1,2), of ignore_events "\<lambda>e. []" ?kr] p
  have v: "replay_into_verified sample_lib ignore_events (\<lambda>e. []) (from_writer w') zero32 (tip_anchor zero32 w) ?kr = Done (Inr rep, kr')"
    by simp
  have x: "expected_chain_tip (tip_anchor zero32 w) = Some (writer_chain_tip w)" by (simp add: tip_anchor_def)
  from anchored_replay_authentic [OF w0(1) r(1,2) e sample_laws(3) _ _ x v] r(1-4) v show ?thesis
    by (simp add: Let_def)
qed

text \<open>
  C27 (replay is total). On every log, however malformed, and every kernel, both replay entry points
  return a report or an error; no arm of the code they reach panics.
\<close>

theorem replay_never_panics:
  "(\<exists>r k'. replay_into lib oe dbg log k = Done (r, k')) \<and> (\<exists>r k'. replay_into_verified lib oe dbg log wid anchor k = Done (r, k'))"
proof -
  obtain r1 k1 where r1: "replay_records lib oe dbg log k = Done (r1, k1)"
    using replay_records_Done [of lib oe dbg log k] by (cases "replay_records lib oe dbg log k") auto
  obtain v where v: "verify_chain lib (world_id (header log)) log = Done v" using chain_returns by blast
  obtain a where a: "verify_chain_anchored lib wid anchor log = Done a" using anchored_returns by blast
  show ?thesis
    using r1 v a by (auto simp: replay_into_def replay_into_verified_def split: sum.splits)
qed

text \<open>
  C38 (an unload is missing from the log). \<open>force_unload\<close> drops the references that instances hold on a route
  and appends no record, while the state digest covers them. Let an instance hold references on the
  unloaded route, let the kernel then record its next pop of any action of that instance, and let a replica
  replay this record on the instances as the log has them. The two pops end in different instances, and
  the replica rejects the record, whatever the action does, unless these two instances have the same
  state digest.
\<close>

theorem force_unload_breaks_replay:
  fixes k :: "'o Kernel" and kr :: "'p Kernel"
  assumes "contains caps ADMIN_UNLOAD" and "fmlookup (instances k) iid = Some inst" and "fmlookup (inflight_refs inst) route = Some refs"
    and "process_instance_record lib oe iid now scaps True (snd (force_unload oe route caps k)) = Done (Some r, k1)"
    and "instances kr = instances k" and "action_registry kr = action_registry k"
  defines "live \<equiv> snd (pure_core lib (action_registry k) now scaps True iid (drop_route route inst))"
    and "replica \<equiv> snd (pure_core lib (action_registry k) now scaps True iid inst)"
  shows "wal (snd (force_unload oe route caps k)) = wal k \<and> inflight_refs live \<noteq> inflight_refs replica \<and>
     (state_digest lib live = state_digest lib replica \<or>
      (\<exists>e k2. replay_one lib oe' dbg (Step seq iid (result_popped_id r) now scaps (result_verdict r) (result_digest r)) rep w kr =
         Done (Inl e, k2)))"
proof -
  let ?ku = "snd (force_unload oe route caps k)"
  have ku: "fmlookup (instances ?ku) iid = Some (drop_route route inst)" "action_registry ?ku = action_registry k" "wal ?ku = wal k"
    using assms(1,2) by (simp_all add: force_unload_def Let_def)
  have "fmlookup (inflight_refs live) route \<noteq> fmlookup (inflight_refs replica) route"
    using assms(3) by (simp add: live_def replica_def pure_core_refs drop_route_def)
  then have refs: "inflight_refs live \<noteq> inflight_refs replica" by metis
  obtain c n where c: "pure_core lib (action_registry k) now scaps True iid (drop_route route inst) = (Some c, live)" "r = result_of c n"
    using process_result [OF ku(1) assms(4)] ku(2)
    by (cases "pure_core lib (action_registry k) now scaps True iid (drop_route route inst)") (auto simp: live_def map_option_case split: option.splits)
  obtain res k2 where p: "process_instance_record lib oe' iid now scaps True kr = Done (res, k2)"
    using process_refines [of lib oe' iid now scaps True kr] by auto
  obtain m where res: "res = map_option (\<lambda>c. result_of c m) (fst (pure_core lib (action_registry k) now scaps True iid inst))"
    using process_result [OF _ p, of inst] assms(2,5,6) by auto
  have "\<exists>e k2. replay_one lib oe' dbg (Step seq iid (result_popped_id r) now scaps (result_verdict r) (result_digest r)) rep w kr = Done (Inl e, k2)"
    if "state_digest lib live \<noteq> state_digest lib replica"
  proof (cases res)
    case None
    then show ?thesis using p by simp
  next
    case (Some r')
    with res obtain c' where c': "pure_core lib (action_registry k) now scaps True iid inst = (Some c', replica)" "r' = result_of c' m"
      by (cases "pure_core lib (action_registry k) now scaps True iid inst") (auto simp: replica_def map_option_case split: option.splits)
    have "result_digest r' \<noteq> result_digest r"
      using pure_core_digest [OF c(1)] pure_core_digest [OF c'(1)] that c(2) c'(2) by (simp add: result_of_def)
    then show ?thesis using p Some by simp
  qed
  with ku(3) refs show ?thesis by blast
qed

definition refs_lib :: WalLib where
  "refs_lib = sample_lib\<lparr>postcard_instance := \<lambda>s. Some [of_nat (bt_len (snap_inflight_refs s))]\<rparr>"

definition refs_instance :: Instance where
  "refs_instance = (sample_instance bypass_config)\<lparr>inflight_refs := fmupd (RouteId 4) 1 fmempty\<rparr>"

theorem force_unload_breaks_replay_witness:
  "\<exists>r k1 e k2. process_instance_record refs_lib ignore_events (InstanceId 1) (Tick 0) 1 True
       (snd (force_unload ignore_events (RouteId 4) ADMIN_UNLOAD (sample_kernel\<lparr>instances := fmupd (InstanceId 1) refs_instance fmempty\<rparr>)))
       = Done (Some r, k1) \<and>
     replay_one refs_lib ignore_events (\<lambda>e. [])
       (Step 1 (InstanceId 1) (result_popped_id r) (Tick 0) 1 (result_verdict r) (result_digest r)) ReplayReport_default sample_writer
       (sample_kernel\<lparr>instances := fmupd (InstanceId 1) refs_instance fmempty\<rparr>) = Done (Inl e, k2)"
proof -
  let ?k = "sample_kernel\<lparr>instances := fmupd (InstanceId 1) refs_instance fmempty\<rparr>"
  let ?s = "Scheduler_new\<lparr>next_seq := 1, next_id := 1\<rparr>"
  have reg: "action_registry ?k = ActionRegistry_new" by (simp add: sample_kernel_def new_with_wal_signed_def)
  have core: "pure_core refs_lib ActionRegistry_new (Tick 0) 1 True (InstanceId 1) i =
      (Some (core_without_effects refs_lib True sample_entry (Skipped Unregistered) 0 (i\<lparr>inst_scheduler := ?s\<rparr>)), i\<lparr>inst_scheduler := ?s\<rparr>)"
    if "inst_scheduler i = inst_scheduler refs_instance" for i
    using that by (simp add: pure_core_def step_one_core_def refs_instance_def sample_pop registry_get_def ActionRegistry_new_def Let_def)
  have l: "fmlookup (instances ?k) (InstanceId 1) = Some refs_instance" "fmlookup (inflight_refs refs_instance) (RouteId 4) = Some 1"
    by (simp_all add: refs_instance_def)
  let ?ku = "snd (force_unload ignore_events (RouteId 4) ADMIN_UNLOAD ?k)"
  have ku: "fmlookup (instances ?ku) (InstanceId 1) = Some (drop_route (RouteId 4) refs_instance)" "action_registry ?ku = ActionRegistry_new"
    using reg by (simp_all add: force_unload_def Let_def contains_def)
  obtain res k1 where p: "process_instance_record refs_lib ignore_events (InstanceId 1) (Tick 0) 1 True ?ku = Done (res, k1)"
    using process_refines [of refs_lib ignore_events "InstanceId 1" "Tick 0" 1 True ?ku] by auto
  with process_result [OF ku(1) p] core [of "drop_route (RouteId 4) refs_instance"] ku(2) obtain r where
    r: "process_instance_record refs_lib ignore_events (InstanceId 1) (Tick 0) 1 True ?ku = Done (Some r, k1)"
    by (auto simp: drop_route_def)
  have d: "state_digest refs_lib ((drop_route (RouteId 4) refs_instance)\<lparr>inst_scheduler := ?s\<rparr>) \<noteq>
      state_digest refs_lib (refs_instance\<lparr>inst_scheduler := ?s\<rparr>)"
    by (simp add: state_digest_def refs_lib_def sample_lib_def refs_instance_def drop_route_def to_snapshot_def bt_len_upd
        sample_bytes_def)
  have c: "contains ADMIN_UNLOAD ADMIN_UNLOAD" by (simp add: contains_def)
  from force_unload_breaks_replay [OF c l r refl refl, of ignore_events "\<lambda>e. []" 1 ReplayReport_default sample_writer]
    core [of refs_instance] core [of "drop_route (RouteId 4) refs_instance"] d reg
  have "\<exists>e k2. replay_one refs_lib ignore_events (\<lambda>e. [])
       (Step 1 (InstanceId 1) (result_popped_id r) (Tick 0) 1 (result_verdict r) (result_digest r)) ReplayReport_default sample_writer ?k = Done (Inl e, k2)"
    by (simp add: drop_route_def)
  with r show ?thesis by blast
qed

end
