(* ===== verification/Reachable.thy ===== *)
theory Reachable
  imports Replay
begin

text \<open>
  The kernels a program can bring about, and what holds in all of them. \<open>kernel_reach\<close> closes the fresh
  kernels under the public operations of \<open>runtime/kernel.rs\<close> that change a kernel, under restoring a
  kernel's own snapshot, and under both entry points of \<open>persist/replay.rs\<close>. Replay readmits a recorded
  submit without the checks of \<open>submit\<close>, so a replayed log has to satisfy \<open>admissible\<close>; the log of every run
  does, and the last section shows what the code does with a log that does not.
\<close>

section \<open>Admissible logs\<close>

text \<open>Whether the back-pressure check of \<open>submit\<close> lets one more action in.\<close>

definition has_room :: "Instance \<Rightarrow> bool" where
  "has_room inst \<longleftrightarrow> \<not> (0 < max_scheduled (inst_config inst) \<and>
     unat (max_scheduled (inst_config inst)) \<le> sched_len (inst_scheduler inst))"

definition next_sid :: "Instance \<Rightarrow> ScheduledActionId" where
  "next_sid inst = ScheduledActionId (saturating_add (next_scheduled (inst_counters inst)) 1)"

text \<open>
  Followed from the instances \<open>insts\<close>, every submit record of the log is one that \<open>submit\<close> would make at
  this point: the instance has room and the recorded id is the one \<open>submit\<close> would return. Nothing is asked of
  step records, nor of a submit to an unknown instance, where replay stops with an error.
\<close>

fun admissible :: "'z DigestLib_scheme \<Rightarrow> ActionRegistry \<Rightarrow> WalRecordContent list \<Rightarrow> (InstanceId, Instance) fmap \<Rightarrow> bool" where
  "admissible lib reg [] insts = True"
| "admissible lib reg (Submit seq iid prin actor caps at tc bs aid # cs) insts =
     (case fmlookup insts iid of
        None \<Rightarrow> True
      | Some inst \<Rightarrow> has_room inst \<and> aid = next_sid inst \<and>
          admissible lib reg cs (fmupd iid (admit aid prin actor caps at tc bs (scheduled_id_get aid) inst) insts))"
| "admissible lib reg (Step seq iid pid now caps v d # cs) insts =
     admissible lib reg cs (snd (pure_process lib reg now caps True iid insts))"

lemma submit_with_next_sid:
  assumes "fmlookup (instances k) iid = Some inst" and "aid = next_sid inst"
  shows "submit_with_id iid prin actor caps aid at tc bs k =
     (Inr (), k\<lparr>instances := fmupd iid (admit aid prin actor caps at tc bs (scheduled_id_get aid) inst) (instances k)\<rparr>)"
  unfolding submit_with_id_def assms(1) assms(2) option.case next_sid_def ScheduledActionId.sel Let_def submit_id_counter ..

text \<open>Logs of runs are admissible: a step record asks nothing, and \<open>submit\<close> logs only what it admitted.\<close>

lemma admissible_append:
  "redo_all (redo_pure lib reg) cs (insts, s) = Some (insts', s') \<Longrightarrow>
   admissible lib reg (cs @ ds) insts \<longleftrightarrow> admissible lib reg cs insts \<and> admissible lib reg ds insts'"
proof (induction cs arbitrary: insts s)
  case (Cons c cs)
  show ?case
  proof (cases c)
    case c: (Submit seq iid prin actor caps at tc bs aid)
    from Cons.prems c obtain inst where i: "fmlookup insts iid = Some inst"
      by (auto split: bind_splits if_splits option.splits)
    let ?i = "fmupd iid (admit aid prin actor caps at tc bs (scheduled_id_get aid) inst) insts"
    have "redo_all (redo_pure lib reg) cs (?i, seq) = Some (insts', s')" if "aid = next_sid inst"
      using Cons.prems c i that submit_id_counter [of "next_scheduled (inst_counters inst)"]
      by (simp add: next_sid_def Let_def split: if_splits)
    with Cons.IH c i show ?thesis by auto
  next
    case c: (Step seq iid pid now caps v d)
    obtain res m where p: "pure_process lib reg now caps True iid insts = (res, m)" by fastforce
    with Cons.prems c have "redo_all (redo_pure lib reg) cs (m, seq) = Some (insts', s')"
      by (auto split: bind_splits if_splits option.splits)
    with Cons.IH c p show ?thesis by simp
  qed
qed simp

lemma admissible_steps: "admissible lib reg (step_contents now caps seq log) insts"
  by (induction log arbitrary: seq insts) (auto simp: Let_def)

lemma live_admissible:
  "live_pure lib reg i (insts, seq) = (cs, s') \<Longrightarrow> admissible lib reg cs insts"
  by (cases i) (auto simp: admissible_steps has_room_def next_sid_def Let_def case_prod_beta split: option.splits if_splits)

lemma live_all_admissible:
  "live_all (live_pure lib reg) inputs (insts, seq) = (cs, s') \<Longrightarrow> admissible lib reg cs insts"
proof (induction inputs arbitrary: insts seq cs)
  case (Cons i inputs)
  obtain cs1 insts1 seq1 where 1: "live_pure lib reg i (insts, seq) = (cs1, insts1, seq1)"
    by (cases "live_pure lib reg i (insts, seq)") auto
  obtain ds where 2: "live_all (live_pure lib reg) inputs (insts1, seq1) = (ds, s')" and "cs = cs1 @ ds"
    using Cons.prems 1 by (auto split: prod.splits)
  with Cons.IH [OF 2] live_admissible [OF 1] kernel_log.redo_live [OF 1] show ?case
    by (simp add: admissible_append)
qed simp

section \<open>Reachable kernels\<close>

text \<open>
  \<open>kernel_reach lib oe M n k\<close>: the kernel \<open>k\<close> is the result of \<open>n\<close> calls on a fresh kernel, with actions that
  return at most \<open>M\<close> intents. Registering a type is adding an entry to the registry; a replay counts one
  call per record, whether it succeeds or stops with an error half way.
\<close>

inductive kernel_reach ::
  "'z WalLib_scheme \<Rightarrow> ('o \<Rightarrow> KernelEvent \<Rightarrow> 'o option) \<Rightarrow> nat \<Rightarrow> nat \<Rightarrow> 'o Kernel \<Rightarrow> bool" for lib oe M where
  fresh: "kernel_reach lib oe M 0 Kernel_new"
| fresh_wal: "kernel_reach lib oe M 0 (new_with_wal_signed lib wid mdigest cls)"
| action: "kernel_reach lib oe M n k \<Longrightarrow> ops_bounded M (fmupd tc r (action_registry k)) \<Longrightarrow>
    kernel_reach lib oe M (Suc n) (k\<lparr>action_registry := fmupd tc r (action_registry k)\<rparr>)"
| observer: "kernel_reach lib oe M n k \<Longrightarrow> kernel_reach lib oe M (Suc n) (snd (register_observer_filtered obs emask k))"
| create: "kernel_reach lib oe M n k \<Longrightarrow> create_instance config k = Done (iid, k') \<Longrightarrow> kernel_reach lib oe M (Suc n) k'"
| submit: "kernel_reach lib oe M n k \<Longrightarrow> submit lib iid prin actor caps at tc bs k = Done (r, k') \<Longrightarrow>
    kernel_reach lib oe M (Suc n) k'"
| step: "kernel_reach lib oe M n k \<Longrightarrow> step lib oe now caps k = Done (rep, k') \<Longrightarrow> kernel_reach lib oe M (Suc n) k'"
| unload: "kernel_reach lib oe M n k \<Longrightarrow> kernel_reach lib oe M (Suc n) (snd (force_unload oe route caps k))"
| restore: "kernel_reach lib oe M n k \<Longrightarrow> kernel_reach lib oe M (Suc n) (kernel_from_snapshot (snapshot k))"
| replay: "kernel_reach lib oe M n k \<Longrightarrow> replay_into lib oe dbg log k = Done (r, k') \<Longrightarrow>
    admissible lib (action_registry k) (map content (records log)) (instances k) \<Longrightarrow>
    kernel_reach lib oe M (n + length (records log)) k'"
| replay_verified: "kernel_reach lib oe M n k \<Longrightarrow> replay_into_verified lib oe dbg log wid anchor k = Done (r, k') \<Longrightarrow>
    admissible lib (action_registry k) (map content (records log)) (instances k) \<Longrightarrow>
    kernel_reach lib oe M (n + length (records log)) k'"

subsection \<open>What replay keeps\<close>

text \<open>
  A family of kernel predicates that readmission of an admissible submit and a pop keep is kept by the
  record loop and by both entry points.
\<close>

definition replay_stable ::
  "'z WalLib_scheme \<Rightarrow> ('o \<Rightarrow> KernelEvent \<Rightarrow> 'o option) \<Rightarrow> (nat \<Rightarrow> 'o Kernel \<Rightarrow> bool) \<Rightarrow> bool" where
  "replay_stable lib oe P \<longleftrightarrow>
     (\<forall>n k. P n k \<longrightarrow> P (Suc n) k) \<and>
     (\<forall>n k iid inst prin actor caps at tc bs. P n k \<longrightarrow> fmlookup (instances k) iid = Some inst \<longrightarrow> has_room inst \<longrightarrow>
        P (Suc n) (k\<lparr>instances := fmupd iid (admit (next_sid inst) prin actor caps at tc bs (scheduled_id_get (next_sid inst)) inst) (instances k)\<rparr>)) \<and>
     (\<forall>n k iid now caps r k'. P n k \<longrightarrow> process_instance_record lib oe iid now caps True k = Done (r, k') \<longrightarrow> P (Suc n) k')"

lemma stable_mono: "replay_stable lib oe P \<Longrightarrow> P n k \<Longrightarrow> P (n + m) k"
  by (induction m) (auto simp: replay_stable_def)

lemma replay_one_stable:
  assumes "replay_stable lib oe P" and "P n k" and "replay_one lib oe dbg c rep w k = Done (r, k')"
    and "admissible lib (action_registry k) (c # cs) (instances k)"
  shows "P (Suc n) k' \<and> (\<forall>y. r = Inr y \<longrightarrow> admissible lib (action_registry k') cs (instances k'))"
proof (cases c)
  case c: (Submit seq iid prin actor caps at tc bs aid)
  show ?thesis
  proof (cases "fmlookup (instances k) iid")
    case None
    with assms c show ?thesis by (auto simp: submit_with_id_def replay_stable_def)
  next
    case (Some inst)
    with assms(4) c have a: "has_room inst" "aid = next_sid inst" by simp_all
    with assms(3,4) c Some have "k' = k\<lparr>instances := fmupd iid (admit aid prin actor caps at tc bs (scheduled_id_get aid) inst) (instances k)\<rparr>"
      by (auto simp: submit_with_next_sid split: prod.splits sum.splits)
    with assms(1,2,4) c Some a show ?thesis by (simp add: replay_stable_def)
  qed
next
  case c: (Step seq iid pid now caps v d)
  from process_refines [of lib oe iid now caps True k] obtain res k1 where
    p: "process_instance_record lib oe iid now caps True k = Done (res, k1)"
      "instances k1 = snd (pure_process lib (action_registry k) now caps True iid (instances k))" "action_registry k1 = action_registry k"
    by (auto simp: rest_of_def)
  have "k' = k1" using assms(3) c p(1) by (auto split: option.splits if_splits prod.splits sum.splits)
  moreover have "P (Suc n) k1" using assms(1,2) p(1) unfolding replay_stable_def by blast
  ultimately show ?thesis using assms(4) c p(2,3) by simp
qed

lemma replay_loop_stable:
  assumes "replay_stable lib oe P"
  shows "P n k \<Longrightarrow> replay_loop lib oe dbg recs rep w k = Done (r, k') \<Longrightarrow>
    admissible lib (action_registry k) (map content recs) (instances k) \<Longrightarrow> P (n + length recs) k'"
proof (induction recs arbitrary: n rep w k)
  case (Cons rec recs)
  obtain r1 k1 where 1: "replay_one lib oe dbg (content rec) rep w k = Done (r1, k1)"
    using Cons.prems(2) by (auto simp: obind_eq_Done)
  note s = replay_one_stable [OF assms Cons.prems(1) 1 Cons.prems(3) [simplified]]
  show ?case
  proof (cases r1)
    case (Inl e)
    then show ?thesis using stable_mono [OF assms, of "Suc n" k1 "length recs"] s 1 Cons.prems(2) by simp
  next
    case (Inr y)
    then show ?thesis using Cons.IH [of "Suc n" k1 "fst y" "snd y"] s 1 Cons.prems(2) by (simp add: case_prod_beta)
  qed
qed simp

lemma replay_records_stable:
  assumes "replay_stable lib oe P" and "P n k" and "replay_records lib oe dbg log k = Done (r, k')"
    and "admissible lib (action_registry k) (map content (records log)) (instances k)"
  shows "P (n + length (records log)) k'"
proof -
  obtain res k1 where l: "replay_loop lib oe dbg (records log) ReplayReport_default (rebuild_from_header lib (header log)) k = Done (res, k1)"
    using assms(3) by (auto simp: replay_records_def obind_eq_Done)
  have "k1 = k'" using assms(3) l by (cases res) (auto simp: replay_records_def Let_def split: if_splits)
  then show ?thesis using replay_loop_stable [OF assms(1,2) l assms(4)] by simp
qed

lemma replay_runs:
  "replay_into lib oe dbg log k = Done (r, k') \<Longrightarrow> k' = k \<or> replay_records lib oe dbg log k = Done (r, k')"
  "replay_into_verified lib oe dbg log wid anchor k = Done (r, k') \<Longrightarrow> k' = k \<or> replay_records lib oe dbg log k = Done (r, k')"
proof -
  obtain v a where "verify_chain lib (world_id (header log)) log = Done v" "verify_chain_anchored lib wid anchor log = Done a"
    using chain_returns anchored_returns by blast
  then show "replay_into lib oe dbg log k = Done (r, k') \<Longrightarrow> k' = k \<or> replay_records lib oe dbg log k = Done (r, k')"
    "replay_into_verified lib oe dbg log wid anchor k = Done (r, k') \<Longrightarrow> k' = k \<or> replay_records lib oe dbg log k = Done (r, k')"
    by (cases v; cases a; auto simp: replay_into_def replay_into_verified_def split: sum.splits if_splits)+
qed

lemma replay_stable_into:
  assumes "replay_stable lib oe P" and "P n k" and "admissible lib (action_registry k) (map content (records log)) (instances k)"
  shows "replay_into lib oe dbg log k = Done (r, k') \<Longrightarrow> P (n + length (records log)) k'"
    and "replay_into_verified lib oe dbg log wid anchor k = Done (r, k') \<Longrightarrow> P (n + length (records log)) k'"
  using replay_records_stable [OF assms(1,2) _ assms(3)] stable_mono [OF assms(1,2)] replay_runs by blast+

inductive_cases kernel_reach_0: "kernel_reach lib oe M 0 k"

lemma drop_route_limits: "limits_ok (drop_route route inst) = limits_ok inst"
  by (simp add: limits_ok_def quotas_ok_def drop_route_def entities_len_def inbox_len_def)

lemma drop_route_inv: "instance_inv (drop_route route inst) = instance_inv inst"
  by (simp add: instance_inv_def instance_sync_def instance_sched_def drop_route_def)

lemma force_unload_instances:
  "instances (snd (force_unload oe route caps k)) =
     (if contains caps ADMIN_UNLOAD then fmmap (drop_route route) (instances k) else instances k)"
  by (simp add: force_unload_def Let_def)

lemma limits_stable:
  fixes oe :: "'o \<Rightarrow> KernelEvent \<Rightarrow> 'o option"
  shows "replay_stable lib oe (\<lambda>n k. all_limits (instances k))"
  unfolding replay_stable_def
proof (intro conjI allI impI)
  fix k :: "'o Kernel" and iid inst prin actor caps at tc bs
  assume "all_limits (instances k)" and "fmlookup (instances k) iid = Some inst" and "has_room inst"
  then show "all_limits (instances (k\<lparr>instances := fmupd iid
      (admit (next_sid inst) prin actor caps at tc bs (scheduled_id_get (next_sid inst)) inst) (instances k)\<rparr>))"
    using limits_admit [of inst] by (auto simp: all_limits_def has_room_def)
next
  fix k k' :: "'o Kernel" and iid now caps r
  assume "all_limits (instances k)" and "process_instance_record lib oe iid now caps True k = Done (r, k')"
  then show "all_limits (instances k')"
    using process_refines [of lib oe iid now caps True k] limits_process by auto
qed

lemma restore_snapshot:
  "instances (kernel_from_snapshot (snapshot k)) = instances k"
  "next_instance_id (kernel_from_snapshot (snapshot k)) = next_instance_id k"
proof -
  show "instances (kernel_from_snapshot (snapshot k)) = instances k"
    by (rule fmap_ext) (simp add: kernel_from_snapshot_def snapshot_def option.map_comp comp_def snapshot_inverse option.map_ident)
qed (simp add: kernel_from_snapshot_def snapshot_def)

lemma restored_rest:
  "action_registry (kernel_from_snapshot snap) = ActionRegistry_new" "observers (kernel_from_snapshot snap) = ObserverRegistry_new"
  "wal (kernel_from_snapshot snap) = None" "kernel_manifest_digest (kernel_from_snapshot snap) = zero32"
  by (simp_all add: kernel_from_snapshot_def)

lemma reach_limits:
  assumes "kernel_reach lib oe M n k"
  shows "all_limits (instances k)"
  using assms
proof (induction rule: kernel_reach.induct)
  case (create n k config iid k')
  then show ?case by (auto simp: create_instance_eq all_limits_def limits_new split: if_splits)
next
  case (submit n k iid prin actor caps at tc bs r k')
  show ?case
  proof (rule submit_cases [of k iid lib prin actor caps at tc bs], goal_cases)
    case (3 inst m)
    then have "limits_ok (admit (ScheduledActionId m) prin actor caps at tc bs m inst)"
      using submit.IH by (intro limits_admit) (auto simp: all_limits_def)
    then show ?case using submit 3 by (auto simp: all_limits_def split: if_splits)
  qed (use submit in simp_all)
next
  case (step n k now caps rep k')
  then show ?case using step_refines [of lib oe now caps k] limits_step by auto
next
  case (unload n k route caps)
  then show ?case by (auto simp: force_unload_instances all_limits_def drop_route_limits)
next
  case (observer n k obs emask)
  then show ?case by (simp add: register_observer_filtered_def case_prod_beta Let_def)
next
  case (replay n k dbg log r k')
  then show ?case using replay_stable_into(1) [OF limits_stable] by blast
next
  case (replay_verified n k dbg log wid anchor r k')
  then show ?case using replay_stable_into(2) [OF limits_stable] by blast
qed (simp_all add: Kernel_new_def new_with_wal_signed_def all_limits_def restore_snapshot)

definition kernel_inv :: "nat \<Rightarrow> nat \<Rightarrow> 'o Kernel \<Rightarrow> bool" where
  "kernel_inv M n k \<longleftrightarrow>
     insts_inv (\<lambda>_. n * Suc M) (instances k) \<and> ops_bounded M (action_registry k) \<and>
     observers_inv (observers k) \<and> unat (next_handle (observers k)) \<le> n \<and>
     unat (next_instance_id k) \<le> n \<and>
     (\<forall>iid. iid |\<in>| fmdom (instances k) \<longrightarrow> instance_id_get iid \<le> next_instance_id k)"

lemma kernel_inv_fresh:
  "kernel_inv M 0 Kernel_new" "kernel_inv M 0 (new_with_wal_signed lib wid mdigest cls)"
  by (simp_all add: kernel_inv_def Kernel_new_def new_with_wal_signed_def insts_inv_def ops_bounded_def
      ActionRegistry_new_def observers_inv_new) (simp_all add: ObserverRegistry_new_def)

lemma kernel_inv_Suc: "kernel_inv M n k \<Longrightarrow> kernel_inv M (Suc n) k"
  unfolding kernel_inv_def by (auto elim!: insts_inv_mono)

lemma observers_step:
  assumes "observers_inv r"
  shows "observers_inv (snd (deliver oe ev r))" and "next_handle (snd (deliver oe ev r)) = next_handle r"
  using deliver_effect(1,2) [OF assms] by blast+

lemma deliver_counted_observers:
  "observers_inv (observers (snd st)) \<Longrightarrow> observers_inv (observers (snd (deliver_counted oe ev st))) \<and>
    next_handle (observers (snd (deliver_counted oe ev st))) = next_handle (observers (snd st))"
  using observers_step [of "observers (snd st)" oe ev] by (simp add: deliver_counted_def case_prod_beta Let_def)

definition obs_ok :: "u64 \<Rightarrow> 'o Kernel \<Rightarrow> bool" where
  "obs_ok h k \<longleftrightarrow> observers_inv (observers k) \<and> next_handle (observers k) = h"

lemma deliver_counted_ok: "obs_ok h (snd st) \<Longrightarrow> obs_ok h (snd (deliver_counted oe ev st))"
  using deliver_counted_observers [of st oe ev] by (simp add: obs_ok_def)

lemma deliver_all_ok: "obs_ok h (snd st) \<Longrightarrow> obs_ok h (snd (fold (deliver_counted oe) evs st))"
  by (induction evs arbitrary: st) (simp_all add: deliver_counted_ok)

lemma route_one_ok: "obs_ok h (snd st) \<Longrightarrow> obs_ok h (snd (route_one oe from sg st))"
  by (cases st) (auto simp: route_one_def Let_def intro!: deliver_counted_ok split: option.splits, simp_all add: obs_ok_def)

lemma route_all_ok: "obs_ok h (snd st) \<Longrightarrow> obs_ok h (snd (fold (route_one oe from) sgs st))"
  by (induction sgs arbitrary: st) (simp_all add: route_one_ok)

lemma process_ok:
  assumes "obs_ok h k" and "process_instance_record lib oe iid now scaps md k = Done (res, k')"
  shows "obs_ok h k'"
proof (cases "fmlookup (instances k) iid")
  case None
  then show ?thesis using assms by (simp add: process_instance_record_def)
next
  case (Some inst)
  obtain c inst' s where s: "step_one_core lib iid inst (action_registry k) (step_scratch k) now scaps md = Done (c, inst', s)"
    using step_one_core_Done [of lib iid inst "action_registry k" "step_scratch k" now scaps md]
    by (cases "step_one_core lib iid inst (action_registry k) (step_scratch k) now scaps md") auto
  let ?k1 = "k\<lparr>instances := fmupd iid inst' (instances k), step_scratch := s\<rparr>"
  have k1: "obs_ok h ?k1" using assms(1) by (simp add: obs_ok_def)
  show ?thesis
  proof (cases c)
    case None
    then show ?thesis using assms(2) Some s k1 by (simp add: process_instance_record_def Let_def)
  next
    case c: (Some core)
    let ?st2 = "fold (deliver_counted oe) (core_events core) (0, ?k1)"
    define st3 where "st3 = (case core_verdict core of
        Committed \<Rightarrow> deliver_counted oe (ActionExecuted iid (core_action_type core) now) ?st2
      | BudgetPartial _ \<Rightarrow> deliver_counted oe (ActionExecuted iid (core_action_type core) now) ?st2
      | _ \<Rightarrow> ?st2)"
    have "obs_ok h (snd st3)"
      unfolding st3_def using deliver_all_ok [of h "(0, ?k1)" oe "core_events core"] k1
      by (auto split: StepVerdict.splits intro: deliver_counted_ok)
    moreover have "k' = snd (fold (route_one oe iid) (core_signals core) st3)"
      using assms(2) Some s c unfolding st3_def
      by (auto simp: process_instance_record_def Let_def case_prod_beta cong: StepVerdict.case_cong)
    ultimately show ?thesis by (simp add: route_all_ok)
  qed
qed

lemma step_ok:
  assumes "obs_ok h k" and "step lib oe now caps k = Done (rep, k')"
  shows "obs_ok h k'"
proof -
  have "obs_ok h (snd (rep, k'))"
  proof (rule ofold_invariant [OF assms(2) [unfolded step_def], where I = "\<lambda>st. obs_ok h (snd st)"])
    show "obs_ok h (snd (StepReport_default, k))" using assms(1) by simp
  next
    fix iid st st'
    assume "obs_ok h (snd st)" and "step_instance lib oe now caps (wal k \<noteq> None) iid st = Done st'"
    then show "obs_ok h (snd st')"
      using process_ok [of h "snd st" lib oe iid now caps "wal k \<noteq> None"]
      by (cases st) (auto simp: step_instance_def obind_eq_Done obs_ok_def split: option.splits)
  qed
  then show ?thesis by simp
qed

lemma fmdom_pure_process: "fmdom (snd (pure_process lib reg now scaps md iid insts)) = fmdom insts"
proof -
  have r: "fmdom (fold (route_pure src) sgs m) = fmdom m" for src sgs m
    by (induction sgs arbitrary: m) (auto simp: route_pure_def finsert_absorb fmdomI split: option.splits)
  show ?thesis by (auto simp: pure_process_def case_prod_beta r finsert_absorb fmdomI split: option.splits)
qed

lemma fmdom_pure_step: "fmdom (snd (pure_step lib reg now scaps md ids insts)) = fmdom insts"
  by (induction ids arbitrary: insts) (simp_all add: Let_def case_prod_beta fmdom_pure_process)

lemma kernel_inv_step:
  assumes inv: "kernel_inv M n k" and room: "Suc n * Suc M < 2 ^ 64" and st: "step lib oe now caps k = Done (rep, k')"
  shows "kernel_inv M (Suc n) k'"
proof -
  let ?ids = "bt_keys (instances k)"
  have k': "instances k' = snd (pure_step lib (action_registry k) now caps (wal k \<noteq> None) ?ids (instances k))"
    "action_registry k' = action_registry k" "next_instance_id k' = next_instance_id k"
    using step_refines [of lib oe now caps k] st by (auto simp: rest_of_def)
  have "insts_inv (\<lambda>i. n * Suc M + (if i \<in> set ?ids then M else 0)) (instances k')"
    unfolding k'(1) using inv room sorted_bt_keys(2)
    by (intro pure_step_inv) (auto simp: kernel_inv_def)
  then have "insts_inv (\<lambda>_. Suc n * Suc M) (instances k')" by (rule insts_inv_mono) simp
  moreover have "obs_ok (next_handle (observers k)) k'"
    using step_ok [OF _ st] inv by (simp add: kernel_inv_def obs_ok_def)
  ultimately show ?thesis
    using inv k' by (simp add: kernel_inv_def obs_ok_def fmdom_pure_step)
qed

lemma kernel_inv_wal [simp]: "kernel_inv M n (k\<lparr>wal := w\<rparr>) = kernel_inv M n k"
  by (simp add: kernel_inv_def)

lemma kernel_inv_admit:
  assumes inv: "kernel_inv M n k" and room: "Suc n * Suc M < 2 ^ 64" and inst: "fmlookup (instances k) iid = Some inst"
  shows "kernel_inv M (Suc n) (k\<lparr>instances := fmupd iid
     (admit (next_sid inst) prin actor caps at tc bs (scheduled_id_get (next_sid inst)) inst) (instances k)\<rparr>)"
proof -
  have i: "instance_inv inst" "inst_id inst = iid" "unat (next_scheduled (inst_counters inst)) \<le> n * Suc M"
    using inv inst by (auto simp: kernel_inv_def insts_inv_def)
  have "unat (next_scheduled (inst_counters inst)) + 1 < 2 ^ 64" using i(3) room by simp
  note a = submit_inst_inv [OF i(1) this]
  have "insts_inv (\<lambda>_. Suc n * Suc M) (instances k)" using inv by (auto simp: kernel_inv_def elim: insts_inv_mono)
  then have "insts_inv (\<lambda>_. Suc n * Suc M)
      (fmupd iid (admit (next_sid inst) prin actor caps at tc bs (scheduled_id_get (next_sid inst)) inst) (instances k))"
    using a i by (intro insts_inv_upd) (simp_all add: next_sid_def, simp_all add: admit_def)
  then show ?thesis using inv inst by (auto simp: kernel_inv_def finsert_absorb fmdomI)
qed

lemma kernel_inv_submit:
  assumes inv: "kernel_inv M n k" and room: "Suc n * Suc M < 2 ^ 64"
    and s: "submit lib iid prin actor caps at tc bs k = Done (r, k')"
  shows "kernel_inv M (Suc n) k'"
proof (rule submit_cases [of k iid lib prin actor caps at tc bs], goal_cases)
  case (3 inst m)
  show ?case using kernel_inv_admit [OF inv room 3(1), of prin actor caps at tc bs] s 3(3,4)
    by (auto simp: next_sid_def)
qed (use s inv in \<open>auto simp: kernel_inv_Suc\<close>)

lemma kernel_inv_process:
  assumes inv: "kernel_inv M n k" and room: "Suc n * Suc M < 2 ^ 64"
    and p: "process_instance_record lib oe iid now caps md k = Done (r, k')"
  shows "kernel_inv M (Suc n) k'"
proof -
  have k': "instances k' = snd (pure_process lib (action_registry k) now caps md iid (instances k))"
    "action_registry k' = action_registry k" "next_instance_id k' = next_instance_id k"
    using process_refines [of lib oe iid now caps md k] p by (auto simp: rest_of_def)
  have "insts_inv ((\<lambda>_. n * Suc M)(iid := n * Suc M + M)) (instances k')"
    unfolding k'(1) using inv room by (intro pure_process_inv) (auto simp: kernel_inv_def)
  then have "insts_inv (\<lambda>_. Suc n * Suc M) (instances k')" by (rule insts_inv_mono) simp
  moreover have "obs_ok (next_handle (observers k)) k'"
    using process_ok [OF _ p] inv by (simp add: kernel_inv_def obs_ok_def)
  ultimately show ?thesis using inv k' by (simp add: kernel_inv_def obs_ok_def fmdom_pure_process)
qed

lemma inv_stable:
  fixes oe :: "'o \<Rightarrow> KernelEvent \<Rightarrow> 'o option"
  shows "replay_stable lib oe (\<lambda>n k. Suc n * Suc M < 2 ^ 64 \<longrightarrow> kernel_inv M n k)"
  unfolding replay_stable_def
proof (intro conjI allI impI)
  fix n :: nat and k k' :: "'o Kernel" and iid now caps r
  assume i: "Suc n * Suc M < 2 ^ 64 \<longrightarrow> kernel_inv M n k" and r: "Suc (Suc n) * Suc M < 2 ^ 64"
  then have k: "kernel_inv M n k" "Suc n * Suc M < 2 ^ 64" by simp_all
  show "kernel_inv M (Suc n) k" using k(1) by (rule kernel_inv_Suc)
  show "kernel_inv M (Suc n) k'" if "process_instance_record lib oe iid now caps True k = Done (r, k')"
    using kernel_inv_process [OF k that] .
next
  fix n :: nat and k :: "'o Kernel" and iid inst prin actor caps at tc bs
  assume "Suc n * Suc M < 2 ^ 64 \<longrightarrow> kernel_inv M n k" and "Suc (Suc n) * Suc M < 2 ^ 64"
    and "fmlookup (instances k) iid = Some inst"
  then show "kernel_inv M (Suc n) (k\<lparr>instances := fmupd iid
      (admit (next_sid inst) prin actor caps at tc bs (scheduled_id_get (next_sid inst)) inst) (instances k)\<rparr>)"
    by (intro kernel_inv_admit) simp_all
qed

lemma kernel_inv_restore:
  assumes "kernel_inv M n k"
  shows "kernel_inv M (Suc n) (kernel_from_snapshot (snapshot k) :: 'p Kernel)"
proof -
  have "kernel_inv M n (kernel_from_snapshot (snapshot k) :: 'p Kernel)"
    using assms kernel_inv_fresh(1) [of M, where 'a = 'p]
    by (simp add: kernel_inv_def restore_snapshot restored_rest Kernel_new_def)
  then show ?thesis by (rule kernel_inv_Suc)
qed

lemma kernel_inv_create:
  assumes inv: "kernel_inv M n k" and room: "Suc n * Suc M < 2 ^ 64" and c: "create_instance config k = Done (iid, k')"
  shows "kernel_inv M (Suc n) k'" and "iid |\<notin>| fmdom (instances k)"
proof -
  have n: "unat (next_instance_id k) \<le> n" "n < 2 ^ 64 - 1" using inv room by (auto simp: kernel_inv_def)
  then have u: "unat (saturating_add (next_instance_id k) 1) = Suc (unat (next_instance_id k))" by (simp add: sat_simps)
  then have less: "next_instance_id k < saturating_add (next_instance_id k) 1" by (simp add: word_less_nat_alt)
  have iid: "iid = InstanceId (saturating_add (next_instance_id k) 1)" using c by (simp add: create_instance_eq)
  show "iid |\<notin>| fmdom (instances k)" using inv less iid by (auto simp: kernel_inv_def)
  have "insts_inv (\<lambda>_. Suc n * Suc M) (instances k)" using inv by (auto simp: kernel_inv_def elim: insts_inv_mono)
  then have "insts_inv (\<lambda>_. Suc n * Suc M) (fmupd iid (Instance_new iid config) (instances k))"
    by (intro insts_inv_upd instance_inv_new) (simp_all add: Instance_new_def IdCounters_default_def)
  moreover have "instance_id_get i \<le> saturating_add (next_instance_id k) 1" if "i |\<in>| fmdom (instances k)" for i
    using inv that less unfolding kernel_inv_def by (meson less_imp_le order.trans)
  ultimately show "kernel_inv M (Suc n) k'"
    using c inv n u iid by (auto simp: create_instance_eq kernel_inv_def)
qed

lemma reach_inv:
  assumes "kernel_reach lib oe M n k" and "Suc n * Suc M < 2 ^ 64"
  shows "kernel_inv M n k"
  using assms
proof (induction rule: kernel_reach.induct)
  case (action n k tc r)
  then have "kernel_inv M n k" by simp
  then show ?case using action by (auto simp: kernel_inv_def elim!: insts_inv_mono)
next
  case (observer n k obs emask)
  then have inv: "kernel_inv M n k" by simp
  have n: "unat (next_handle (observers k)) \<le> n" "n < 2 ^ 64 - 1" using inv observer.prems by (auto simp: kernel_inv_def)
  then have "unat (next_handle (observers k)) \<noteq> unat (- 1 :: u64)" by (simp add: unat_max_word)
  then have "next_handle (observers k) \<noteq> - 1" by metis
  with inv have "observers_inv (snd (register_filtered obs emask (observers k)))"
    by (intro register_inv) (simp_all add: kernel_inv_def)
  moreover have "unat (next_handle (snd (register_filtered obs emask (observers k)))) \<le> Suc n"
    using n by (simp add: register_filtered_def Let_def sat_simps)
  ultimately show ?case
    using inv by (auto simp: register_observer_filtered_def case_prod_beta Let_def kernel_inv_def elim!: insts_inv_mono)
next
  case (create n k config iid k')
  then show ?case using kernel_inv_create(1) [of M n k] by simp
next
  case (submit n k iid prin actor caps at tc bs r k')
  then show ?case using kernel_inv_submit [of M n k] by simp
next
  case (step n k now caps rep k')
  then show ?case using kernel_inv_step [of M n k] by simp
next
  case (unload n k route caps)
  then have inv: "kernel_inv M n k" by simp
  have "kernel_inv M n (snd (force_unload oe route caps k))"
    using inv observers_step [of "observers k" oe]
    by (auto simp: kernel_inv_def force_unload_def Let_def insts_inv_def drop_route_inv, auto simp: drop_route_def)
  then show ?case by (rule kernel_inv_Suc)
next
  case (restore n k)
  then show ?case by (intro kernel_inv_restore) simp
next
  case (replay n k dbg log r k')
  then show ?case using replay_stable_into(1) [OF inv_stable] by blast
next
  case (replay_verified n k dbg log wid anchor r k')
  then show ?case using replay_stable_into(2) [OF inv_stable] by blast
qed (simp_all add: kernel_inv_fresh)

section \<open>The log a kernel holds\<close>

lemma process_rest:
  "process_instance_record lib oe iid now caps md k = Done (r, k') \<Longrightarrow> wal k' = wal k \<and> kernel_manifest_digest k' = kernel_manifest_digest k"
  using process_refines [of lib oe iid now caps md k] by (auto simp: rest_of_def)

lemma wal_stable: "replay_stable lib oe (\<lambda>n k. wal k = w)"
  by (auto simp: replay_stable_def dest: process_rest)

lemma manifest_stable: "replay_stable lib oe (\<lambda>n k. kernel_manifest_digest k = md)"
  by (auto simp: replay_stable_def dest: process_rest)

lemma reach_written:
  assumes "kernel_reach lib oe M n k" and "wal k = Some w"
  shows "\<exists>wid mdigest cls. written lib wid mdigest cls w"
  using assms
proof (induction arbitrary: w rule: kernel_reach.induct)
  case (fresh_wal wid mdigest cls)
  then show ?case by (auto simp: new_with_wal_signed_def intro: written.fresh)
next
  case (observer n k obs emask)
  then show ?case by (simp add: register_observer_filtered_def case_prod_beta Let_def)
next
  case (create n k config iid k')
  then show ?case by (auto simp: create_instance_eq)
next
  case (submit n k iid prin actor caps at tc bs r k')
  show ?case
  proof (rule submit_cases [of k iid lib prin actor caps at tc bs], goal_cases)
    case (3 inst m)
    with submit.hyps submit.prems obtain w0 where w0: "wal k = Some w0"
        "w = snd (append_submit lib iid prin actor caps at tc bs (ScheduledActionId m) w0)" by auto
    with submit.IH show ?case by (auto intro: written.submit)
  qed (use submit in auto)
next
  case (step n k now caps rep k')
  have "wal k' = map_option (fold (log_core lib now caps)
      (fst (pure_step lib (action_registry k) now caps (wal k \<noteq> None) (bt_keys (instances k)) (instances k)))) (wal k)"
    using step_refines [of lib oe now caps k] step.hyps by (auto simp: rest_of_def)
  with step.prems obtain w0 log where "wal k = Some w0" "w = fold (log_core lib now caps) log w0" by auto
  with step.IH show ?case by (auto intro: log_core_written)
next
  case (unload n k route caps)
  then show ?case by (auto simp: force_unload_def Let_def split: if_splits)
next
  case (replay n k dbg log r k')
  then have "wal k' = wal k" using replay_stable_into(1) [OF wal_stable refl] by blast
  with replay show ?case by simp
next
  case (replay_verified n k dbg log wid anchor r k')
  then have "wal k' = wal k" using replay_stable_into(2) [OF wal_stable refl] by blast
  with replay_verified show ?case by simp
qed (simp_all add: Kernel_new_def restored_rest)

subsection \<open>The remaining public operations\<close>

text \<open>\<open>new_with_wal\<close>, \<open>register_observer\<close> and \<open>register_action\<close> are covered by the rules above.\<close>

lemma reach_new_with_wal: "kernel_reach lib oe M 0 (new_with_wal lib wid mdigest)"
  using kernel_reach.fresh_wal [of lib oe M wid mdigest SigNone]
  by (simp add: new_with_wal_def new_with_wal_signed_def WalWriter_new_def)

lemma reach_register_observer:
  "kernel_reach lib oe M n k \<Longrightarrow> kernel_reach lib oe M (Suc n) (snd (register_observer obs k))"
  using kernel_reach.observer [of lib oe M n k obs EventMask_ALL]
  by (simp add: register_observer_def register_observer_filtered_def register_def)

lemma reach_register_action:
  "kernel_reach lib oe M n k \<Longrightarrow> ops_bounded M (action_registry (register_action A k)) \<Longrightarrow>
   kernel_reach lib oe M (Suc n) (register_action A k)"
  using kernel_reach.action [of lib oe M n k] by (simp add: register_action_def register_type_def)

subsection \<open>Runs and their logs\<close>

lemma reach_input:
  assumes "kernel_reach lib oe M n k" and "live_input lib oe i k = Done k'"
  shows "kernel_reach lib oe M (Suc n) k'"
  using assms(2) by (cases i) (auto simp: obind_eq_Done intro: kernel_reach.intros(6,7) [OF assms(1)])

lemma reach_run:
  "kernel_reach lib oe M n k \<Longrightarrow> live_run lib oe inputs k = Done k' \<Longrightarrow> kernel_reach lib oe M (n + length inputs) k'"
proof (induction inputs arbitrary: n k)
  case (Cons i inputs)
  from Cons.prems(2) obtain k1 where "live_input lib oe i k = Done k1" "live_run lib oe inputs k1 = Done k'"
    by (auto simp: live_run_def obind_eq_Done)
  with Cons.IH reach_input [OF Cons.prems(1)] show ?case by fastforce
qed (simp add: live_run_def)

text \<open>The log of a run is admissible from where the run began, so replaying it stays within \<open>kernel_reach\<close>.\<close>

lemma run_log_admissible:
  assumes "encodes_all lib" and "wal k0 = Some (with_signature lib wid md cls)"
    and "live_run lib oe inputs k0 = Done k1" and "wal k1 = Some w"
  shows "admissible lib (action_registry k0) (contents w) (instances k0)"
proof -
  obtain cs insts' seq' where l: "live_all (live_pure lib (action_registry k0)) inputs (instances k0, 0) = (cs, insts', seq')"
    by (cases "live_all (live_pure lib (action_registry k0)) inputs (instances k0, 0)") auto
  from run_contents [OF assms(1,2) l, of oe] assms(3,4) have "contents w = cs" by auto
  with live_all_admissible [OF l] show ?thesis by simp
qed

subsection \<open>A log of one submit\<close>

text \<open>A sealed log whose only record is a submit to a known instance is replayed, whatever that instance holds.\<close>

lemma single_submit_replays:
  assumes "encodes_all lib" and "written lib wid md cls w" and "class_keys_match lib cls" and "ed25519_laws lib" and "mldsa_laws lib"
    and "contents w = [Submit 1 iid prin actor caps at tc bs aid]" and "md = kernel_manifest_digest k"
    and "fmlookup (instances k) iid = Some inst"
  shows "\<exists>n rep k'. replay_into lib oe dbg (from_writer w) k = Done (Inr rep, k') \<and>
     instances k' = fmupd iid (admit aid prin actor caps at tc bs n inst) (instances k)"
proof -
  let ?n = "if next_scheduled (inst_counters inst) < scheduled_id_get aid then scheduled_id_get aid else next_scheduled (inst_counters inst)"
  have "redo_all (redo_pure lib (action_registry k)) (contents w) (instances k, 0) =
      Some (fmupd iid (admit aid prin actor caps at tc bs ?n inst) (instances k), 1)"
    using assms(6,8) by (simp only: redo_all.simps redo_pure.simps) (simp add: Let_def saturating_add_def)
  from replay_records_complete [OF assms(1,2) this, of oe dbg] written_replay [OF assms(2-5), of oe dbg k] assms(7)
  show ?thesis by auto
qed

section \<open>A sample kernel\<close>

lemma sample_kernel_reach: "kernel_reach sample_lib ignore_events 3 1 sample_kernel"
  using kernel_reach.create [OF kernel_reach.fresh_wal sample_kernel_created] by simp

text \<open>The log of one submit, and a kernel whose instance has limits.\<close>

definition submit_writer :: WalWriter where
  "submit_writer = snd (append_submit sample_lib (InstanceId 1) System None 1 (Tick 0) (TypeCode 7) [3] (ScheduledActionId 1)
     (with_signature sample_lib zero32 zero32 sample_class))"

lemma sample_encodes: "encodes_all sample_lib"
  by (simp add: encodes_all_def sample_lib_def)

lemma sample_keys: "class_keys_match sample_lib sample_class"
  by (simp add: sample_class_def)

lemma submit_writer_written: "written sample_lib zero32 zero32 sample_class submit_writer"
  unfolding submit_writer_def by (intro written.submit written.fresh)

lemma submit_writer_contents:
  "contents submit_writer = [Submit 1 (InstanceId 1) System None 1 (Tick 0) (TypeCode 7) [3] (ScheduledActionId 1)]"
  using append_submit_total [OF sample_encodes, of "InstanceId 1" System None 1 "Tick 0" "TypeCode 7" "[3]" "ScheduledActionId 1"
      "with_signature sample_lib zero32 zero32 sample_class"]
  by (auto simp: submit_writer_def with_signature_def Let_def contents_def saturating_add_def)

lemmas submit_writer_replays =
  single_submit_replays [OF sample_encodes submit_writer_written sample_keys sample_laws(1,2) submit_writer_contents]

definition limited_config :: InstanceConfig where
  "limited_config = bypass_config\<lparr>max_inbox_per_route := 2, max_entities := 3, max_scheduled := 1\<rparr>"

definition limited_kernel :: "unit Kernel" where
  "limited_kernel = Kernel_new\<lparr>next_instance_id := 1, instances := fmupd (InstanceId 1)
     (Instance_new (InstanceId 1) limited_config) fmempty\<rparr>"

lemma limited_kernel_reach: "kernel_reach sample_lib ignore_events 3 1 limited_kernel"
proof -
  have "create_instance limited_config Kernel_new = Done (InstanceId 1, limited_kernel)"
    by (simp add: create_instance_eq limited_kernel_def Kernel_new_def saturating_add_def)
  from kernel_reach.create [OF kernel_reach.fresh this] show ?thesis by simp
qed

text \<open>Replaying the log of one submit into it fills its scheduler.\<close>

lemma limited_replay:
  "\<exists>n rep k'. replay_into sample_lib ignore_events (\<lambda>e. []) (from_writer submit_writer) limited_kernel = Done (Inr rep, k') \<and>
     kernel_reach sample_lib ignore_events 3 2 k' \<and> kernel_manifest_digest k' = zero32 \<and> fmlookup (instances k') (InstanceId 1) =
       Some (admit (ScheduledActionId 1) System None 1 (Tick 0) (TypeCode 7) [3] n (Instance_new (InstanceId 1) limited_config))"
proof -
  let ?i = "Instance_new (InstanceId 1) limited_config"
  have l: "fmlookup (instances limited_kernel) (InstanceId 1) = Some ?i" "kernel_manifest_digest limited_kernel = zero32"
    by (simp_all add: limited_kernel_def Kernel_new_def)
  from submit_writer_replays [OF l(2) [symmetric] l(1), of ignore_events "\<lambda>e. []"] obtain n rep k' where
    k': "replay_into sample_lib ignore_events (\<lambda>e. []) (from_writer submit_writer) limited_kernel = Done (Inr rep, k')"
      "instances k' = fmupd (InstanceId 1) (admit (ScheduledActionId 1) System None 1 (Tick 0) (TypeCode 7) [3] n ?i) (instances limited_kernel)"
    by blast
  have c: "map content (records (from_writer submit_writer)) = contents submit_writer" "length (records (from_writer submit_writer)) = 1"
    using submit_writer_contents by (auto simp: from_writer_def contents_def)
  have "admissible sample_lib (action_registry limited_kernel) (map content (records (from_writer submit_writer))) (instances limited_kernel)"
    unfolding c submit_writer_contents using l(1)
    by (simp add: has_room_def next_sid_def Instance_new_def IdCounters_default_def saturating_add_def sched_len_def Scheduler_new_def limited_config_def)
  from kernel_reach.replay [OF limited_kernel_reach k'(1) this] replay_stable_into(1) [OF manifest_stable l(2) this k'(1)] k' c(2)
  show ?thesis by (auto simp: numeral_2_eq_2)
qed

section \<open>Properties\<close>

text \<open>
  C6 (the kernel invariant). Take any kernel brought about from a fresh one by \<open>n\<close> calls of
  \<open>register_action\<close>, \<open>register_observer\<close>, \<open>register_observer_filtered\<close>, \<open>create_instance\<close>, \<open>submit\<close>, \<open>step\<close> and
  \<open>force_unload\<close>, by restoring the kernel's own snapshot, and by \<open>replay_into\<close> and \<open>replay_into_verified\<close>, successful or
  not, of logs that are \<open>admissible\<close> there (a replay counts one call per record), with actions of at most
  \<open>M\<close> intents and \<open>(n + 1) (M + 1)\<close> below \<open>2 ^ 64\<close>. Then every instance is filed under its own id and is
  consistent (stores and ledger agree, scheduler tables agree, id counters ahead of every id in use),
  the observer registry is consistent and every live instance id has been issued. The condition on
  replayed logs is needed: \<open>readmission_breaks_tables\<close> below.
\<close>

theorem reachable_kernel_inv:
  assumes "kernel_reach lib oe M n k" and "Suc n * Suc M < 2 ^ 64"
  shows "(\<forall>iid inst. fmlookup (instances k) iid = Some inst \<longrightarrow> instance_inv inst \<and> inst_id inst = iid) \<and>
     observers_inv (observers k) \<and>
     (\<forall>iid. iid |\<in>| fmdom (instances k) \<longrightarrow> instance_id_get iid \<le> next_instance_id k)"
  using reach_inv [OF assms] by (auto simp: kernel_inv_def insts_inv_def)

theorem reachable_kernel_inv_witness:
  "\<exists>rep k' inst. replay_into sample_lib ignore_events (\<lambda>e. []) (from_writer submit_writer) limited_kernel = Done (Inr rep, k') \<and>
     fmlookup (instances k') (InstanceId 1) = Some inst \<and> sched_len (inst_scheduler inst) = 1 \<and>
     instance_inv inst \<and> observers_inv (observers k')"
proof -
  obtain n rep k' where k': "replay_into sample_lib ignore_events (\<lambda>e. []) (from_writer submit_writer) limited_kernel = Done (Inr rep, k')"
      "kernel_reach sample_lib ignore_events 3 2 k'" "fmlookup (instances k') (InstanceId 1) =
        Some (admit (ScheduledActionId 1) System None 1 (Tick 0) (TypeCode 7) [3] n (Instance_new (InstanceId 1) limited_config))"
    using limited_replay by blast
  have "sched_len (inst_scheduler (admit (ScheduledActionId 1) System None 1 (Tick 0) (TypeCode 7) [3] n
      (Instance_new (InstanceId 1) limited_config))) = 1"
    by (simp add: admit_def schedule_with_id_def Let_def sched_len_def Instance_new_def Scheduler_new_def bt_len_upd)
  with reachable_kernel_inv [OF k'(2)] k' show ?thesis by auto
qed

text \<open>
  C7 (hard limits hold in every reachable kernel). No sequence of these calls, replays of admissible
  logs and restores of a kernel's own snapshot included, takes an instance past its entity limit, its
  scheduled-action limit or its per-route inbox depth; here no bound on the number of calls is needed.
  A log that is not admissible can: \<open>readmission_skips_back_pressure\<close> below.
\<close>

theorem reachable_limits:
  assumes "kernel_reach lib oe M n k" and "fmlookup (instances k) iid = Some inst"
  shows "(0 < max_entities (inst_config inst) \<longrightarrow> entities_len inst \<le> unat (max_entities (inst_config inst))) \<and>
     (0 < max_scheduled (inst_config inst) \<longrightarrow> sched_len (inst_scheduler inst) \<le> unat (max_scheduled (inst_config inst))) \<and>
     (0 < max_inbox_per_route (inst_config inst) \<longrightarrow> inbox_len route inst \<le> unat (max_inbox_per_route (inst_config inst)))"
  using reach_limits [OF assms(1)] assms(2) by (auto simp: all_limits_def limits_ok_def quotas_ok_def)

theorem reachable_limits_witness:
  "\<exists>rep k' inst. replay_into sample_lib ignore_events (\<lambda>e. []) (from_writer submit_writer) limited_kernel = Done (Inr rep, k') \<and>
     fmlookup (instances k') (InstanceId 1) = Some inst \<and>
     entities_len inst \<le> 3 \<and> sched_len (inst_scheduler inst) \<le> 1 \<and> inbox_len (RouteId 1) inst \<le> 2"
proof -
  obtain n rep k' where k': "replay_into sample_lib ignore_events (\<lambda>e. []) (from_writer submit_writer) limited_kernel = Done (Inr rep, k')"
      "kernel_reach sample_lib ignore_events 3 2 k'" "fmlookup (instances k') (InstanceId 1) =
        Some (admit (ScheduledActionId 1) System None 1 (Tick 0) (TypeCode 7) [3] n (Instance_new (InstanceId 1) limited_config))"
    using limited_replay by blast
  have "inst_config (admit (ScheduledActionId 1) System None 1 (Tick 0) (TypeCode 7) [3] n
      (Instance_new (InstanceId 1) limited_config)) = limited_config"
    by (simp add: admit_def Instance_new_def)
  with reachable_limits [OF k'(2,3), of "RouteId 1"] k' show ?thesis by (auto simp: limited_config_def)
qed

text \<open>
  Instance ids are not reused. \<open>create_instance\<close> never panics and, in a reachable kernel, the id
  it returns belongs to no live instance, so it overwrites none.
\<close>

theorem create_instance_fresh:
  assumes "kernel_reach lib oe M n k" and "Suc n * Suc M < 2 ^ 64"
  shows "\<exists>iid k'. create_instance config k = Done (iid, k') \<and> iid |\<notin>| fmdom (instances k) \<and>
     fmlookup (instances k') iid = Some (Instance_new iid config) \<and>
     (\<forall>j. j \<noteq> iid \<longrightarrow> fmlookup (instances k') j = fmlookup (instances k) j)"
proof -
  obtain iid k' where c: "create_instance config k = Done (iid, k')" by (simp add: create_instance_eq)
  from kernel_inv_create(2) [OF reach_inv [OF assms] assms(2) c] c show ?thesis
    by (auto simp: create_instance_eq)
qed

theorem create_instance_fresh_witness:
  "\<exists>iid k'. create_instance bypass_config sample_kernel = Done (iid, k') \<and> iid |\<notin>| fmdom (instances sample_kernel)"
  using create_instance_fresh [OF sample_kernel_reach, of bypass_config] by auto

text \<open>
  An exported log verifies. The log of any kernel reached from a fresh one passes
  \<open>verify_chain\<close> for the world its header names, if the writer's signing keys are a matching pair and
  the signature libraries keep their promises.
\<close>

theorem exported_log_verifies:
  assumes "kernel_reach lib oe M n k" and "wal k = Some w" and "export_wal k = Some log"
    and "class_keys_match lib (w_sig_class w)" and "ed25519_laws lib" and "mldsa_laws lib"
  shows "verify_chain lib (world_id (header log)) log = Done (Inr ())"
proof -
  have log: "log = from_writer w" using assms(2,3) by (simp add: export_wal_def)
  from reach_written [OF assms(1,2)] obtain wid mdigest cls where "written lib wid mdigest cls w" by blast
  note inv = written_inv [OF this]
  then have "w_sig_class w = cls" "world_id (w_header w) = wid" by (simp_all add: writer_inv_def with_signature_def Let_def)
  with writer_inv_verifies [OF inv assms(5,6)] assms(4) log show ?thesis by (simp add: from_writer_def)
qed

theorem exported_log_verifies_witness:
  "verify_chain sample_lib (world_id (header (the (export_wal sample_kernel)))) (the (export_wal sample_kernel)) = Done (Inr ())"
proof -
  have w: "wal sample_kernel = Some (with_signature sample_lib zero32 zero32 sample_class)"
    by (simp add: sample_kernel_def new_with_wal_signed_def)
  have e: "export_wal sample_kernel = Some (the (export_wal sample_kernel))" using w by (simp add: export_wal_def)
  have "class_keys_match sample_lib (w_sig_class (with_signature sample_lib zero32 zero32 sample_class))"
    by (simp add: with_signature_def sample_class_def)
  from exported_log_verifies [OF sample_kernel_reach w e this] show ?thesis by simp
qed

text \<open>
  C23 (admission). In a reachable kernel \<open>submit\<close> returns; if it reports an error nothing has changed;
  if it returns an id, that id was not in use in the instance, the action is now pending under it
  with exactly the submitted principal, actor, ceiling, type and bytes, everything that was pending
  still is, and no other instance has changed. The ceiling is the capability mask given to \<open>submit\<close>, as
  the doc comment of \<open>submit\<close> has it; the comment on the field \<open>caps_ceiling\<close> (\<open>scheduler.rs\<close>) claims an
  all-permissive ceiling for submitted roots, which is not what the code stores.
\<close>

theorem submit_admits:
  assumes "kernel_reach lib oe M n k" and "Suc n * Suc M < 2 ^ 64"
  shows "\<exists>r k'. submit lib iid prin actor caps at tc bs k = Done (r, k') \<and>
     (case r of Inl e \<Rightarrow> k' = k
      | Inr sid \<Rightarrow> (\<exists>inst inst' key. fmlookup (instances k) iid = Some inst \<and> instances k' = fmupd iid inst' (instances k) \<and>
          sid |\<notin>| fmdom (by_id (inst_scheduler inst)) \<and> fmlookup (by_id (inst_scheduler inst')) sid = Some key \<and>
          fmlookup (ready (inst_scheduler inst')) key =
            Some \<lparr>entry_id = sid, entry_at = at, entry_actor = actor, entry_principal = prin, action_type_code = tc,
                  action_bytes = bs, caps_ceiling = caps\<rparr> \<and>
          (\<forall>j e. fmlookup (ready (inst_scheduler inst)) j = Some e \<longrightarrow> fmlookup (ready (inst_scheduler inst')) j = Some e)))"
proof (rule submit_cases [of k iid lib prin actor caps at tc bs], goal_cases)
  case (3 inst m)
  have i: "instance_inv inst" "unat (next_scheduled (inst_counters inst)) \<le> n * Suc M"
    using reach_inv [OF assms] 3(1) by (auto simp: kernel_inv_def insts_inv_def)
  have "unat (next_scheduled (inst_counters inst)) + 1 < 2 ^ 64" using i(2) assms(2) by simp
  note a = submit_inst_inv [OF i(1) this, folded 3(3)]
  have s: "sched_inv (inst_scheduler inst)" "next_id (inst_scheduler inst) < m"
    using i(1) a(2) by (auto simp: instance_inv_def instance_sched_def word_le_nat_alt word_less_nat_alt)
  have fresh: "ScheduledActionId m |\<notin>| fmdom (by_id (inst_scheduler inst))"
    by (rule fresh_above [OF s(1)]) (simp add: s(2))
  have old: "j \<noteq> SchedKey at (next_seq (inst_scheduler inst)) (ScheduledActionId m)"
    if "fmlookup (ready (inst_scheduler inst)) j = Some e" for j e
    using sched_invD(2) [OF s(1) that] fresh by (auto simp: fmdomI)
  let ?inst = "admit (ScheduledActionId m) prin actor caps at tc bs m inst"
  let ?key = "SchedKey at (next_seq (inst_scheduler inst)) (ScheduledActionId m)"
  have keep: "fmlookup (ready (inst_scheduler ?inst)) j = Some e" if "fmlookup (ready (inst_scheduler inst)) j = Some e" for j e
    using that old [OF that] by (simp add: admit_def schedule_with_id_def Let_def)
  have new: "fmlookup (by_id (inst_scheduler ?inst)) (ScheduledActionId m) = Some ?key"
    "fmlookup (ready (inst_scheduler ?inst)) ?key = Some \<lparr>entry_id = ScheduledActionId m, entry_at = at, entry_actor = actor,
       entry_principal = prin, action_type_code = tc, action_bytes = bs, caps_ceiling = caps\<rparr>"
    by (simp_all add: admit_def schedule_with_id_def Let_def)
  show ?case unfolding 3(4)
    by (rule exI, rule exI, rule conjI [OF refl], simp only: sum.case,
        intro exI [of _ inst] exI [of _ ?inst] exI [of _ ?key])
      (use 3(1) fresh keep new in simp)
qed auto

theorem submit_admits_witness:
  "\<exists>k' inst' key. submit sample_lib (InstanceId 1) System None 5 (Tick 0) (TypeCode 7) [3] sample_kernel = Done (Inr (ScheduledActionId 1), k') \<and>
     fmlookup (instances k') (InstanceId 1) = Some inst' \<and> fmlookup (by_id (inst_scheduler inst')) (ScheduledActionId 1) = Some key \<and>
     map_option caps_ceiling (fmlookup (ready (inst_scheduler inst')) key) = Some 5"
proof -
  have l: "fmlookup (instances sample_kernel) (InstanceId 1) = Some (Instance_new (InstanceId 1) bypass_config)"
    by (simp add: sample_kernel_def)
  have "\<exists>k1. submit sample_lib (InstanceId 1) System None 5 (Tick 0) (TypeCode 7) [3] sample_kernel = Done (Inr (ScheduledActionId 1), k1)"
    by (rule submit_cases [of sample_kernel "InstanceId 1" sample_lib System None 5 "Tick 0" "TypeCode 7" "[3]"])
      (auto simp: l, auto simp: Instance_new_def bypass_config_def InstanceConfig_default_def IdCounters_default_def saturating_add_def)
  with submit_admits [OF sample_kernel_reach, of "InstanceId 1" System None 5 "Tick 0" "TypeCode 7" "[3]"] show ?thesis
    by fastforce
qed

section \<open>Replaying a log that is not admissible\<close>

text \<open>
  Readmission skips back-pressure. At an instance that is full, \<open>submit\<close> reports \<open>QuotaExceeded\<close> and changes
  nothing; the replay of a sealed log whose record submits the same action succeeds and leaves one more
  action scheduled than the limit allows.
\<close>

theorem readmission_skips_back_pressure:
  assumes "encodes_all lib" and "written lib wid md cls w" and "class_keys_match lib cls" and "ed25519_laws lib" and "mldsa_laws lib"
    and "contents w = [Submit 1 iid prin actor caps at tc bs aid]" and "md = kernel_manifest_digest k"
    and "fmlookup (instances k) iid = Some inst" and "\<not> has_room inst"
    and "sched_inv (inst_scheduler inst)"
  shows "submit lib iid prin actor caps at tc bs k = Done (Inl QuotaExceeded, k) \<and>
     (\<exists>rep k' inst'. replay_into lib oe dbg (from_writer w) k = Done (Inr rep, k') \<and> fmlookup (instances k') iid = Some inst' \<and>
        inst_config inst' = inst_config inst \<and> unat (max_scheduled (inst_config inst)) < sched_len (inst_scheduler inst'))"
proof -
  from single_submit_replays [OF assms(1-8)] obtain n rep k' where
    k': "replay_into lib oe dbg (from_writer w) k = Done (Inr rep, k')"
      "instances k' = fmupd iid (admit aid prin actor caps at tc bs n inst) (instances k)" by blast
  have "SchedKey at (next_seq (inst_scheduler inst)) aid |\<notin>| fmdom (ready (inst_scheduler inst))"
    using sched_invD(3) [OF assms(10), of "SchedKey at (next_seq (inst_scheduler inst)) aid"] by fastforce
  then have "sched_len (inst_scheduler (admit aid prin actor caps at tc bs n inst)) = Suc (sched_len (inst_scheduler inst))"
    by (simp add: admit_def schedule_with_id_def Let_def sched_len_def bt_len_upd)
  with k' assms(8,9) show ?thesis by (auto simp: submit_def Let_def has_room_def, auto simp: admit_def)
qed

text \<open>
  Readmission does not check the recorded id. Replaying a submit whose id is still pending in the instance
  (for instance replaying a log a second time) succeeds and leaves the scheduler's tables inconsistent: two
  ready entries carry the id, and the id table knows one of them.
\<close>

theorem readmission_breaks_tables:
  assumes "encodes_all lib" and "written lib wid md cls w" and "class_keys_match lib cls" and "ed25519_laws lib" and "mldsa_laws lib"
    and "contents w = [Submit 1 iid prin actor caps at tc bs aid]" and "md = kernel_manifest_digest k"
    and "fmlookup (instances k) iid = Some inst"
    and "sched_inv (inst_scheduler inst)" and "aid |\<in>| fmdom (by_id (inst_scheduler inst))"
  shows "\<exists>rep k' inst'. replay_into lib oe dbg (from_writer w) k = Done (Inr rep, k') \<and> fmlookup (instances k') iid = Some inst' \<and>
     \<not> sched_inv (inst_scheduler inst')"
proof -
  from single_submit_replays [OF assms(1-8)] obtain n rep k' where
    k': "replay_into lib oe dbg (from_writer w) k = Done (Inr rep, k')"
      "instances k' = fmupd iid (admit aid prin actor caps at tc bs n inst) (instances k)" by blast
  let ?s = "inst_scheduler inst" and ?s' = "inst_scheduler (admit aid prin actor caps at tc bs n inst)"
  obtain key e where key: "fmlookup (by_id ?s) aid = Some key" "key_id key = aid" "fmlookup (ready ?s) key = Some e"
    using assms(10) sched_invD(5,6) [OF assms(9)] by (fastforce simp: fmlookup_dom_iff)
  have "key \<noteq> SchedKey at (next_seq ?s) aid" using sched_invD(3) [OF assms(9) key(3)] by auto
  then have "fmlookup (ready ?s') key = Some e" "fmlookup (by_id ?s') (key_id key) \<noteq> Some key"
    using key by (auto simp: admit_def schedule_with_id_def Let_def)
  then have "\<not> sched_inv ?s'" using sched_invD(2) by blast
  with k' show ?thesis by auto
qed

text \<open>
  Both at once, on a kernel whose instance may hold one scheduled action: the log of one submit is replayed
  into it twice. The second replay succeeds too, past the limit and with inconsistent tables.
\<close>

theorem log_replayed_twice:
  "\<exists>rep k1 rep' k2 inst. replay_into sample_lib ignore_events (\<lambda>e. []) (from_writer submit_writer) limited_kernel = Done (Inr rep, k1) \<and>
     replay_into sample_lib ignore_events (\<lambda>e. []) (from_writer submit_writer) k1 = Done (Inr rep', k2) \<and>
     fmlookup (instances k2) (InstanceId 1) = Some inst \<and> max_scheduled (inst_config inst) = 1 \<and>
     1 < sched_len (inst_scheduler inst) \<and> \<not> sched_inv (inst_scheduler inst)"
proof -
  let ?log = "from_writer submit_writer" and ?dbg = "\<lambda>e. []" and ?oe = ignore_events
  obtain n rep k1 where k1: "replay_into sample_lib ?oe ?dbg ?log limited_kernel = Done (Inr rep, k1)"
      "kernel_reach sample_lib ignore_events 3 2 k1" "zero32 = kernel_manifest_digest k1" "fmlookup (instances k1) (InstanceId 1) =
        Some (admit (ScheduledActionId 1) System None 1 (Tick 0) (TypeCode 7) [3] n (Instance_new (InstanceId 1) limited_config))"
    using limited_replay by metis
  define inst where "inst = admit (ScheduledActionId 1) System None 1 (Tick 0) (TypeCode 7) [3] n (Instance_new (InstanceId 1) limited_config)"
  note l = k1(4) [folded inst_def]
  have inv: "sched_inv (inst_scheduler inst)"
    using reach_inv [OF k1(2)] l by (auto simp: kernel_inv_def insts_inv_def instance_inv_def instance_sched_def)
  have i: "max_scheduled (inst_config inst) = 1" "sched_len (inst_scheduler inst) = 1" "ScheduledActionId 1 |\<in>| fmdom (by_id (inst_scheduler inst))"
    by (simp_all add: inst_def admit_def schedule_with_id_def Let_def sched_len_def Instance_new_def Scheduler_new_def bt_len_upd limited_config_def)
  then have full: "\<not> has_room inst" by (simp add: has_room_def)
  show ?thesis
    using readmission_skips_back_pressure [OF sample_encodes submit_writer_written sample_keys sample_laws(1,2) submit_writer_contents k1(3) l full inv, of ?oe ?dbg]
      readmission_breaks_tables [OF sample_encodes submit_writer_written sample_keys sample_laws(1,2) submit_writer_contents k1(3) l inv i(3), of ?oe ?dbg]
      k1(1) i(1) by auto
qed

end
