(* ===== verification/Snapshot.thy ===== *)
theory Snapshot
  imports Reachable
begin

text \<open>
  Snapshots (\<open>persist/snapshot.rs\<close>, \<open>Kernel::snapshot\<close>, \<open>Kernel::from_snapshot\<close>; the definitions are in
  \<open>Kernel\<close>): what survives a round trip through bytes, and what the structural check guarantees about a
  snapshot of unknown origin.
\<close>

section \<open>The structural check\<close>

lemma validate_structure_iff:
  "validate_structure lib snap = Inr () \<longleftrightarrow>
     (\<forall>iid s. fmlookup (ks_instances snap) iid = Some s \<longrightarrow> sched_inv (snap_scheduler s))"
proof -
  have "check_snapshot_instance lib (iid, s) = None \<longleftrightarrow> sched_inv (snap_scheduler s)" for iid s
    using validate_iff [of "snap_scheduler s"] by (auto simp: check_snapshot_instance_def split: sum.splits)
  then have "first_err (check_snapshot_instance lib) (sorted_list_of_fmap (ks_instances snap)) = None \<longleftrightarrow>
      (\<forall>iid s. fmlookup (ks_instances snap) iid = Some s \<longrightarrow> sched_inv (snap_scheduler s))"
    by (simp add: first_err_None all_entries)
  then show ?thesis
    by (cases "first_err (check_snapshot_instance lib) (sorted_list_of_fmap (ks_instances snap))") (auto simp: validate_structure_def)
qed

lemma deserialize_Inr:
  "snapshot_deserialize lib bs = Inr snap \<longleftrightarrow> postcard_snapshot_from lib bs = Inr snap \<and> validate_structure lib snap = Inr ()"
  by (auto simp: snapshot_deserialize_def split: sum.splits)

lemma restored_lookup:
  "fmlookup (instances (kernel_from_snapshot snap)) iid = Some inst \<Longrightarrow>
     \<exists>s. fmlookup (ks_instances snap) iid = Some s \<and> inst_scheduler inst = snap_scheduler s"
  by (auto simp: kernel_from_snapshot_def instance_from_snapshot_def)

text \<open>A reachable kernel's snapshot passes the check.\<close>

lemma reachable_snapshot_valid:
  assumes "kernel_reach lib oe M n k" and "Suc n * Suc M < 2 ^ 64"
  shows "validate_structure lib' (snapshot k) = Inr ()"
proof -
  have "sched_inv (inst_scheduler inst)" if "fmlookup (instances k) iid = Some inst" for iid inst
    using reach_inv [OF assms] that by (auto simp: kernel_inv_def insts_inv_def instance_inv_def instance_sched_def)
  then show ?thesis by (auto simp: validate_structure_iff snapshot_def to_snapshot_def)
qed

lemma reachable_snapshot_decodes:
  assumes "kernel_reach lib oe M n k" and "Suc n * Suc M < 2 ^ 64"
    and "postcard_snapshot lib (snapshot k) = Inr bs" and "postcard_snapshot_from lib bs = Inr (snapshot k)"
  shows "snapshot_serialize lib (snapshot k) = Inr bs" and "deserialize_verified lib bs (snapshot_digest lib bs) = Inr (snapshot k)"
  using assms(3,4) reachable_snapshot_valid [OF assms(1,2)]
  by (simp_all add: snapshot_serialize_def deserialize_verified_def snapshot_digest_def deserialize_Inr)

section \<open>State does not depend on the log\<close>

text \<open>
  A kernel with a log asks each pop for a digest of the instance, one without does not. The flag decides
  what is reported, never what the pop does, so a kernel that was restored, and so has no log, runs like
  the one that was captured.
\<close>

lemma finish_unmeasured:
  "finish_step lib md' entry i g =
     (case finish_step lib md entry i g of
        Panic \<Rightarrow> Panic
      | Done (c, inst', s) \<Rightarrow> Done (map_option (\<lambda>c. c\<lparr>core_digest := digest_of lib md' inst'\<rparr>) c, inst', s))"
  by (cases "apply_stage (g_stage g) i") (auto simp: finish_step_def core_without_effects_def Let_def)

lemma step_core_unmeasured:
  "step_one_core lib iid inst reg scratch now scaps md' =
     (case step_one_core lib iid inst reg scratch now scaps md of
        Panic \<Rightarrow> Panic
      | Done (c, inst', s) \<Rightarrow> Done (map_option (\<lambda>c. c\<lparr>core_digest := digest_of lib md' inst'\<rparr>) c, inst', s))"
proof -
  have gates: "obind x (finish_step lib md' entry i) = (case obind x (finish_step lib md entry i) of
        Panic \<Rightarrow> Panic
      | Done (c, inst', s) \<Rightarrow> Done (map_option (\<lambda>c. c\<lparr>core_digest := digest_of lib md' inst'\<rparr>) c, inst', s))" for x entry i
    by (cases x) (simp_all add: finish_unmeasured [of lib md' entry i _ md])
  show ?thesis
    by (cases "pop_due now (inst_scheduler inst)")
      (auto simp: step_one_core_def gates Let_def core_without_effects_def split: option.splits sum.splits)
qed

lemma pure_core_unmeasured:
  "pure_core lib reg now scaps md' iid inst =
     (case pure_core lib reg now scaps md iid inst of
        (c, inst') \<Rightarrow> (map_option (\<lambda>c. c\<lparr>core_digest := digest_of lib md' inst'\<rparr>) c, inst'))"
  unfolding pure_core_def step_core_unmeasured [of lib iid inst reg StepStage_default now scaps md' md]
  by (auto split: outcome.splits)

lemma pure_process_unmeasured:
  "snd (pure_process lib reg now scaps md' iid insts) = snd (pure_process lib reg now scaps md iid insts)"
  unfolding pure_process_def pure_core_unmeasured [of lib reg now scaps md' iid _ md]
  by (auto split: option.splits prod.splits)

lemma pure_step_unmeasured:
  "snd (pure_step lib reg now scaps md' ids insts) = snd (pure_step lib reg now scaps md ids insts)"
  by (induction ids arbitrary: insts) (simp_all add: Let_def case_prod_beta pure_process_unmeasured [of lib reg now scaps md' _ _ md])

section \<open>A sample codec\<close>

text \<open>It knows one snapshot, that of a kernel with one instance.\<close>

definition plain_kernel :: "unit Kernel" where
  "plain_kernel = Kernel_new\<lparr>instances := fmupd (InstanceId 1) (Instance_new (InstanceId 1) bypass_config) fmempty, next_instance_id := 1\<rparr>"

lemma plain_kernel_reach: "kernel_reach lib ignore_events 3 1 plain_kernel"
proof -
  have "create_instance bypass_config Kernel_new = Done (InstanceId 1, plain_kernel)"
    by (simp add: create_instance_eq plain_kernel_def Kernel_new_def saturating_add_def)
  from kernel_reach.create [OF kernel_reach.fresh this] show ?thesis by simp
qed

definition sample_snap_lib :: SnapLib where
  "sample_snap_lib = WalLib.extend sample_lib
     \<lparr>postcard_snapshot = (\<lambda>s. if s = snapshot plain_kernel then Inr [1] else Inl ''unknown''),
      postcard_snapshot_from = (\<lambda>bs. if bs = [1] then Inr (snapshot plain_kernel) else Inl ''unknown'')\<rparr>"

section \<open>Properties\<close>

text \<open>
  C25 (snapshot round trip). The snapshot of every reachable kernel, encoded, checked against its own
  digest, decoded, validated and restored, gives a kernel with the same instances and the same id
  counter, if the codec decodes what it encoded. The structural check never rejects a genuine
  snapshot.
\<close>

theorem snapshot_roundtrip:
  assumes "kernel_reach lib oe M n k" and "Suc n * Suc M < 2 ^ 64"
    and "postcard_snapshot lib (snapshot k) = Inr bs" and "postcard_snapshot_from lib bs = Inr (snapshot k)"
  shows "snapshot_serialize lib (snapshot k) = Inr bs \<and>
    (\<exists>snap. deserialize_verified lib bs (snapshot_digest lib bs) = Inr snap \<and>
       instances (kernel_from_snapshot snap) = instances k \<and> next_instance_id (kernel_from_snapshot snap) = next_instance_id k)"
  using reachable_snapshot_decodes [OF assms] restore_snapshot by blast

theorem snapshot_roundtrip_witness:
  "\<exists>snap. deserialize_verified sample_snap_lib [1] (snapshot_digest sample_snap_lib [1]) = Inr snap \<and>
     instances (kernel_from_snapshot snap) = instances plain_kernel"
  using snapshot_roundtrip [OF plain_kernel_reach, of sample_snap_lib "[1]"]
  by (auto simp: sample_snap_lib_def WalLib.defs)

text \<open>
  C26 (what an accepted snapshot guarantees). If \<open>deserialize_verified\<close> accepts bytes of any origin, they
  hash to the caller's digest, and in the restored kernel every scheduler is consistent, so that
  no later \<open>cancel\<close> on it panics; if the digest differs, nothing is decoded.
\<close>

theorem accepted_snapshot_safe:
  "(snapshot_digest lib bs \<noteq> expected \<longrightarrow> deserialize_verified lib bs expected = Inl IntegrityMismatch) \<and>
   (\<forall>snap. deserialize_verified lib bs expected = Inr snap \<longrightarrow> snapshot_digest lib bs = expected \<and>
      (\<forall>iid inst sid. fmlookup (instances (kernel_from_snapshot snap)) iid = Some inst \<longrightarrow>
         sched_inv (inst_scheduler inst) \<and> cancel sid (inst_scheduler inst) \<noteq> Panic))"
proof -
  have safe: "sched_inv (inst_scheduler inst) \<and> cancel sid (inst_scheduler inst) \<noteq> Panic"
    if "deserialize_verified lib bs expected = Inr snap" "fmlookup (instances (kernel_from_snapshot snap)) iid = Some inst"
    for snap iid inst sid
  proof -
    have "sched_inv (inst_scheduler inst)"
      using that restored_lookup [OF that(2)] by (auto simp: deserialize_verified_def deserialize_Inr validate_structure_iff split: if_splits)
    then show ?thesis using cancel_eq by (auto split: option.splits)
  qed
  have "snapshot_digest lib bs = expected" if "deserialize_verified lib bs expected = Inr snap" for snap
    using that by (auto simp: deserialize_verified_def snapshot_digest_def split: if_splits)
  moreover have "snapshot_digest lib bs \<noteq> expected \<longrightarrow> deserialize_verified lib bs expected = Inl IntegrityMismatch"
    by (simp add: deserialize_verified_def snapshot_digest_def)
  ultimately show ?thesis using safe by blast
qed

theorem accepted_snapshot_safe_witness:
  "deserialize_verified sample_snap_lib [1] [] = Inl IntegrityMismatch"
proof -
  have "snapshot_digest sample_snap_lib [1] \<noteq> []"
    by (simp add: snapshot_digest_def sample_snap_lib_def WalLib.defs sample_lib_def sample_bytes_def)
  then show ?thesis using accepted_snapshot_safe [of sample_snap_lib "[1]" "[]"] by blast
qed

text \<open>
  A kernel whose scheduler a replay has left inconsistent (\<open>readmission_breaks_tables\<close>) still takes a snapshot, but
  the structural check refuses it when it is read back.
\<close>

theorem readmitted_snapshot_refused:
  assumes "encodes_all lib" and "written lib wid md cls w" and "class_keys_match lib cls" and "ed25519_laws lib" and "mldsa_laws lib"
    and "contents w = [Submit 1 iid prin actor caps at tc bs aid]" and "md = kernel_manifest_digest k"
    and "fmlookup (instances k) iid = Some inst"
    and "sched_inv (inst_scheduler inst)" and "aid |\<in>| fmdom (by_id (inst_scheduler inst))"
  shows "\<exists>rep k'. replay_into lib oe dbg (from_writer w) k = Done (Inr rep, k') \<and> validate_structure lib' (snapshot k') \<noteq> Inr ()"
proof -
  obtain rep k' inst' where "replay_into lib oe dbg (from_writer w) k = Done (Inr rep, k')" "fmlookup (instances k') iid = Some inst'"
      "\<not> sched_inv (inst_scheduler inst')"
    using readmission_breaks_tables [OF assms] by blast
  moreover from this have "fmlookup (ks_instances (snapshot k')) iid = Some (to_snapshot inst')" "\<not> sched_inv (snap_scheduler (to_snapshot inst'))"
    by (simp_all add: snapshot_def to_snapshot_def)
  ultimately show ?thesis using validate_structure_iff [of lib' "snapshot k'"] by blast
qed

end
