(* ===== verification/Replay_Events.thy ===== *)
theory Replay_Events
  imports Replay
begin

text \<open>
  What observers see (\<open>runtime/kernel.rs\<close>, \<open>persist/replay.rs\<close>). The events a pop delivers are a
  function of the instances alone (\<open>pop_emits\<close>), so a run has an event trace that does not depend on
  who listens. The locale \<open>observed_log\<close> extends \<open>deterministic_log\<close> with it: redoing the logged
  facts shows the events of the live inputs again, in the same order. Interpreted on the kernel it
  gives that a replay notifies its observers of exactly the trace of the live run.
\<close>

section \<open>The events of a pop\<close>

definition route_event :: "InstanceId \<Rightarrow> PendingSignal \<Rightarrow> (InstanceId, Instance) fmap \<Rightarrow> KernelEvent" where
  "route_event from sg insts =
     (case fmlookup insts (pending_target sg) of
        None \<Rightarrow> SignalDropped (pending_target sg) (pending_route sg) TargetNotFound
      | Some target \<Rightarrow>
          if inbox_full (pending_route sg) target then SignalDropped (pending_target sg) (pending_route sg) QueueFull
          else SignalDelivered from (pending_target sg) (pending_route sg))"

fun route_events :: "InstanceId \<Rightarrow> PendingSignal list \<Rightarrow> (InstanceId, Instance) fmap \<Rightarrow> KernelEvent list" where
  "route_events from [] insts = []"
| "route_events from (sg # sgs) insts = route_event from sg insts # route_events from sgs (route_pure from sg insts)"

fun executed :: "StepVerdict \<Rightarrow> bool" where
  "executed Committed = True"
| "executed (BudgetPartial _) = True"
| "executed _ = False"

definition pop_emits ::
  "'z DigestLib_scheme \<Rightarrow> ActionRegistry \<Rightarrow> Tick \<Rightarrow> CapabilityMask \<Rightarrow> bool \<Rightarrow> InstanceId \<Rightarrow> (InstanceId, Instance) fmap
    \<Rightarrow> KernelEvent list" where
  "pop_emits lib reg now scaps md iid insts =
     (case fmlookup insts iid of
        None \<Rightarrow> []
      | Some inst \<Rightarrow>
          (case pure_core lib reg now scaps md iid inst of
             (None, inst') \<Rightarrow> []
           | (Some c, inst') \<Rightarrow>
               core_events c @ (if executed (core_verdict c) then [ActionExecuted iid (core_action_type c) now] else []) @
               route_events iid (core_signals c) (fmupd iid inst' insts)))"

fun step_emits ::
  "'z DigestLib_scheme \<Rightarrow> ActionRegistry \<Rightarrow> Tick \<Rightarrow> CapabilityMask \<Rightarrow> bool \<Rightarrow> InstanceId list \<Rightarrow> (InstanceId, Instance) fmap
    \<Rightarrow> KernelEvent list" where
  "step_emits lib reg now scaps md [] insts = []"
| "step_emits lib reg now scaps md (iid # ids) insts =
     pop_emits lib reg now scaps md iid insts @
     step_emits lib reg now scaps md ids (snd (pure_process lib reg now scaps md iid insts))"

text \<open>A whole trace, delivered to a registry of observers.\<close>

definition deliver_all :: "('o \<Rightarrow> KernelEvent \<Rightarrow> 'o option) \<Rightarrow> KernelEvent list \<Rightarrow> 'o ObserverRegistry \<Rightarrow> 'o ObserverRegistry" where
  "deliver_all oe evs r = fold (\<lambda>ev r. snd (deliver oe ev r)) evs r"

lemma deliver_all_simps [simp]:
  "deliver_all oe [] r = r"
  "deliver_all oe (ev # evs) r = deliver_all oe evs (snd (deliver oe ev r))"
  "deliver_all oe (evs @ evs') r = deliver_all oe evs' (deliver_all oe evs r)"
  by (simp_all add: deliver_all_def)

lemma deliver_counted_observers_eq [simp]:
  "observers (snd (deliver_counted oe ev st)) = snd (deliver oe ev (observers (snd st)))"
  by (simp add: deliver_counted_def case_prod_beta Let_def)

lemma deliver_fold_observers [simp]:
  "observers (snd (fold (deliver_counted oe) evs st)) = deliver_all oe evs (observers (snd st))"
  by (induction evs arbitrary: st) simp_all

lemma route_one_observers:
  "observers (snd (route_one oe from sg st)) = snd (deliver oe (route_event from sg (instances (snd st))) (observers (snd st)))"
  by (cases st) (simp add: route_one_def route_event_def Let_def split: option.splits)

lemma route_fold_observers:
  "observers (snd (fold (route_one oe from) sgs st)) =
     deliver_all oe (route_events from sgs (instances (snd st))) (observers (snd st))"
  by (induction sgs arbitrary: st) (simp_all add: route_one_observers route_one_frame)

text \<open>What a pop delivers is \<^const>\<open>pop_emits\<close>, whoever listens and whatever the scratch holds.\<close>

lemma process_observers:
  assumes "process_instance_record lib oe iid now scaps md k = Done (res, k')"
  shows "observers k' = deliver_all oe (pop_emits lib (action_registry k) now scaps md iid (instances k)) (observers k)"
proof (cases "fmlookup (instances k) iid")
  case None
  then show ?thesis using assms by (simp add: process_instance_record_def pop_emits_def)
next
  case (Some inst)
  obtain c inst' where pc: "pure_core lib (action_registry k) now scaps md iid inst = (c, inst')" by fastforce
  with pure_core_eq [of lib iid inst "action_registry k" "step_scratch k" now scaps md]
  obtain s where s: "step_one_core lib iid inst (action_registry k) (step_scratch k) now scaps md = Done (c, inst', s)"
    by auto
  let ?k1 = "k\<lparr>instances := fmupd iid inst' (instances k), step_scratch := s\<rparr>"
  show ?thesis
  proof (cases c)
    case None
    with assms Some s pc show ?thesis by (auto simp: process_instance_record_def pop_emits_def Let_def)
  next
    case c: (Some core)
    define st2 where "st2 = fold (deliver_counted oe) (core_events core) (0, ?k1)"
    define st3 where "st3 = (if executed (core_verdict core)
        then deliver_counted oe (ActionExecuted iid (core_action_type core) now) st2 else st2)"
    have "process_instance_record lib oe iid now scaps md k =
        (case fold (route_one oe iid) (core_signals core) st3 of (n, k4) \<Rightarrow> Done (Some (result_of core n), k4))"
      using Some s c by (cases "core_verdict core")
        (simp_all add: process_instance_record_def result_of_def Let_def st3_def st2_def)
    with assms have "k' = snd (fold (route_one oe iid) (core_signals core) st3)" by (auto split: prod.splits)
    moreover have "instances (snd st3) = fmupd iid inst' (instances k)"
      "observers (snd st3) = deliver_all oe (core_events core @
         (if executed (core_verdict core) then [ActionExecuted iid (core_action_type core) now] else [])) (observers k)"
      by (simp_all add: st3_def st2_def)
    ultimately show ?thesis using Some pc c by (simp add: route_fold_observers pop_emits_def)
  qed
qed

lemma pop_emits_idle:
  "fst (pure_process lib reg now scaps md iid insts) = None \<Longrightarrow> pop_emits lib reg now scaps md iid insts = []"
  by (auto simp: pure_process_def pop_emits_def split: option.splits prod.splits)

lemma step_loop_observers:
  assumes "ofold (step_instance lib oe now caps md) ids (rep, k) = Done (rep', k')"
  shows "observers k' = deliver_all oe (step_emits lib (action_registry k) now caps md ids (instances k)) (observers k)"
  using assms
proof (induction ids arbitrary: rep k)
  case (Cons iid ids)
  from process_refines [of lib oe iid now caps md k] obtain n k1 where
    k1: "process_instance_record lib oe iid now caps md k =
        Done (map_option (\<lambda>c. result_of c n) (fst (pure_process lib (action_registry k) now caps md iid (instances k))), k1)"
      "instances k1 = snd (pure_process lib (action_registry k) now caps md iid (instances k))"
      "action_registry k1 = action_registry k" by (auto simp: rest_of_def)
  obtain rep2 k2 where k2: "step_instance lib oe now caps md iid (rep, k) = Done (rep2, k2)"
      "ofold (step_instance lib oe now caps md) ids (rep2, k2) = Done (rep', k')"
    using Cons.prems by (auto simp: obind_eq_Done)
  have "observers k2 = observers k1" "instances k2 = instances k1" "action_registry k2 = action_registry k1"
    using k1(1) k2(1) by (auto simp: step_instance_def split: option.splits)
  with Cons.IH [OF k2(2)] process_observers [OF k1(1)] k1(2,3) show ?case by simp
qed simp

section \<open>Logs that are observed\<close>

fun live_trace :: "('i \<Rightarrow> 's \<Rightarrow> 'c list \<times> 's) \<Rightarrow> ('i \<Rightarrow> 's \<Rightarrow> 'e list) \<Rightarrow> 'i list \<Rightarrow> 's \<Rightarrow> 'e list" where
  "live_trace live emits [] s = []"
| "live_trace live emits (i # is) s = emits i s @ live_trace live emits is (snd (live i s))"

fun redo_trace :: "('c \<Rightarrow> 's \<Rightarrow> 's option) \<Rightarrow> ('c \<Rightarrow> 's \<Rightarrow> 'e list) \<Rightarrow> 'c list \<Rightarrow> 's \<Rightarrow> 'e list" where
  "redo_trace redo emits [] s = []"
| "redo_trace redo emits (c # cs) s =
     emits c s @ (case redo c s of None \<Rightarrow> [] | Some s' \<Rightarrow> redo_trace redo emits cs s')"

lemma redo_trace_append:
  "redo_all redo cs s = Some s' \<Longrightarrow>
   redo_trace redo emits (cs @ ds) s = redo_trace redo emits cs s @ redo_trace redo emits ds s'"
  by (induction cs arbitrary: s) (auto split: bind_splits option.splits)

locale observed_log = deterministic_log live redo
  for live :: "'i \<Rightarrow> 's \<Rightarrow> 'c list \<times> 's" and redo :: "'c \<Rightarrow> 's \<Rightarrow> 's option" +
  fixes live_emits :: "'i \<Rightarrow> 's \<Rightarrow> 'e list" and redo_emits :: "'c \<Rightarrow> 's \<Rightarrow> 'e list"
  assumes redo_shows: "live i s = (cs, s') \<Longrightarrow> redo_trace redo redo_emits cs s = live_emits i s"
begin

lemma redo_shows_all:
  "live_all live is s = (cs, s') \<Longrightarrow> redo_trace redo redo_emits cs s = live_trace live live_emits is s"
proof (induction "is" arbitrary: s cs)
  case (Cons i "is")
  obtain cs1 s1 where 1: "live i s = (cs1, s1)" by fastforce
  obtain ds s2 where 2: "live_all live is s1 = (ds, s2)" by fastforce
  have cs: "cs = cs1 @ ds" and s2: "s2 = s'" using Cons.prems 1 2 by auto
  show ?case
    using redo_shows [OF 1] Cons.IH [OF 2 [unfolded s2]] redo_trace_append [OF redo_live [OF 1], of redo_emits ds] 1
    by (simp add: cs)
qed simp

end

fun input_emits :: "'z DigestLib_scheme \<Rightarrow> ActionRegistry \<Rightarrow> KernelInput \<Rightarrow> LogState \<Rightarrow> KernelEvent list" where
  "input_emits lib reg (InSubmit iid prin actor caps at tc bs) (insts, seq) = []"
| "input_emits lib reg (InStep now caps) (insts, seq) = step_emits lib reg now caps True (bt_keys insts) insts"

fun content_emits :: "'z DigestLib_scheme \<Rightarrow> ActionRegistry \<Rightarrow> WalRecordContent \<Rightarrow> LogState \<Rightarrow> KernelEvent list" where
  "content_emits lib reg (Submit seq iid prin actor caps at tc bs aid) (insts, s) = []"
| "content_emits lib reg (Step seq iid pid now caps v d) (insts, s) = pop_emits lib reg now caps True iid insts"

lemma redo_steps_show:
  "pure_step lib reg now caps True ids insts = (log, insts') \<Longrightarrow>
   redo_trace (redo_pure lib reg) (content_emits lib reg) (step_contents now caps seq log) (insts, seq) =
     step_emits lib reg now caps True ids insts"
proof (induction ids arbitrary: insts seq log)
  case (Cons iid ids)
  obtain res insts1 where pp: "pure_process lib reg now caps True iid insts = (res, insts1)" by fastforce
  obtain log1 where ps: "pure_step lib reg now caps True ids insts1 = (log1, insts')"
    and log: "log = (case res of None \<Rightarrow> log1 | Some c \<Rightarrow> (iid, c) # log1)"
    using Cons.prems pp by (auto simp: Let_def split: prod.splits)
  show ?case
  proof (cases res)
    case None
    then have "insts1 = insts" using pure_process_idle pp by blast
    then show ?thesis using Cons.IH [OF ps] log None pp pop_emits_idle [of lib reg now caps True iid insts] by simp
  next
    case (Some c)
    then show ?thesis using Cons.IH [OF ps, of "saturating_add seq 1"] log pp by (simp add: Let_def)
  qed
qed simp

interpretation kernel_events: observed_log "live_pure lib reg" "redo_pure lib reg" "input_emits lib reg" "content_emits lib reg"
  for lib reg
proof
  fix i s cs s'
  assume live: "live_pure lib reg i s = (cs, s')"
  obtain insts seq where s: "s = (insts, seq)" by (cases s)
  show "redo_trace (redo_pure lib reg) (content_emits lib reg) cs s = input_emits lib reg i s"
  proof (cases i)
    case (InSubmit iid prin actor caps at tc bs)
    have "cs = [] \<or> (\<exists>n seq'. cs = [Submit seq' iid prin actor caps at tc bs (ScheduledActionId n)])"
      using live s InSubmit by (auto simp: Let_def split: option.splits if_splits)
    then show ?thesis
    proof
      assume "\<exists>n seq'. cs = [Submit seq' iid prin actor caps at tc bs (ScheduledActionId n)]"
      then obtain n seq' where cs: "cs = [Submit seq' iid prin actor caps at tc bs (ScheduledActionId n)]" by blast
      show ?thesis unfolding cs s InSubmit
        by (simp only: redo_trace.simps content_emits.simps input_emits.simps append_Nil split: option.split) simp
    qed (simp add: s InSubmit)
  next
    case (InStep now caps)
    obtain log insts' where ps: "pure_step lib reg now caps True (bt_keys insts) insts = (log, insts')" by fastforce
    with live s InStep redo_steps_show [OF ps, of seq] show ?thesis by auto
  qed
qed

section \<open>The traces of a run and of its replay\<close>

lemma live_run_observers:
  assumes "encodes_all lib"
  shows "wal k = Some w \<Longrightarrow> written lib wid md cls w \<Longrightarrow> live_run lib oe inputs k = Done k' \<Longrightarrow>
     observers k' = deliver_all oe (live_trace (live_pure lib (action_registry k)) (input_emits lib (action_registry k))
       inputs (instances k, w_next_seq w)) (observers k)"
proof (induction inputs arbitrary: k w)
  case Nil
  then show ?case by (simp add: live_run_def)
next
  case (Cons i inputs)
  obtain cs insts' seq' where 1: "live_pure lib (action_registry k) i (instances k, w_next_seq w) = (cs, insts', seq')"
    by (cases "live_pure lib (action_registry k) i (instances k, w_next_seq w)") auto
  from live_input_refines [OF assms Cons.prems(1,2) 1, of oe] obtain k1 w1 where
    k1: "live_input lib oe i k = Done k1" "wal k1 = Some w1" "written lib wid md cls w1"
      "instances k1 = insts'" "w_next_seq w1 = seq'" "action_registry k1 = action_registry k" by blast
  have "observers k1 = deliver_all oe (input_emits lib (action_registry k) i (instances k, w_next_seq w)) (observers k)"
  proof (cases i)
    case (InSubmit iid prin actor caps at tc bs)
    then show ?thesis using k1(1)
      by (auto simp: submit_def Let_def obind_eq_Done split: option.splits if_splits)
  next
    case (InStep now caps)
    with k1(1) Cons.prems(1) obtain rep where
      "ofold (step_instance lib oe now caps True) (bt_keys (instances k)) (StepReport_default, k) = Done (rep, k1)"
      by (auto simp: step_def obind_eq_Done)
    from step_loop_observers [OF this] InStep show ?thesis by simp
  qed
  with Cons.IH [OF k1(2,3)] Cons.prems(3) k1 1 show ?case by (simp add: live_run_def)
qed

definition replayed :: "ReplayReport \<Rightarrow> nat" where
  "replayed rep = unat (submits_replayed rep) + unat (steps_replayed rep)"

lemma replay_one_shows:
  assumes "replay_one lib oe dbg c rep w k = Done (Inr (rep', w'), k')"
  shows "observers k' = deliver_all oe (content_emits lib (action_registry k) c (instances k, s)) (observers k)"
    and "replayed rep < 2 ^ 32 - 1 \<Longrightarrow> replayed rep' = Suc (replayed rep)"
proof -
  have "observers k' = deliver_all oe (content_emits lib (action_registry k) c (instances k, s)) (observers k) \<and>
    (replayed rep < 2 ^ 32 - 1 \<longrightarrow> replayed rep' = Suc (replayed rep))"
  proof (cases c)
    case (Submit seq iid prin actor caps at tc bs aid)
    then show ?thesis using assms
      by (auto simp: submit_with_id_def replayed_def sat_simps Let_def split: prod.splits sum.splits option.splits)
  next
    case (Step seq iid pid now caps v d)
    obtain res k1 where p: "process_instance_record lib oe iid now caps True k = Done (res, k1)"
      using assms Step by (auto simp: obind_eq_Done)
    have "k1 = k' \<and> submits_replayed rep' = submits_replayed rep \<and> steps_replayed rep' = saturating_add (steps_replayed rep) 1"
      using assms Step p by (cases res) (auto split: if_splits prod.splits sum.splits)
    then show ?thesis using process_observers [OF p] Step by (auto simp: replayed_def sat_simps)
  qed
  then show "observers k' = deliver_all oe (content_emits lib (action_registry k) c (instances k, s)) (observers k)"
    "replayed rep < 2 ^ 32 - 1 \<Longrightarrow> replayed rep' = Suc (replayed rep)" by blast+
qed

lemma replay_loop_shows:
  assumes "encodes_all lib"
  shows "measures lib key w \<Longrightarrow>
     redo_all (redo_pure lib (action_registry k)) (map content recs) (instances k, w_next_seq w) = Some (insts', seq') \<Longrightarrow>
     replay_loop lib oe dbg recs rep w k = Done (Inr (rep', w'), k') \<Longrightarrow>
     observers k' = deliver_all oe (redo_trace (redo_pure lib (action_registry k)) (content_emits lib (action_registry k))
       (map content recs) (instances k, w_next_seq w)) (observers k) \<and>
     (replayed rep + length recs < 2 ^ 32 \<longrightarrow> replayed rep' = replayed rep + length recs)"
proof (induction recs arbitrary: rep w k)
  case (Cons rec recs)
  from Cons.prems(2) obtain insts1 seq1 where
    1: "redo_pure lib (action_registry k) (content rec) (instances k, w_next_seq w) = Some (insts1, seq1)"
      "redo_all (redo_pure lib (action_registry k)) (map content recs) (insts1, seq1) = Some (insts', seq')"
    by (auto split: bind_splits)
  from replay_one_complete [OF assms Cons.prems(1) 1(1), of oe dbg rep] obtain rep1 w1 k1 where
    k1: "replay_one lib oe dbg (content rec) rep w k = Done (Inr (rep1, w1), k1)" "instances k1 = insts1"
      "w_next_seq w1 = seq1" "action_registry k1 = action_registry k" "measures lib key w1"
    by blast
  with Cons.prems(3) have l: "replay_loop lib oe dbg recs rep1 w1 k1 = Done (Inr (rep', w'), k')" by simp
  from Cons.IH [OF k1(5) _ l] replay_one_shows [OF k1(1)] k1 1 show ?case by auto
qed simp

text \<open>The events of a run from the instances it starts with.\<close>

definition run_trace :: "'z DigestLib_scheme \<Rightarrow> ActionRegistry \<Rightarrow> KernelInput list \<Rightarrow> (InstanceId, Instance) fmap \<Rightarrow> KernelEvent list" where
  "run_trace lib reg inputs insts = live_trace (live_pure lib reg) (input_emits lib reg) inputs (insts, 0)"

lemma replay_records_shows:
  assumes "encodes_all lib" and "written lib wid md cls w"
    and "redo_all (redo_pure lib (action_registry k)) (contents w) (instances k, 0) = Some (insts', seq')"
    and "replay_records lib oe dbg (from_writer w) k = Done (Inr rep, k')"
  shows "observers k' = deliver_all oe (redo_trace (redo_pure lib (action_registry k)) (content_emits lib (action_registry k))
       (contents w) (instances k, 0)) (observers k) \<and>
     (record_count w < 2 ^ 32 \<longrightarrow> replayed rep = record_count w)"
proof -
  let ?m = "rebuild_from_header lib (w_header w)"
  have m: "w_next_seq ?m = 0" "replayed ReplayReport_default = 0"
    by (simp_all add: rebuild_from_header_def replayed_def ReplayReport_default_def)
  obtain r k1 where r: "replay_loop lib oe dbg (w_records w) ReplayReport_default ?m k = Done (r, k1)"
    using assms(4) by (auto simp: replay_records_def from_writer_def obind_eq_Done)
  with assms(4) obtain rep1 w1 where l: "replay_loop lib oe dbg (w_records w) ReplayReport_default ?m k = Done (Inr (rep1, w1), k')"
      "rep = rep1\<lparr>final_chain_tip := writer_chain_tip w1\<rparr>"
    by (cases r) (auto simp: replay_records_def from_writer_def Let_def split: if_splits)
  from replay_loop_shows [OF assms(1) measures_fresh _ l(1)] assms(3) m l(2) show ?thesis
    by (simp add: contents_def record_count_def replayed_def)
qed

text \<open>
  The live run and its replay together: the same instances, the same chain tip, and the same trace
  of events delivered to the observers on either side.
\<close>

lemma run_and_replay:
  fixes k0 :: "'o Kernel" and kr :: "'p Kernel"
  assumes "wal k0 = Some (with_signature lib wid md cls)"
    and "instances kr = instances k0" and "action_registry kr = action_registry k0" and "kernel_manifest_digest kr = md"
    and "encodes_all lib" and "class_keys_match lib cls" and "ed25519_laws lib" and "mldsa_laws lib"
  obtains k1 w rep kr' where "live_run lib oe inputs k0 = Done k1" "wal k1 = Some w"
    "replay_into lib oe' dbg (from_writer w) kr = Done (Inr rep, kr')"
    "instances kr' = instances k1" "final_chain_tip rep = writer_chain_tip w"
    "observers k1 = deliver_all oe (run_trace lib (action_registry k0) inputs (instances k0)) (observers k0)"
    "observers kr' = deliver_all oe' (run_trace lib (action_registry k0) inputs (instances k0)) (observers kr)"
    "record_count w < 2 ^ 32 \<longrightarrow> replayed rep = record_count w"
proof -
  let ?w0 = "with_signature lib wid md cls" and ?reg = "action_registry k0"
  have w0: "w_next_seq ?w0 = 0" "contents ?w0 = []" by (simp_all add: with_signature_def Let_def contents_def)
  obtain cs insts' seq' where l: "live_all (live_pure lib ?reg) inputs (instances k0, 0) = (cs, insts', seq')"
    by (cases "live_all (live_pure lib ?reg) inputs (instances k0, 0)") auto
  from live_run_refines [OF assms(5,1) written.fresh, of inputs cs insts' seq' oe] l w0 obtain k1 w where
    k1: "live_run lib oe inputs k0 = Done k1" "wal k1 = Some w" "written lib wid md cls w" "contents w = cs" "instances k1 = insts'"
    by auto
  from kernel_log.redo_live_all [OF l] k1(4) assms(2,3)
  have redo: "redo_all (redo_pure lib (action_registry kr)) (contents w) (instances kr, 0) = Some (insts', seq')" by simp
  from replay_records_complete [OF assms(5) k1(3) redo, of oe' dbg] obtain rep kr' where
    r: "replay_records lib oe' dbg (from_writer w) kr = Done (Inr rep, kr')" "instances kr' = insts'"
      "final_chain_tip rep = writer_chain_tip w" by blast
  have "replay_into lib oe' dbg (from_writer w) kr = Done (Inr rep, kr')"
    using written_replay [OF k1(3) assms(6-8), of oe' dbg kr] r(1) assms(4) by simp
  moreover have "observers kr' = deliver_all oe' (run_trace lib ?reg inputs (instances k0)) (observers kr) \<and>
      (record_count w < 2 ^ 32 \<longrightarrow> replayed rep = record_count w)"
    using replay_records_shows [OF assms(5) k1(3) redo r(1)] kernel_events.redo_shows_all [OF l] k1(4) assms(2,3)
    by (simp add: run_trace_def)
  moreover have "observers k1 = deliver_all oe (run_trace lib ?reg inputs (instances k0)) (observers k0)"
    using live_run_observers [OF assms(5,1) written.fresh k1(1)] w0 by (simp add: run_trace_def)
  ultimately show thesis using that k1(1,2,5) r(2,3) by auto
qed

subsection \<open>The kinds of events a run shows\<close>

fun step_event :: "KernelEvent \<Rightarrow> bool" where
  "step_event (ActionExecuted _ _ _) = True"
| "step_event (EffectFailed _ _) = True"
| "step_event (DomainEventEmitted _ _ _ _) = True"
| "step_event (SignalDropped _ _ _) = True"
| "step_event (SignalDelivered _ _ _) = True"
| "step_event _ = False"

lemma dispatch_events:
  "dispatch_op iid prin op now pcaps (stage, nid) = Done (stage', nid') \<Longrightarrow> list_all step_event (stage_events stage) \<Longrightarrow>
   list_all step_event (stage_events stage')"
  by (cases op) (auto simp: Let_def obind_eq_Done)

lemma gate_events:
  assumes "gate_op iid inst prin eff now op g = Done g'" and "list_all step_event (stage_events (g_stage g))"
  shows "list_all step_event (stage_events (g_stage g'))"
  using assms dispatch_events
  by (fastforce simp: gate_op_def deny_def dispatch_def obind_eq_Done split: sum.splits if_splits)

lemma run_gates_events:
  assumes "run_gates iid inst prin eff now ops scratch = Done g"
  shows "list_all step_event (stage_events (g_stage g))"
  by (rule ofold_invariant [OF assms [unfolded run_gates_def]]) (simp_all add: gate_events stage_clear_def StepStage_default_def)

lemma pure_core_events:
  assumes "pure_core lib reg now scaps md iid inst = (Some c, inst')"
  shows "list_all step_event (core_events c)"
proof -
  obtain s where s: "step_one_core lib iid inst reg StepStage_default now scaps md = Done (Some c, inst', s)"
    using pure_core_eq [of lib iid inst reg StepStage_default now scaps md] assms by auto
  show ?thesis
  proof (rule step_one_core_cases [of now inst lib iid reg StepStage_default scaps md], goal_cases)
    case (3 entry sched r action eff acc g)
    from run_gates_events [OF 3(5)] 3(8) s show ?case
      by (cases "apply_stage (g_stage g) (inst\<lparr>inst_scheduler := sched\<rparr>)")
        (auto simp: finish_step_def core_without_effects_def Let_def split: if_splits)
  qed (use s in \<open>auto simp: core_without_effects_def\<close>)
qed

lemma route_events_kind: "list_all step_event (route_events src sgs insts)"
  by (induction sgs arbitrary: insts) (auto simp: route_event_def split: option.splits)

lemma step_emits_kind: "list_all step_event (step_emits lib reg now scaps md ids insts)"
proof -
  have "list_all step_event (pop_emits lib reg now scaps md iid m)" for iid m
    using pure_core_events route_events_kind by (auto simp: pop_emits_def split: option.splits prod.splits)
  then show ?thesis by (induction ids arbitrary: insts) simp_all
qed

lemma run_trace_kind: "list_all step_event (run_trace lib reg inputs insts)"
proof -
  have i: "list_all step_event (input_emits lib reg i st)" for i st
    by (cases st; cases i) (simp_all add: step_emits_kind)
  have "list_all step_event (live_trace (live_pure lib reg) (input_emits lib reg) inputs st)" for st
    by (induction inputs arbitrary: st) (simp_all add: i)
  then show ?thesis by (simp add: run_trace_def)
qed

section \<open>Properties\<close>

text \<open>
  C12 (replay shows its observers what the run showed). Replaying the log of a run delivers to the
  observers of the replaying kernel exactly the events that the run delivered to its own, in the same
  order. The trace is that of the observer-free kernel on the inputs, so it does not depend on the
  observers of either side, nor on whether they panic and are evicted. Every event of it reports an executed
  action, a failed effect, a domain event or the fate of a signal (\<open>step_event\<close>): the architecture notes (A22)
  announce \<open>ObserverPanic\<close> and \<open>ObserverEvicted\<close> events on an eviction, but the code emits neither, live or in
  replay. The report counts every record, as long as they are fewer than \<open>2 ^ 32\<close>.
\<close>

theorem replay_shows_the_same_events:
  fixes k0 :: "'o Kernel" and kr :: "'p Kernel" and inputs
  assumes "wal k0 = Some (with_signature lib wid md cls)"
    and "instances kr = instances k0" and "action_registry kr = action_registry k0" and "kernel_manifest_digest kr = md"
    and "encodes_all lib" and "class_keys_match lib cls" and "ed25519_laws lib" and "mldsa_laws lib"
  defines "evs \<equiv> run_trace lib (action_registry k0) inputs (instances k0)"
  shows "\<exists>k1 w rep kr'. live_run lib oe inputs k0 = Done k1 \<and> wal k1 = Some w \<and>
     replay_into lib oe' dbg (from_writer w) kr = Done (Inr rep, kr') \<and>
     observers k1 = deliver_all oe evs (observers k0) \<and> observers kr' = deliver_all oe' evs (observers kr) \<and>
     list_all step_event evs \<and>
     (record_count w < 2 ^ 32 \<longrightarrow> unat (submits_replayed rep) + unat (steps_replayed rep) = record_count w)"
  by (rule run_and_replay [OF assms(1-8), of oe inputs oe' dbg]) (auto simp: evs_def replayed_def run_trace_kind)

text \<open>An observer that records every event, on a kernel with one instance.\<close>

definition record_event :: "KernelEvent list \<Rightarrow> KernelEvent \<Rightarrow> KernelEvent list option" where
  "record_event seen ev = Some (seen @ [ev])"

definition recording_kernel :: "KernelEvent list Kernel" where
  "recording_kernel = (snd (register_observer [] (new_with_wal_signed sample_lib zero32 zero32 sample_class)))
     \<lparr>instances := fmupd (InstanceId 1) (Instance_new (InstanceId 1) bypass_config) fmempty, next_instance_id := 1\<rparr>"

theorem replay_shows_the_same_events_witness:
  "let inputs = [InSubmit (InstanceId 1) System None 1 (Tick 0) (TypeCode 7) [3], InStep (Tick 0) 1];
       evs = run_trace sample_lib fmempty inputs (fmupd (InstanceId 1) (Instance_new (InstanceId 1) bypass_config) fmempty)
   in \<exists>k1 w rep kr'. live_run sample_lib record_event inputs recording_kernel = Done k1 \<and> wal k1 = Some w \<and>
     replay_into sample_lib record_event (\<lambda>e. []) (from_writer w) recording_kernel = Done (Inr rep, kr') \<and>
     observers kr' = deliver_all record_event evs (observers recording_kernel) \<and> observers k1 = observers kr'"
proof -
  have k: "wal recording_kernel = Some (with_signature sample_lib zero32 zero32 sample_class)"
    "action_registry recording_kernel = fmempty" "kernel_manifest_digest recording_kernel = zero32"
    "instances recording_kernel = fmupd (InstanceId 1) (Instance_new (InstanceId 1) bypass_config) fmempty"
    by (simp_all add: recording_kernel_def register_observer_def new_with_wal_signed_def ActionRegistry_new_def case_prod_beta)
  have e: "encodes_all sample_lib" by (simp add: encodes_all_def sample_lib_def)
  have c: "class_keys_match sample_lib sample_class" by (simp add: sample_class_def)
  show ?thesis
    using replay_shows_the_same_events [OF k(1) refl refl k(3) e c, where oe = record_event and oe' = record_event
        and dbg = "\<lambda>e. []" and inputs = "[InSubmit (InstanceId 1) System None 1 (Tick 0) (TypeCode 7) [3], InStep (Tick 0) 1]",
        unfolded k(2,4)]
    unfolding Let_def by fastforce
qed

end
