(* ===== verification/Kernel_Types.thy ===== *)
theory Kernel_Types
  imports Replay_Events
begin

text \<open>
  The identifier types of the source are wrappers of \<open>NonZeroU64\<close>, so no value of them is zero; the
  model's datatypes range over all words. This theory closes the gap: when callers and domain actions
  only pass non-zero identifiers, as the source's types force them to, every identifier that any
  table of a kernel holds stays non-zero, over any sequence of API calls.
\<close>

section \<open>Well-typed values\<close>

abbreviation nz_ent :: "EntityId \<Rightarrow> bool" where
  "nz_ent e \<equiv> entity_id_get e \<noteq> 0"

abbreviation nz_inst :: "InstanceId \<Rightarrow> bool" where
  "nz_inst i \<equiv> instance_id_get i \<noteq> 0"

abbreviation nz_sched :: "ScheduledActionId \<Rightarrow> bool" where
  "nz_sched s \<equiv> scheduled_id_get s \<noteq> 0"

definition wt_actor :: "EntityId option \<Rightarrow> bool" where
  "wt_actor actor \<longleftrightarrow> (case actor of None \<Rightarrow> True | Some e \<Rightarrow> nz_ent e)"

fun wt_op :: "Op \<Rightarrow> bool" where
  "wt_op (SpawnEntity eid owner) = nz_ent eid"
| "wt_op (DespawnEntity eid) = nz_ent eid"
| "wt_op (SetComponent ent tc bs sz) = nz_ent ent"
| "wt_op (RemoveComponent ent tc sz) = nz_ent ent"
| "wt_op (EmitEvent actor tc bs) = wt_actor actor"
| "wt_op (ScheduleAction at actor tc bs) = wt_actor actor"
| "wt_op (SendSignal target route pl) = nz_inst target"

definition wt_entry :: "ScheduledEntry \<Rightarrow> bool" where
  "wt_entry e \<longleftrightarrow> nz_sched (entry_id e) \<and> wt_actor (entry_actor e)"

definition wt_scheduler :: "Scheduler \<Rightarrow> bool" where
  "wt_scheduler s \<longleftrightarrow>
     (\<forall>k e. fmlookup (ready s) k = Some e \<longrightarrow> nz_sched (key_id k) \<and> wt_entry e) \<and>
     (\<forall>i k. fmlookup (by_id s) i = Some k \<longrightarrow> nz_sched i \<and> nz_sched (key_id k)) \<and>
     (\<forall>a ids. fmlookup (by_actor s) a = Some ids \<longrightarrow> nz_ent a \<and> (\<forall>i. i |\<in>| ids \<longrightarrow> nz_sched i))"

definition wt_ledger :: "ResourceLedger \<Rightarrow> bool" where
  "wt_ledger l \<longleftrightarrow> (\<forall>e. e |\<in>| ledger_entities l \<longrightarrow> nz_ent e) \<and> (\<forall>e tc. (e, tc) |\<in>| fmdom (component_sizes l) \<longrightarrow> nz_ent e)"

definition wt_inbox :: "(RouteId, InboundSignal list) fmap \<Rightarrow> bool" where
  "wt_inbox m \<longleftrightarrow> (\<forall>r q. fmlookup m r = Some q \<longrightarrow> list_all (\<lambda>s. nz_inst (sig_from s)) q)"

definition wt_instance :: "Instance \<Rightarrow> bool" where
  "wt_instance inst \<longleftrightarrow> nz_inst (inst_id inst) \<and> (\<forall>e. e |\<in>| fmdom (inst_entities inst) \<longrightarrow> nz_ent e) \<and>
     (\<forall>e tc. (e, tc) |\<in>| fmdom (inst_components inst) \<longrightarrow> nz_ent e) \<and>
     wt_scheduler (inst_scheduler inst) \<and> wt_ledger (inst_ledger inst) \<and> wt_inbox (signal_inbox inst)"

definition wt_instances :: "(InstanceId, Instance) fmap \<Rightarrow> bool" where
  "wt_instances insts \<longleftrightarrow> (\<forall>i inst. fmlookup insts i = Some inst \<longrightarrow> nz_inst i \<and> wt_instance inst)"

text \<open>Domain actions return well-typed intents when their context is well typed.\<close>

definition wt_registry :: "ActionRegistry \<Rightarrow> bool" where
  "wt_registry reg \<longleftrightarrow>
     (\<forall>tc r v bs a actor now iid inst. fmlookup reg tc = Some r \<longrightarrow> deserializer r v bs = Inr a \<longrightarrow>
        wt_actor actor \<longrightarrow> nz_inst iid \<longrightarrow> wt_instance inst \<longrightarrow>
        list_all wt_op (compute_dyn a (ActionContext_new actor now iid inst)))"

definition wt_kernel :: "'o Kernel \<Rightarrow> bool" where
  "wt_kernel k \<longleftrightarrow> wt_instances (instances k) \<and> wt_registry (action_registry k)"

section \<open>Preservation, table by table\<close>

lemma wt_schedule:
  assumes "wt_scheduler s" and "nz_sched sid" and "wt_actor actor"
  shows "wt_scheduler (schedule_with_id sid at actor prin caps tc bs s)"
  using assms unfolding wt_scheduler_def schedule_with_id_def
  by (auto simp: Let_def wt_entry_def wt_actor_def index_insert_def split: option.splits if_splits)

lemma wt_pop:
  assumes "wt_scheduler s" and "pop_due now s = Done (popped, s')"
  shows "wt_scheduler s'" and "popped = Some e \<Longrightarrow> wt_entry e"
proof -
  have lookup: "fmlookup (index_remove actor sid m) a = Some ids \<Longrightarrow> \<exists>ids'. fmlookup m a = Some ids' \<and> ids |\<subseteq>| ids'"
    for actor sid m a ids
    by (auto simp: index_remove_def Let_def split: option.splits if_splits)
  show "wt_scheduler s'"
    using assms unfolding wt_scheduler_def
    by (fastforce simp: pop_due_eq dest: lookup split: option.splits if_splits)
  show "popped = Some e \<Longrightarrow> wt_entry e"
    using assms by (auto simp: pop_due_eq wt_scheduler_def dest!: bt_first_lookup split: option.splits if_splits)
qed

fun wt_state_delta :: "StagedStateDelta \<Rightarrow> bool" where
  "wt_state_delta (StagedSpawnEntity eid meta) = nz_ent eid"
| "wt_state_delta (StagedDespawnEntity eid) = nz_ent eid"
| "wt_state_delta (StagedSetComponent ent tc bs sz) = nz_ent ent"
| "wt_state_delta (StagedRemoveComponent ent tc sz) = nz_ent ent"

fun wt_ledger_op :: "LedgerOp \<Rightarrow> bool" where
  "wt_ledger_op (LedgerAddEntity eid) = nz_ent eid"
| "wt_ledger_op (LedgerRemoveEntity eid) = nz_ent eid"
| "wt_ledger_op (LedgerAddComponent ent tc sz) = nz_ent ent"
| "wt_ledger_op (LedgerRemoveComponent ent tc sz) = nz_ent ent"

fun wt_delta :: "ScheduledEntryDelta \<Rightarrow> bool" where
  "wt_delta (Add e) = wt_entry e"
| "wt_delta (Remove sid) = False"

definition wt_stage :: "StepStage \<Rightarrow> bool" where
  "wt_stage stage \<longleftrightarrow> list_all wt_state_delta (state_ops stage) \<and> list_all wt_ledger_op (ledger_delta stage) \<and>
     list_all wt_delta (schedule_deltas stage) \<and> list_all (\<lambda>sg. nz_inst (pending_target sg)) (pending_signals stage)"

lemma wt_state_op:
  assumes "wt_instance inst" and "wt_state_delta d"
  shows "wt_instance (apply_state_op d inst)"
proof (cases d)
  case (StagedDespawnEntity eid)
  then show ?thesis using assms(1)
    by (simp add: wt_instance_def inst_remove_entity_def fold_fmdrop Let_def) blast
next
  case (StagedRemoveComponent ent tc sz)
  then show ?thesis using assms(1) by (simp add: wt_instance_def inst_remove_component_def) blast
qed (use assms in \<open>auto simp: wt_instance_def insert_entity_def insert_component_def\<close>)

lemma wt_ledger_apply:
  assumes "wt_ledger l" and "wt_ledger_op d"
  shows "wt_ledger (apply_ledger_op d l)"
proof -
  have drop: "wt_ledger (snd st) \<Longrightarrow> wt_ledger (snd (drop_component k st))" for k st
    by (cases st) (auto simp: drop_component_def wt_ledger_def split: option.splits)
  have drops: "wt_ledger (snd st) \<Longrightarrow> wt_ledger (snd (fold drop_component ks st))" for ks st
    by (induction ks arbitrary: st) (simp_all add: drop)
  have ents: "wt_ledger (l\<lparr>ledger_entities := ledger_entities l |-| {|e|}\<rparr>)" for e
    using assms(1) by (simp add: wt_ledger_def)
  have upd: "wt_ledger (l\<lparr>component_sizes := fmupd (e, tc) sz (component_sizes l), total_bytes := n\<rparr>)"
    "wt_ledger (l\<lparr>component_sizes := fmdrop (e, tc) (component_sizes l), total_bytes := n\<rparr>)" if "nz_ent e" for e tc sz n
    using assms(1) that by (auto simp: wt_ledger_def)
  show ?thesis
  proof (cases d)
    case (LedgerAddEntity eid)
    then show ?thesis using assms by (simp add: add_entity_def wt_ledger_def)
  next
    case (LedgerRemoveEntity eid)
    then show ?thesis using assms(1) drops [of "(0, l\<lparr>ledger_entities := ledger_entities l |-| {|eid|}\<rparr>)"] ents
      by (simp add: remove_entity_def Let_def)
  next
    case (LedgerAddComponent ent tc sz)
    then show ?thesis using assms upd(1) by (simp add: add_component_def Let_def split: option.split)
  next
    case (LedgerRemoveComponent ent tc sz)
    then show ?thesis using assms upd(2) by (simp add: remove_component_def split: option.split)
  qed
qed

lemma wt_delta_apply:
  "wt_scheduler s \<Longrightarrow> wt_delta d \<Longrightarrow> apply_schedule_delta d s = Done s' \<Longrightarrow> wt_scheduler s'"
  by (cases d) (auto simp: wt_schedule wt_entry_def)

lemma wt_apply_stage:
  assumes "wt_instance inst" and "wt_stage stage" and "apply_stage stage inst = Done (signals, inst', stage')"
  shows "wt_instance inst'" and "list_all (\<lambda>sg. nz_inst (pending_target sg)) signals"
proof -
  define inst1 where "inst1 = inst\<lparr>inst_counters := apply_counters (id_counters stage) (inst_counters inst)\<rparr>"
  define inst2 where "inst2 = fold apply_state_op (state_ops stage) inst1"
  have fold_wt: "wt_instance i \<Longrightarrow> list_all wt_state_delta ds \<Longrightarrow> wt_instance (fold apply_state_op ds i)" for ds i
    by (induction ds arbitrary: i) (simp_all add: wt_state_op)
  have fold_led: "wt_ledger l \<Longrightarrow> list_all wt_ledger_op ds \<Longrightarrow> wt_ledger (fold apply_ledger_op ds l)" for ds l
    by (induction ds arbitrary: l) (simp_all add: wt_ledger_apply)
  have "wt_instance inst1" using assms(1) by (simp add: inst1_def wt_instance_def)
  then have i2: "wt_instance inst2" using assms(2) fold_wt by (simp add: inst2_def wt_stage_def)
  then have l: "wt_ledger (fold apply_ledger_op (ledger_delta stage) (inst_ledger inst2))"
    using assms(2) fold_led by (simp add: wt_stage_def wt_instance_def)
  obtain s where s: "ofold apply_schedule_delta (schedule_deltas stage) (inst_scheduler inst2) = Done s"
    and r: "signals = pending_signals stage"
      "inst' = advance_local_tick (local_tick_delta stage) (advance_wall_remainder (wall_remainder_delta stage)
         (inst2\<lparr>inst_ledger := fold apply_ledger_op (ledger_delta stage) (inst_ledger inst2), inst_scheduler := s\<rparr>))"
    using assms(3) by (auto simp: apply_stage_def Let_def obind_eq_Done inst2_def inst1_def)
  have "wt_scheduler s"
  proof (rule ofold_invariant [OF s, of wt_scheduler])
    show "wt_scheduler (inst_scheduler inst2)" using i2 by (simp add: wt_instance_def)
    show "wt_scheduler s2" if "d \<in> set (schedule_deltas stage)" "wt_scheduler s1" "apply_schedule_delta d s1 = Done s2" for d s1 s2
      using that assms(2) wt_delta_apply by (auto simp: wt_stage_def list_all_iff)
  qed
  then show "wt_instance inst'"
    using i2 l by (simp add: r(2) wt_instance_def advance_local_tick_def advance_wall_remainder_def)
  show "list_all (\<lambda>sg. nz_inst (pending_target sg)) signals" using assms(2) by (simp add: r(1) wt_stage_def)
qed

section \<open>Preservation by the gate loop and by a pop\<close>

lemma wt_dispatch:
  "wt_stage stage \<Longrightarrow> wt_op op \<Longrightarrow> dispatch_op iid prin op now pcaps (stage, nid) = Done (stage', nid') \<Longrightarrow> wt_stage stage'"
  by (cases op) (auto simp: wt_stage_def wt_entry_def Let_def)

lemma wt_gate_op:
  assumes "wt_stage (g_stage g)" and "wt_op op" and "gate_op iid inst prin eff now op g = Done g'"
  shows "wt_stage (g_stage g')"
proof -
  have "wt_stage (g_stage (deny iid reason g))" for reason using assms(1) by (simp add: deny_def wt_stage_def)
  then show ?thesis
    using assms wt_dispatch [of "g_stage g" op]
    by (auto simp: gate_op_def authorize_eq dispatch_def obind_eq_Done split: if_splits)
qed

lemma wt_run_gates:
  assumes "list_all wt_op ops" and "run_gates iid inst prin eff now ops scratch = Done g"
  shows "wt_stage (g_stage g)"
  using assms(2) unfolding run_gates_def
proof (rule ofold_invariant [where I = "\<lambda>g. wt_stage (g_stage g)"])
  show "wt_stage (g_stage g2)" if "op \<in> set ops" "wt_stage (g_stage g1)" "gate_op iid inst prin eff now op g1 = Done g2" for op g1 g2
    using that assms(1) wt_gate_op by (auto simp: list_all_iff)
qed (simp add: wt_stage_def StepStage_default_def)

lemma wt_core:
  assumes "wt_instance inst" and "wt_registry reg" and "nz_inst iid" and "pure_core lib reg now scaps md iid inst = (c, inst')"
  shows "wt_instance inst' \<and> (\<forall>core. c = Some core \<longrightarrow> list_all (\<lambda>sg. nz_inst (pending_target sg)) (core_signals core))"
proof -
  obtain s where s: "step_one_core lib iid inst reg StepStage_default now scaps md = Done (c, inst', s)"
    using pure_core_eq [of lib iid inst reg StepStage_default now scaps md] assms(4) by auto
  have popped: "wt_instance (inst\<lparr>inst_scheduler := sched\<rparr>)" if "pop_due now (inst_scheduler inst) = Done (r, sched)" for r sched
    using wt_pop(1) [OF _ that] assms(1) by (simp add: wt_instance_def)
  show ?thesis
  proof (rule step_one_core_cases [of now inst lib iid reg StepStage_default scaps md], goal_cases)
    case 1
    then show ?case using s assms(1) by simp
  next
    case (2 entry sched reason)
    then show ?case using s popped by (auto simp: core_without_effects_def)
  next
    case (3 entry sched r action eff acc g)
    let ?inst = "inst\<lparr>inst_scheduler := sched\<rparr>"
    have "wt_entry entry" using wt_pop(2) [OF _ 3(1)] assms(1) by (simp add: wt_instance_def)
    then have "list_all wt_op (compute_dyn action (ActionContext_new (entry_actor entry) now iid ?inst))"
      using assms(2,3) 3(2,3) popped [OF 3(1)] unfolding wt_registry_def registry_get_def wt_entry_def by blast
    from wt_run_gates [OF this 3(5)] have g: "wt_stage (g_stage g)" .
    show ?case
      using s 3(8) popped [OF 3(1)] wt_apply_stage [OF popped [OF 3(1)] g]
      by (auto simp: finish_step_def Let_def obind_eq_Done core_without_effects_def split: if_splits)
  qed
qed

lemma wt_route:
  assumes "wt_instances insts" and "nz_inst iid"
  shows "wt_instances (fold (route_pure iid) sgs insts)"
proof -
  have "wt_instance (accept_signal iid sg t)" if "wt_instance t" for sg t
    using that assms(2) by (auto simp: accept_signal_def deliver_signal_def Let_def wt_instance_def wt_inbox_def split: option.splits if_splits)
  then have "wt_instances m \<Longrightarrow> wt_instances (route_pure iid sg m)" for sg m
    by (auto simp: route_pure_def wt_instances_def split: option.splits)
  with assms(1) show ?thesis by (induction sgs arbitrary: insts) simp_all
qed

lemma wt_process:
  assumes "wt_instances insts" and "wt_registry reg"
  shows "wt_instances (snd (pure_process lib reg now scaps md iid insts))"
proof (cases "fmlookup insts iid")
  case (Some inst)
  obtain c inst' where c: "pure_core lib reg now scaps md iid inst = (c, inst')" by fastforce
  have w: "nz_inst iid" "wt_instance inst" using Some assms(1) by (simp_all add: wt_instances_def)
  from wt_core [OF w(2) assms(2) w(1) c] have "wt_instances (fmupd iid inst' insts)"
    using assms(1) w(1) by (simp add: wt_instances_def)
  then show ?thesis using Some c wt_route [OF _ w(1)] by (auto simp: pure_process_def split: option.splits)
qed (use assms in \<open>simp add: pure_process_def\<close>)

lemma wt_step:
  "wt_instances insts \<Longrightarrow> wt_registry reg \<Longrightarrow> wt_instances (snd (pure_step lib reg now scaps md ids insts))"
  by (induction ids arbitrary: insts) (simp_all add: wt_process case_prod_beta Let_def)

section \<open>Sequences of API calls\<close>

datatype ApiCall =
    ApiCreate InstanceConfig
  | ApiInput KernelInput
  | ApiUnload RouteId CapabilityMask
  | ApiReadmit InstanceId Principal "EntityId option" CapabilityMask ScheduledActionId Tick TypeCode bytes

fun api_call ::
  "'z WalLib_scheme \<Rightarrow> ('o \<Rightarrow> KernelEvent \<Rightarrow> 'o option) \<Rightarrow> ApiCall \<Rightarrow> 'o Kernel \<Rightarrow> 'o Kernel outcome" where
  "api_call lib oe (ApiCreate config) k = obind (create_instance config k) (\<lambda>(_, k'). Done k')"
| "api_call lib oe (ApiInput i) k = live_input lib oe i k"
| "api_call lib oe (ApiUnload route caps) k = Done (snd (force_unload oe route caps k))"
| "api_call lib oe (ApiReadmit iid prin actor caps sid at tc bs) k =
     Done (snd (submit_with_id iid prin actor caps sid at tc bs k))"

text \<open>The arguments that are identifiers are non-zero, as their types in the source say.\<close>

fun wt_call :: "ApiCall \<Rightarrow> bool" where
  "wt_call (ApiInput (InSubmit iid prin actor caps at tc bs)) = wt_actor actor"
| "wt_call (ApiReadmit iid prin actor caps sid at tc bs) = (wt_actor actor \<and> nz_sched sid)"
| "wt_call _ = True"

lemma wt_admit:
  "wt_instance inst \<Longrightarrow> nz_sched sid \<Longrightarrow> wt_actor actor \<Longrightarrow> wt_instance (admit sid prin actor caps at tc bs n inst)"
  by (simp add: wt_instance_def admit_def wt_schedule)

lemma wt_new: "nz_inst iid \<Longrightarrow> wt_instance (Instance_new iid config)"
  by (simp add: wt_instance_def Instance_new_def wt_scheduler_def Scheduler_new_def wt_ledger_def ledger_new_def wt_inbox_def)

lemma wt_api_call:
  assumes "wt_kernel k" and "wt_call c"
  shows "\<exists>k'. api_call lib oe c k = Done k' \<and> wt_kernel k'"
proof (cases c)
  case (ApiCreate config)
  then show ?thesis using assms(1) by (auto simp: create_instance_eq wt_kernel_def wt_instances_def wt_new)
next
  case (ApiUnload route caps)
  have "wt_instance (drop_route route inst) = wt_instance inst" for inst by (simp add: drop_route_def wt_instance_def)
  then show ?thesis using ApiUnload assms(1)
    by (auto simp: force_unload_def Let_def wt_kernel_def wt_instances_def)
next
  case (ApiReadmit iid prin actor caps sid at tc bs)
  then show ?thesis using assms
    by (auto simp: submit_with_id_def Let_def wt_kernel_def wt_instances_def wt_admit split: option.splits)
next
  case (ApiInput i)
  show ?thesis
  proof (cases i)
    case i: (InSubmit iid prin actor caps at tc bs)
    show ?thesis
    proof (rule submit_cases [of k iid lib prin actor caps at tc bs], goal_cases)
      case (3 inst n)
      then show ?case using assms ApiInput i by (auto simp: wt_kernel_def wt_instances_def wt_admit)
    qed (use assms ApiInput i in auto)
  next
    case (InStep now caps)
    with ApiInput step_refines [of lib oe now caps k] wt_step [of "instances k" "action_registry k"] assms(1) show ?thesis
      by (fastforce simp: wt_kernel_def rest_of_def)
  qed
qed

section \<open>Properties\<close>

text \<open>
  C14 (identifiers stay non-zero). On a kernel whose tables hold only non-zero identifiers, with
  actions that return well-typed intents, any sequence of well-typed API calls (creating instances,
  submitting, stepping, unloading, re-admitting on replay) returns, and every identifier then held by
  the instance map, the schedulers, the entity and component stores, the ledgers and the inboxes is
  non-zero. So the model's identifiers stay inside the \<open>NonZeroU64\<close> types of the source.
\<close>

theorem identifiers_stay_nonzero:
  assumes "wt_kernel k" and "list_all wt_call calls"
  shows "\<exists>k'. ofold (api_call lib oe) calls k = Done k' \<and> wt_kernel k'"
  using assms
proof (induction calls arbitrary: k)
  case (Cons c calls)
  then obtain k1 where "api_call lib oe c k = Done k1" "wt_kernel k1" using wt_api_call [of k c lib oe] by auto
  with Cons show ?case by simp
qed simp

theorem identifiers_stay_nonzero_witness:
  "\<exists>k'. ofold (api_call sample_lib ignore_events)
     [ApiCreate bypass_config, ApiInput (InSubmit (InstanceId 1) System (Some (EntityId 3)) 1 (Tick 0) (TypeCode 7) [3]), ApiInput (InStep (Tick 0) 1)]
     Kernel_new = Done k' \<and> wt_kernel k'"
proof (rule identifiers_stay_nonzero)
  show "wt_kernel (Kernel_new :: unit Kernel)"
    by (simp add: wt_kernel_def Kernel_new_def wt_instances_def wt_registry_def ActionRegistry_new_def)
qed (simp add: wt_actor_def)

end
