(* ===== verification/Display.thy ===== *)
theory Display
  imports Replay Quota
begin

text \<open>
  The texts the program prints for its errors and its key material: the \<open>Display\<close> implementations of
  the error types of the crate and the hand-written \<open>Debug\<close> implementations of the signers. The error
  texts are the operator's only evidence of what went wrong, so the lemmas show that they determine
  the error; the \<open>Debug\<close> texts must not leak secrets, so the property there is that they depend on
  nothing but the tier and the Ed25519 verifying key.
\<close>

section \<open>Errors\<close>

fun display_ArkheError :: "ArkheError \<Rightarrow> string" where
  "display_ArkheError InstanceNotFound = ''instance not found''"
| "display_ArkheError CapabilityDenied = ''capability denied''"
| "display_ArkheError QuotaExceeded = ''quota exceeded''"
| "display_ArkheError (Domain cd pl) =
     ''domain error: code='' @ dec (unat cd) @ '' payload_len='' @ dec (length pl)"

fun display_QuotaReductionError :: "QuotaReductionError \<Rightarrow> string" where
  "display_QuotaReductionError (WouldViolateChildren cur quota) =
     ''quota reduction would violate children: current_usage='' @ dec (unat cur) @ '', new_quota='' @ dec (unat quota)"

fun display_DenyReason :: "DenyReason \<Rightarrow> string" where
  "display_DenyReason DenyCapability = ''capability denied''"
| "display_DenyReason InstanceMismatch = ''instance mismatch''"
| "display_DenyReason OperationRestricted = ''operation restricted''"
| "display_DenyReason NotImplemented = ''authorize not implemented''"

fun display_DeserializeError :: "DeserializeError \<Rightarrow> string" where
  "display_DeserializeError (SchemaVersionMismatch expected got) =
     ''schema version mismatch: expected '' @ dec (unat expected) @ '', got '' @ dec (unat got)"
| "display_DeserializeError PayloadMalformed = ''payload malformed''"
| "display_DeserializeError (UnknownTypeCode observed) = ''unknown type code: '' @ debug_TypeCode observed"
| "display_DeserializeError LengthExceedsBudget = ''deserialization length exceeds budget''"

fun display_WalError :: "WalError \<Rightarrow> string" where
  "display_WalError (SerializeFailed m) = ''wal serialize failed: '' @ m"
| "display_WalError (DeserializeFailed m) = ''wal deserialize failed: '' @ m"
| "display_WalError (ChainBroken n) = ''wal chain broken at record '' @ dec n"
| "display_WalError (HashMismatch n) = ''wal hash mismatch at record '' @ dec n"
| "display_WalError (HeaderIncompatible m) = ''wal header incompatible: '' @ m"
| "display_WalError InvalidVerifyingKey = ''wal verifying_key invalid (not a valid Ed25519 public key)''"
| "display_WalError (MissingSignature n) = ''wal signature missing at record '' @ dec n"
| "display_WalError (SignatureMismatch n) = ''wal signature mismatch at record '' @ dec n"
| "display_WalError (MissingPqcSignature n) = ''wal PQC signature missing at record '' @ dec n"
| "display_WalError (PqcSignatureMismatch n) = ''wal PQC signature mismatch at record '' @ dec n"
| "display_WalError PqcWithoutEd25519 = ''wal envelope invalid (verifying_key_pqc set without verifying_key)''"
| "display_WalError TierDowngrade = ''wal signature tier downgraded below the trust anchor'' @ [CHR 0x27] @ ''s minimum''"
| "display_WalError VerifyingKeyMismatch =
     ''wal verifying key does not match the trust anchor'' @ [CHR 0x27] @ ''s expected key''"
| "display_WalError ManifestDigestMismatch = ''wal manifest_digest does not match the expected digest''"
| "display_WalError ChainTipMismatch = ''wal chain tip does not match the expected tip (tail truncation?)''"

fun display_SnapshotError :: "SnapshotError \<Rightarrow> string" where
  "display_SnapshotError (SnapSerializeFailed m) = ''snapshot serialize failed: '' @ m"
| "display_SnapshotError (SnapDeserializeFailed m) = ''snapshot deserialize failed: '' @ m"
| "display_SnapshotError (Inconsistent m) = ''snapshot structural validation failed: '' @ m"
| "display_SnapshotError IntegrityMismatch = ''snapshot integrity digest mismatch''"

text \<open>The derived \<open>Debug\<close> of a verdict.\<close>

fun debug_SkipReason :: "SkipReason \<Rightarrow> string" where
  "debug_SkipReason Unregistered = ''Unregistered''"
| "debug_SkipReason DeserFailed = ''DeserFailed''"

fun debug_StepVerdict :: "StepVerdict \<Rightarrow> string" where
  "debug_StepVerdict Committed = ''Committed''"
| "debug_StepVerdict AuthDenied = ''AuthDenied''"
| "debug_StepVerdict (BudgetPartial n) = ''BudgetPartial { denied: '' @ dec (unat n) @ '' }''"
| "debug_StepVerdict (Skipped r) = ''Skipped { reason: '' @ debug_SkipReason r @ '' }''"

fun display_ReplayError :: "ReplayError \<Rightarrow> string" where
  "display_ReplayError (ReplayHeaderIncompatible m) = ''wal header incompatible: '' @ m"
| "display_ReplayError (KernelSemverMismatch expected got) =
     ''kernel semver mismatch: expected '' @ debug_triple expected @ '', got '' @ debug_triple got"
| "display_ReplayError (AbiVersionMismatch expected got) =
     ''abi version mismatch: expected '' @ debug_pair expected @ '', got '' @ debug_pair got"
| "display_ReplayError (PostcardVersionMismatch expected got) =
     ''postcard version mismatch: expected '' @ dec (unat expected) @ '', got '' @ dec (unat got)"
| "display_ReplayError (Blake3VersionMismatch expected got) =
     ''blake3 version mismatch: expected '' @ dec (unat expected) @ '', got '' @ dec (unat got)"
| "display_ReplayError (WalCorrupted e) = ''wal corrupted: '' @ display_WalError e"
| "display_ReplayError (SubmitFailed m) = ''submit failed: '' @ m"
| "display_ReplayError (StepUnderflow inst) =
     ''replay step underflow: no due action for '' @ debug_InstanceId inst"
| "display_ReplayError (PoppedIdDivergence seq) = ''replay popped-id divergence at record '' @ dec (unat seq)"
| "display_ReplayError (VerdictDivergence seq expected got) =
     ''replay verdict divergence at record '' @ dec (unat seq) @ '': expected '' @ debug_StepVerdict expected @
     '', got '' @ debug_StepVerdict got"
| "display_ReplayError (StateDigestDivergence seq) = ''replay state-digest divergence at record '' @ dec (unat seq)"
| "display_ReplayError (ChainTipDivergence expected measured) =
     ''replay chain-tip divergence: expected '' @ hex_bytes expected @ '', measured '' @ hex_bytes measured"
| "display_ReplayError (ReplayManifestDigestMismatch expected got) =
     ''replay manifest_digest mismatch: wal '' @ hex_bytes expected @ '', kernel '' @ hex_bytes got"

fun display_PqcSignError :: "PqcSignError \<Rightarrow> string" where
  "display_PqcSignError (Provider m) = ''PQC signer provider error: '' @ m"

fun display_PqcVerifyError :: "PqcVerifyError \<Rightarrow> string" where
  "display_PqcVerifyError PqcWrongLength = ''PQC signature wrong length''"
| "display_PqcVerifyError PqcMismatch = ''PQC signature did not validate''"

section \<open>Key material\<close>

definition debug_SoftwareMlDsa65Signer :: "SoftwareMlDsa65Signer \<Rightarrow> string" where
  "debug_SoftwareMlDsa65Signer s =
     ''SoftwareMlDsa65Signer { verifying_key_bytes: <1952B>, signing_key: <redacted> }''"

definition debug_SoftwareMlDsa65Verifier :: "SoftwareMlDsa65Verifier \<Rightarrow> string" where
  "debug_SoftwareMlDsa65Verifier v = ''SoftwareMlDsa65Verifier { verifying_key_bytes: <1952B> }''"

fun debug_SignatureClass :: "SignatureClass \<Rightarrow> string" where
  "debug_SignatureClass SigNone = ''SignatureClass::None''"
| "debug_SignatureClass (SigEd25519 sk vk) =
     ''SignatureClass::Ed25519 { verifying_key: '' @ debug_bytes vk @ '', signing_key: <redacted> }''"
| "debug_SignatureClass (SigHybrid sk vk pqc) =
     ''SignatureClass::Hybrid { ed25519_verifying_key: '' @ debug_bytes vk @
     '', ed25519_signing_key: <redacted>, pqc_signer: <redacted> }''"

section \<open>Lemmas\<close>

lemma debug_ids_inject [simp]:
  "debug_InstanceId i = debug_InstanceId j \<longleftrightarrow> i = j" "debug_TypeCode t = debug_TypeCode u \<longleftrightarrow> t = u"
  by (auto simp: debug_InstanceId_def debug_TypeCode_def InstanceId.expand TypeCode.expand)

lemma debug_StepVerdict_span [simp]:
  assumes "ys = [] \<or> hd ys = CHR '',''" and "vs = [] \<or> hd vs = CHR '',''"
  shows "debug_StepVerdict v @ ys = debug_StepVerdict w @ vs \<longleftrightarrow> v = w \<and> ys = vs"
proof -
  have r: "debug_SkipReason r @ '' }'' @ ys = debug_SkipReason s @ '' }'' @ vs \<longleftrightarrow> r = s \<and> ys = vs" for r s
    by (cases r; cases s) simp_all
  show ?thesis using r by (cases v; cases w) auto
qed

lemma debug_StepVerdict_inject [simp]: "debug_StepVerdict v = debug_StepVerdict w \<longleftrightarrow> v = w"
  using debug_StepVerdict_span [of "[]" "[]" v w] by simp

lemma hex_span_literal [simp]:
  "hex_bytes as @ CHR '','' # ys = hex_bytes bs @ CHR '','' # vs \<longleftrightarrow> as = bs \<and> ys = vs"
  using hex_span [of "CHR '','' # ys" "CHR '','' # vs" as bs] by simp

lemma display_WalError_inject [simp]: "display_WalError e = display_WalError e' \<longleftrightarrow> e = e'"
  by (cases e; cases e'; simp)

lemma display_ReplayError_inject: "display_ReplayError e = display_ReplayError e' \<longleftrightarrow> e = e'"
  by (cases e; cases e'; simp)

section \<open>Properties\<close>

text \<open>
  C34 (error texts identify errors). Two errors of replay, of the log, of a snapshot, of decoding or
  of a quota reduction that print the same text are the same error, including the record number, the
  versions, the verdicts and the digests they carry.
\<close>

theorem error_texts_identify:
  "(display_ReplayError r = display_ReplayError r' \<longleftrightarrow> r = r') \<and> (display_WalError w = display_WalError w' \<longleftrightarrow> w = w') \<and>
   (display_SnapshotError s = display_SnapshotError s' \<longleftrightarrow> s = s') \<and>
   (display_DeserializeError d = display_DeserializeError d' \<longleftrightarrow> d = d') \<and>
   (display_QuotaReductionError q = display_QuotaReductionError q' \<longleftrightarrow> q = q')"
proof (intro conjI)
  show "display_SnapshotError s = display_SnapshotError s' \<longleftrightarrow> s = s'" by (cases s; cases s'; simp)
  show "display_DeserializeError d = display_DeserializeError d' \<longleftrightarrow> d = d'" by (cases d; cases d'; simp)
  show "display_QuotaReductionError q = display_QuotaReductionError q' \<longleftrightarrow> q = q'" by (cases q; cases q'; simp)
qed (simp_all only: display_ReplayError_inject display_WalError_inject)

text \<open>The tier of a signature class and its Ed25519 verifying key: all that may be printed of it.\<close>

fun public_part :: "SignatureClass \<Rightarrow> nat \<times> bytes" where
  "public_part SigNone = (0, [])"
| "public_part (SigEd25519 sk vk) = (1, vk)"
| "public_part (SigHybrid sk vk pqc) = (2, vk)"

text \<open>
  C35 (Debug leaks no secret). The \<open>Debug\<close> text of a signature class is a function of its tier and its
  Ed25519 verifying key and tells exactly these: classes that differ in signing keys or in the ML-DSA
  signer print the same text, classes that differ in tier or verifying key do not. The texts of the
  ML-DSA signer and verifier are constant.
\<close>

theorem debug_redacts_secrets:
  "(debug_SignatureClass c = debug_SignatureClass c' \<longleftrightarrow> public_part c = public_part c') \<and>
   debug_SoftwareMlDsa65Signer s = debug_SoftwareMlDsa65Signer s' \<and>
   debug_SoftwareMlDsa65Verifier v = debug_SoftwareMlDsa65Verifier v'"
  by (cases c; cases c'; simp add: debug_SoftwareMlDsa65Signer_def debug_SoftwareMlDsa65Verifier_def)

end
