(* ===== verification/Macros.thy ===== *)
theory Macros
  imports Actions
begin

text \<open>
  The derive macros (\<open>arkhe-macros/src/lib.rs\<close>). What \<open>syn\<close> hands to them is data here: an attribute
  with its path, the nested entries in source order and, when the list is malformed, the error at
  which \<open>parse_nested_meta\<close> stops after them; an entry's value is what parsing it as an integer literal
  gives. What \<open>quote\<close> emits is the list of implementations. \<open>parse_arkhe_args\<close> is the mutable loop of
  the source; the property compares it with a declarative reading of the attributes.
\<close>

section \<open>Input and output of the macros\<close>

type_synonym SynError = string

datatype MetaValue = LitInt nat | BadValue SynError

record Meta =
  meta_path :: string
  meta_value :: MetaValue

record Attribute =
  attr_path :: string
  attr_metas :: "Meta list"
  attr_stop :: "SynError option"

record DeriveInput =
  input_ident :: string
  input_generics :: string
  input_attrs :: "Attribute list"

datatype DeriveTrait = TraitActionDeriv | TraitComponent | TraitEvent

datatype Impl =
    ImplSealed string string
  | ImplTrait DeriveTrait string string (impl_type_code: TypeCode) (impl_schema_version: u32)

datatype TokenStream = CompileError SynError | Impls "Impl list"

record ArkheArgs =
  arg_type_code :: u32
  arg_schema_version :: u32

section \<open>Parsing the attributes\<close>

text \<open>\<open>meta.value()?.parse::<LitInt>()?.base10_parse::<u32>()?\<close>.\<close>

fun base10_u32 :: "MetaValue \<Rightarrow> SynError + u32" where
  "base10_u32 (BadValue e) = Inl e"
| "base10_u32 (LitInt n) =
     (if n < 2 ^ 32 then Inr (of_nat n) else Inl ''number too large to fit in target type'')"

definition unknown_argument :: SynError where
  "unknown_argument = ''unknown #[arkhe(...)] argument; expected `type_code` or `schema_version`''"

definition missing_type_code :: SynError where
  "missing_type_code = ''missing #[arkhe(type_code = N)] attribute''"

text \<open>The two variables the closure assigns.\<close>

type_synonym Parsed = "u32 option \<times> u32"

definition parse_meta :: "Meta \<Rightarrow> Parsed \<Rightarrow> SynError + Parsed" where
  "parse_meta meta p =
     (if meta_path meta = ''type_code'' then
        (case base10_u32 (meta_value meta) of Inl e \<Rightarrow> Inl e | Inr v \<Rightarrow> Inr (Some v, snd p))
      else if meta_path meta = ''schema_version'' then
        (case base10_u32 (meta_value meta) of Inl e \<Rightarrow> Inl e | Inr v \<Rightarrow> Inr (fst p, v))
      else Inl unknown_argument)"

fun parse_metas :: "Meta list \<Rightarrow> SynError option \<Rightarrow> Parsed \<Rightarrow> SynError + Parsed" where
  "parse_metas [] stop p = (case stop of Some e \<Rightarrow> Inl e | None \<Rightarrow> Inr p)"
| "parse_metas (meta # metas) stop p =
     (case parse_meta meta p of Inl e \<Rightarrow> Inl e | Inr p' \<Rightarrow> parse_metas metas stop p')"

fun parse_attrs :: "Attribute list \<Rightarrow> Parsed \<Rightarrow> SynError + Parsed" where
  "parse_attrs [] p = Inr p"
| "parse_attrs (attr # attrs) p =
     (if attr_path attr \<noteq> ''arkhe'' then parse_attrs attrs p
      else case parse_metas (attr_metas attr) (attr_stop attr) p of
             Inl e \<Rightarrow> Inl e | Inr p' \<Rightarrow> parse_attrs attrs p')"

definition parse_arkhe_args :: "Attribute list \<Rightarrow> SynError + ArkheArgs" where
  "parse_arkhe_args attrs =
     (case parse_attrs attrs (None, 1) of
        Inl e \<Rightarrow> Inl e
      | Inr (None, _) \<Rightarrow> Inl missing_type_code
      | Inr (Some tc, sv) \<Rightarrow> Inr \<lparr>arg_type_code = tc, arg_schema_version = sv\<rparr>)"

section \<open>The derives\<close>

definition sealed_impl :: "string \<Rightarrow> string \<Rightarrow> Impl" where
  "sealed_impl name generics = ImplSealed name generics"

text \<open>\<open>parse_macro_input!\<close> returns the error of parsing the item itself.\<close>

definition derive_arkhe_action :: "SynError + DeriveInput \<Rightarrow> TokenStream" where
  "derive_arkhe_action input =
     (case input of
        Inl e \<Rightarrow> CompileError e
      | Inr i \<Rightarrow>
          (case parse_arkhe_args (input_attrs i) of
             Inl e \<Rightarrow> CompileError e
           | Inr args \<Rightarrow>
               Impls [sealed_impl (input_ident i) (input_generics i),
                      ImplTrait TraitActionDeriv (input_ident i) (input_generics i)
                        (TypeCode (arg_type_code args)) (arg_schema_version args)]))"

definition derive_arkhe_component :: "SynError + DeriveInput \<Rightarrow> TokenStream" where
  "derive_arkhe_component input =
     (case input of
        Inl e \<Rightarrow> CompileError e
      | Inr i \<Rightarrow>
          (case parse_arkhe_args (input_attrs i) of
             Inl e \<Rightarrow> CompileError e
           | Inr args \<Rightarrow>
               Impls [sealed_impl (input_ident i) (input_generics i),
                      ImplTrait TraitComponent (input_ident i) (input_generics i)
                        (TypeCode (arg_type_code args)) (arg_schema_version args)]))"

definition derive_arkhe_event :: "SynError + DeriveInput \<Rightarrow> TokenStream" where
  "derive_arkhe_event input =
     (case input of
        Inl e \<Rightarrow> CompileError e
      | Inr i \<Rightarrow>
          (case parse_arkhe_args (input_attrs i) of
             Inl e \<Rightarrow> CompileError e
           | Inr args \<Rightarrow>
               Impls [sealed_impl (input_ident i) (input_generics i),
                      ImplTrait TraitEvent (input_ident i) (input_generics i)
                        (TypeCode (arg_type_code args)) (arg_schema_version args)]))"

section \<open>A declarative reading of the attributes\<close>

text \<open>
  The entries of all \<open>arkhe\<close> attributes in order, each either an argument with its value or an error;
  a malformed list ends in one.
\<close>

datatype Arg = ArgTypeCode u32 | ArgSchema u32 | ArgError SynError

definition read_meta :: "Meta \<Rightarrow> Arg" where
  "read_meta meta =
     (if meta_path meta = ''type_code'' then case_sum ArgError ArgTypeCode (base10_u32 (meta_value meta))
      else if meta_path meta = ''schema_version'' then case_sum ArgError ArgSchema (base10_u32 (meta_value meta))
      else ArgError unknown_argument)"

definition read_attr :: "Attribute \<Rightarrow> Arg list" where
  "read_attr attr = map read_meta (attr_metas attr) @ (case attr_stop attr of None \<Rightarrow> [] | Some e \<Rightarrow> [ArgError e])"

definition read_attrs :: "Attribute list \<Rightarrow> Arg list" where
  "read_attrs attrs = concat (map read_attr (filter (\<lambda>a. attr_path a = ''arkhe'') attrs))"

fun arg_errors :: "Arg list \<Rightarrow> SynError list" where
  "arg_errors [] = []"
| "arg_errors (ArgError e # args) = e # arg_errors args"
| "arg_errors (_ # args) = arg_errors args"

fun type_codes :: "Arg list \<Rightarrow> u32 list" where
  "type_codes [] = []"
| "type_codes (ArgTypeCode v # args) = v # type_codes args"
| "type_codes (_ # args) = type_codes args"

fun schema_versions :: "Arg list \<Rightarrow> u32 list" where
  "schema_versions [] = []"
| "schema_versions (ArgSchema v # args) = v # schema_versions args"
| "schema_versions (_ # args) = schema_versions args"

text \<open>The state after a list of arguments without error.\<close>

definition absorb :: "Arg list \<Rightarrow> Parsed \<Rightarrow> SynError + Parsed" where
  "absorb args p =
     (case arg_errors args of
        e # _ \<Rightarrow> Inl e
      | [] \<Rightarrow> Inr (if type_codes args = [] then fst p else Some (last (type_codes args)),
                 last (snd p # schema_versions args)))"

lemma absorb_simps [simp]:
  "absorb [] p = Inr p"
  "absorb (ArgError e # args) p = Inl e"
  "absorb (ArgTypeCode v # args) p = absorb args (Some v, snd p)"
  "absorb (ArgSchema v # args) p = absorb args (fst p, v)"
  by (auto simp: absorb_def split: list.splits)

lemma parse_metas_absorb: "parse_metas (attr_metas attr) (attr_stop attr) p = absorb (read_attr attr) p"
proof -
  have "parse_metas metas stop p =
      absorb (map read_meta metas @ (case stop of None \<Rightarrow> [] | Some e \<Rightarrow> [ArgError e])) p" for metas stop
    by (induction metas arbitrary: p) (auto simp: parse_meta_def read_meta_def split: option.splits sum.splits)
  then show ?thesis by (simp add: read_attr_def)
qed

lemma absorb_append:
  "absorb (as @ bs) p = (case absorb as p of Inl e \<Rightarrow> Inl e | Inr p' \<Rightarrow> absorb bs p')"
proof (induction as arbitrary: p)
  case (Cons a as)
  then show ?case by (cases a) simp_all
qed simp

lemma parse_attrs_absorb: "parse_attrs attrs p = absorb (read_attrs attrs) p"
  by (induction attrs arbitrary: p)
    (simp_all add: read_attrs_def parse_metas_absorb absorb_append split: sum.split)

section \<open>Properties\<close>

text \<open>
  C33 (what the attributes mean). \<open>parse_arkhe_args\<close> fails with the first error in the \<open>arkhe\<close>
  attributes, in source order: an unknown argument, a value that is no 32-bit integer literal, or a
  malformed list. Without one it fails when no \<open>type_code\<close> is given, and otherwise returns the last
  \<open>type_code\<close> and the last \<open>schema_version\<close>, which is 1 when there is none. Attributes with another
  path do not matter.
\<close>

theorem derive_args_meaning:
  "parse_arkhe_args attrs =
     (let args = read_attrs attrs
      in if arg_errors args \<noteq> [] then Inl (hd (arg_errors args))
         else if type_codes args = [] then Inl missing_type_code
         else Inr \<lparr>arg_type_code = last (type_codes args), arg_schema_version = last (1 # schema_versions args)\<rparr>)"
  by (auto simp: parse_arkhe_args_def parse_attrs_absorb absorb_def Let_def split: list.splits)

text \<open>
  The three derives differ only in the trait they implement: on the same input they fail alike or
  emit the same constants.
\<close>

fun retarget :: "DeriveTrait \<Rightarrow> Impl \<Rightarrow> Impl" where
  "retarget t (ImplTrait t' name generics tc sv) = ImplTrait t name generics tc sv"
| "retarget t (ImplSealed name generics) = ImplSealed name generics"

fun retarget_stream :: "DeriveTrait \<Rightarrow> TokenStream \<Rightarrow> TokenStream" where
  "retarget_stream t (CompileError e) = CompileError e"
| "retarget_stream t (Impls is) = Impls (map (retarget t) is)"

lemma derives_agree:
  "derive_arkhe_component input = retarget_stream TraitComponent (derive_arkhe_action input)"
  "derive_arkhe_event input = retarget_stream TraitEvent (derive_arkhe_action input)"
  by (auto simp: derive_arkhe_component_def derive_arkhe_event_def derive_arkhe_action_def sealed_impl_def
      split: sum.splits)

end
