(* ===== verification/Dice.thy ===== *)
theory Dice
  imports Replay_Events Macros
begin

text \<open>
  The dice example (\<open>examples/dice/src/main.rs\<close>), a client of the kernel: a domain action that rolls
  three dice from a hash of its own fields and the tick, an observer that collects the outcomes, and
  the demonstration itself, which rolls on one kernel, replays the log into a second one and compares
  chain tips, outcomes and record counts. The theorems compose the kernel, the log and replay: the
  demonstration reports success, and the outcomes it prints are exactly the rolls.

  BLAKE3 and the postcard codecs of the two payload types are fields of \<open>DiceLib\<close>.
\<close>

section \<open>Payloads\<close>

record DiceRolled =
  rolled_nonce :: u64
  dice :: "u8 list"
  dice_sum :: u8
  rolled_target_sum :: u8
  won :: bool
  entropy_digest :: bytes

record RollAction =
  seed :: bytes
  nonce :: u64
  target_sum :: u8

record DiceLib = WalLib +
  postcard_rolled :: "DiceRolled \<Rightarrow> bytes option"
  postcard_rolled_from :: "bytes \<Rightarrow> DiceRolled option"
  postcard_roll :: "RollAction \<Rightarrow> bytes option"
  postcard_roll_from :: "bytes \<Rightarrow> RollAction option"

definition WORLD_ID :: bytes where "WORLD_ID = replicate 32 0x42"
definition MANIFEST_DIGEST :: bytes where "MANIFEST_DIGEST = replicate 32 0x9A"
definition DICE_EVENT_TC :: TypeCode where "DICE_EVENT_TC = TypeCode 8001"

text \<open>\<open>u64::to_le_bytes\<close>.\<close>

definition to_le_bytes :: "u64 \<Rightarrow> bytes" where
  "to_le_bytes n = map (\<lambda>i. ucast (drop_bit (8 * i) n)) [0..<8]"

section \<open>The action\<close>

definition roll :: "'z DiceLib_scheme \<Rightarrow> RollAction \<Rightarrow> Tick \<Rightarrow> DiceRolled" where
  "roll lib self at =
     (let bs = blake3_hash lib (seed self @ to_le_bytes (tick_val at) @ to_le_bytes (nonce self));
          d1 = bs ! 0 mod 6 + 1; d2 = bs ! 1 mod 6 + 1; d3 = bs ! 2 mod 6 + 1;
          s = d1 + d2 + d3
      in \<lparr>rolled_nonce = nonce self, dice = [d1, d2, d3], dice_sum = s, rolled_target_sum = target_sum self,
          won = (target_sum self \<le> s), entropy_digest = bs\<rparr>)"

definition RollAction_compute :: "'z DiceLib_scheme \<Rightarrow> RollAction \<Rightarrow> ActionContext \<Rightarrow> Op list outcome" where
  "RollAction_compute lib self ctx =
     (let outcome = roll lib self (ctx_now ctx)
      in obind (expect (postcard_rolled lib outcome)) (\<lambda>event_bytes.
         obind (expect (EntityId_new (of_nat (ctx_entities_len ctx) + 1))) (\<lambda>entity_id.
         Done [SpawnEntity entity_id System, EmitEvent (Some entity_id) DICE_EVENT_TC event_bytes])))"

text \<open>
  The attribute \<open>#[arkhe(type_code = 8000, schema_version = 1)]\<close>, and the type as the kernel sees it.
  The kernel's model takes \<open>compute\<close> as a total function; that this one does not panic where it is
  called is \<open>compute_returns\<close> below.
\<close>

definition RollAction_attrs :: "Attribute list" where
  "RollAction_attrs =
     [\<lparr>attr_path = ''arkhe'',
       attr_metas = [\<lparr>meta_path = ''type_code'', meta_value = LitInt 8000\<rparr>,
                     \<lparr>meta_path = ''schema_version'', meta_value = LitInt 1\<rparr>],
       attr_stop = None\<rparr>]"

definition RollAction_type :: "'z DiceLib_scheme \<Rightarrow> RollAction ActionType" where
  "RollAction_type lib =
     \<lparr>TYPE_CODE = TypeCode 8000, SCHEMA_VERSION = 1, postcard_to = postcard_roll lib,
      postcard_from = postcard_roll_from lib,
      compute = (\<lambda>self ctx. case RollAction_compute lib self ctx of Done ops \<Rightarrow> ops | Panic \<Rightarrow> [])\<rparr>"

section \<open>The observer\<close>

text \<open>
  The log is shared with the caller (\<open>Arc<Mutex<RollLog>>\<close>); it is the state of the observer here, and
  the caller reads it through the handle. The callback always returns, so the slot is never evicted.
\<close>

record RollLog =
  outcomes :: "DiceRolled list"

definition RollLog_default :: RollLog where
  "RollLog_default = \<lparr>outcomes = []\<rparr>"

fun CaptureObserver_on_event :: "'z DiceLib_scheme \<Rightarrow> RollLog \<Rightarrow> KernelEvent \<Rightarrow> RollLog option" where
  "CaptureObserver_on_event lib log (DomainEventEmitted _ _ event_type_code bs) =
     (if event_type_code = DICE_EVENT_TC then
        (case postcard_rolled_from lib bs of
           Some outcome \<Rightarrow> Some (log\<lparr>outcomes := outcomes log @ [outcome]\<rparr>)
         | None \<Rightarrow> Some log)
      else Some log)"
| "CaptureObserver_on_event lib log _ = Some log"

definition captured :: "ObserverHandle \<Rightarrow> RollLog Kernel \<Rightarrow> DiceRolled list option" where
  "captured h k = map_option (\<lambda>slot. outcomes (slot_observer slot)) (fmlookup (slots (observers k)) h)"

section \<open>The driver\<close>

definition dice_config :: InstanceConfig where
  "dice_config = InstanceConfig_default\<lparr>max_entities := 1024, max_scheduled := 1024, memory_budget_bytes := push_bit 20 1\<rparr>"

definition fresh_kernel_with_wal :: "'z DiceLib_scheme \<Rightarrow> (RollLog Kernel \<times> InstanceId \<times> ObserverHandle) outcome" where
  "fresh_kernel_with_wal lib =
     (let k = register_action (RollAction_type lib) (new_with_wal lib WORLD_ID MANIFEST_DIGEST);
          (h, k') = register_observer RollLog_default k
      in obind (create_instance dice_config k') (\<lambda>(inst, k''). Done (k'', inst, h)))"

definition fmt_outcome :: "DiceRolled \<Rightarrow> string" where
  "fmt_outcome r =
     ''  nonce='' @ pad_left 3 (dec (unat (rolled_nonce r))) @ '' dice='' @ debug_bytes (dice r) @
     '' sum='' @ pad_left 2 (dec (unat (dice_sum r))) @ '' target>='' @ pad_left 2 (dec (unat (rolled_target_sum r))) @
     '' won='' @ show_bool (won r) @ '' digest=0x'' @ hex_bytes (take 8 (entropy_digest r))"

definition fmt_chain_tip :: "bytes \<Rightarrow> string" where
  "fmt_chain_tip tip = hex_bytes (take 16 tip)"

text \<open>The body of the loop of \<open>roll_n\<close>.\<close>

definition roll_one ::
  "'z DiceLib_scheme \<Rightarrow> InstanceId \<Rightarrow> bytes \<Rightarrow> u8 \<Rightarrow> u64 \<Rightarrow> RollLog Kernel \<Rightarrow> RollLog Kernel outcome" where
  "roll_one lib inst sd target n k =
     obind (Action_canonical_bytes (RollAction_type lib) \<lparr>seed = sd, nonce = n, target_sum = target\<rparr>) (\<lambda>bs.
     obind (submit lib inst System None SYSTEM (Tick n) (TYPE_CODE (RollAction_type lib)) bs k) (\<lambda>(res, k1).
       case res of
         Inl _ \<Rightarrow> Panic
       | Inr _ \<Rightarrow> obind (step lib (CaptureObserver_on_event lib) (Tick n) SYSTEM k1) (\<lambda>(_, k2). Done k2)))"

definition roll_n ::
  "'z DiceLib_scheme \<Rightarrow> InstanceId \<Rightarrow> bytes \<Rightarrow> u64 \<Rightarrow> u8 \<Rightarrow> RollLog Kernel \<Rightarrow> RollLog Kernel outcome" where
  "roll_n lib inst sd n target k = ofold (roll_one lib inst sd target) (map of_nat [0..<unat n]) k"

text \<open>The character that closes an abbreviated digest, in UTF-8.\<close>

definition ellipsis :: string where
  "ellipsis = [CHR 0xE2, CHR 0x80, CHR 0xA6]"

text \<open>What the demonstration prints of its two phases, and its verdict.\<close>

record Demo =
  phase1_lines :: "string list"
  phase2_lines :: "string list"
  chain_match :: bool
  outcome_match :: bool
  count_match :: bool

definition run_demo ::
  "'z DiceLib_scheme \<Rightarrow> (ArkheError \<Rightarrow> string) \<Rightarrow> bytes \<Rightarrow> u64 \<Rightarrow> u8 \<Rightarrow> Demo outcome" where
  "run_demo lib dbg sd n_rolls target =
     obind (fresh_kernel_with_wal lib) (\<lambda>(k1, inst1, log1).
     obind (roll_n lib inst1 sd n_rolls target k1) (\<lambda>k1.
     obind (expect (wal_chain_tip k1)) (\<lambda>original_tip.
     obind (expect (kernel_wal_record_count k1)) (\<lambda>original_records.
     obind (expect (captured log1 k1)) (\<lambda>original_outcomes.
     obind (expect (export_wal k1)) (\<lambda>log.
     obind (fresh_kernel_with_wal lib) (\<lambda>(k2, _, replay_log).
     obind (replay_into lib (CaptureObserver_on_event lib) dbg log k2) (\<lambda>(res, k2).
       case res of
         Inl _ \<Rightarrow> Panic
       | Inr report \<Rightarrow>
           obind (expect (captured replay_log k2)) (\<lambda>replayed_outcomes.
             let replayed_tip = final_chain_tip report;
                 records_replayed = submits_replayed report + steps_replayed report
             in Done \<lparr>phase1_lines = map fmt_outcome original_outcomes @
                        [''  records='' @ dec original_records @ '' chain_tip=0x'' @ fmt_chain_tip original_tip @ ellipsis],
                      phase2_lines = map fmt_outcome replayed_outcomes @
                        [''  submits='' @ dec (unat (submits_replayed report)) @ '' steps='' @ dec (unat (steps_replayed report)) @
                         '' chain_tip=0x'' @ fmt_chain_tip replayed_tip @ ellipsis],
                      chain_match = (replayed_tip = original_tip),
                      outcome_match = (replayed_outcomes = original_outcomes),
                      count_match = (unat records_replayed = original_records)\<rparr>)))))))))"

text \<open>\<open>main\<close> runs it with fixed inputs and exits with 1 unless all three comparisons hold.\<close>

definition main_exit_code :: "'z DiceLib_scheme \<Rightarrow> (ArkheError \<Rightarrow> string) \<Rightarrow> nat outcome" where
  "main_exit_code lib dbg =
     obind (run_demo lib dbg (replicate 32 0x5A) 5 12) (\<lambda>d.
       Done (if chain_match d \<and> outcome_match d \<and> count_match d then 0 else 1))"

section \<open>Laws of the codecs\<close>

text \<open>postcard encodes both payload types and decodes what it has encoded; a face list has three entries.\<close>

definition dice_codec :: "'z DiceLib_scheme \<Rightarrow> bool" where
  "dice_codec lib \<longleftrightarrow>
     (\<forall>d. length (dice d) = 3 \<longrightarrow> (\<exists>bs. postcard_rolled lib d = Some bs \<and> postcard_rolled_from lib bs = Some d)) \<and>
     (\<forall>a. \<exists>bs. postcard_roll lib a = Some bs \<and> postcard_roll_from lib bs = Some a)"

lemma unat_of_nat_small: "n < 2 ^ 64 \<Longrightarrow> unat (of_nat n :: u64) = n"
  by (simp add: unat_of_nat)

lemma roll_faces: "length (dice (roll lib a at)) = 3"
  by (simp add: roll_def Let_def)

lemma rolled_codec:
  assumes "dice_codec lib"
  obtains bs where "postcard_rolled lib (roll lib a at) = Some bs" "postcard_rolled_from lib bs = Some (roll lib a at)"
  using assms roll_faces [of lib a at] unfolding dice_codec_def by blast

lemma roll_codec:
  assumes "dice_codec lib"
  obtains bs where "postcard_roll lib a = Some bs" "postcard_roll_from lib bs = Some a"
  using assms unfolding dice_codec_def by blast

text \<open>\<open>compute\<close> does not panic on an instance with room for another id.\<close>

lemma compute_returns:
  assumes "dice_codec lib" and "ctx_entities_len ctx < 2 ^ 64 - 1"
  shows "\<exists>bs. RollAction_compute lib a ctx =
     Done [SpawnEntity (EntityId (of_nat (ctx_entities_len ctx) + 1)) System,
           EmitEvent (Some (EntityId (of_nat (ctx_entities_len ctx) + 1))) DICE_EVENT_TC bs] \<and>
     postcard_rolled_from lib bs = Some (roll lib a (ctx_now ctx))"
proof -
  obtain bs where bs: "postcard_rolled lib (roll lib a (ctx_now ctx)) = Some bs"
      "postcard_rolled_from lib bs = Some (roll lib a (ctx_now ctx))" by (rule rolled_codec [OF assms(1)])
  have "of_nat (ctx_entities_len ctx) + (1 :: u64) = of_nat (Suc (ctx_entities_len ctx))" by simp
  moreover have "(of_nat (Suc (ctx_entities_len ctx)) :: u64) \<noteq> 0"
  proof -
    have "unat (of_nat (Suc (ctx_entities_len ctx)) :: u64) = Suc (ctx_entities_len ctx)"
      by (rule unat_of_nat_small) (use assms(2) in simp)
    then show ?thesis by (metis nat.distinct(1) unsigned_0)
  qed
  ultimately show ?thesis using bs by (simp add: RollAction_compute_def EntityId_new_def Let_def del: of_nat_Suc)
qed

section \<open>One roll\<close>

text \<open>
  The instance after \<open>i\<close> rolls: nothing is scheduled, no component bytes are charged, and the entities
  are numbered from 1 to the quota at most.
\<close>

definition after_rolls :: "nat \<Rightarrow> Instance \<Rightarrow> bool" where
  "after_rolls i inst \<longleftrightarrow> inst_config inst = dice_config \<and> ready (inst_scheduler inst) = fmempty \<and>
     total_bytes (inst_ledger inst) = 0 \<and>
     fset (fmdom (inst_entities inst)) = (\<lambda>j. EntityId (of_nat j)) ` {1..min i 1024}"

lemma after_rolls_len:
  assumes "after_rolls i inst"
  shows "entities_len inst = min i 1024"
proof -
  have "inj_on (\<lambda>j. EntityId (of_nat j)) {1..min i 1024}"
  proof (rule inj_on_inverseI [where g = "\<lambda>e. unat (entity_id_get e)"])
    fix j assume "j \<in> {1..min i 1024}"
    then show "unat (entity_id_get (EntityId (of_nat j))) = j" by (simp add: unat_of_nat_small)
  qed
  then show ?thesis
    using assms by (simp add: after_rolls_def entities_len_def bt_len_def fcard.rep_eq card_image)
qed

text \<open>The gate loop on the two intents of a roll: the spawn is refused once the quota is reached.\<close>

definition roll_gate :: "InstanceId \<Rightarrow> Instance \<Rightarrow> Tick \<Rightarrow> EntityId \<Rightarrow> bytes \<Rightarrow> GateState" where
  "roll_gate iid inst now eid bs =
     (if entities_len inst < 1024 then
       \<lparr>g_stage = StepStage_default
          \<lparr>state_ops := [StagedSpawnEntity eid \<lparr>meta_owner = System, meta_created = now\<rparr>], ledger_delta := [LedgerAddEntity eid],
           id_counters := IdCountersDelta_default\<lparr>next_entity_advance := 1\<rparr>,
           stage_events := [DomainEventEmitted iid (Some eid) DICE_EVENT_TC bs]\<rparr>,
        g_next_id = next_scheduled (inst_counters inst), g_any_denied = False, g_applied = 2, g_denied = 0\<rparr>
      else
       \<lparr>g_stage = StepStage_default
          \<lparr>stage_events := [EffectFailed iid (bytes_of_string ''entity_quota_exceeded''),
                           DomainEventEmitted iid (Some eid) DICE_EVENT_TC bs]\<rparr>,
        g_next_id = next_scheduled (inst_counters inst), g_any_denied = False, g_applied = 1, g_denied = 1\<rparr>)"

lemma roll_gates:
  assumes "inst_config inst = dice_config" and "total_bytes (inst_ledger inst) = 0" and "entities_len inst \<le> 1024"
  shows "run_gates iid inst System eff now [SpawnEntity eid System, EmitEvent (Some eid) DICE_EVENT_TC bs] scratch =
     Done (roll_gate iid inst now eid bs)"
proof -
  have len: "(1024 :: u64) \<le> of_nat (entities_len inst) \<longleftrightarrow> 1024 \<le> entities_len inst"
    using assms(3) by (simp add: word_le_nat_alt unat_of_nat_small)
  have sat: "saturating_add (1 :: u32) 1 = 2" "saturating_add (0 :: u64) 1 = 1" "saturating_add (0 :: u32) 1 = 1"
    by (simp_all add: saturating_add_def)
  show ?thesis
    using assms(1,2) len
    by (simp add: run_gates_def roll_gate_def gate_op_def authorize_eq over_budget_def over_entities_def over_scheduled_def Let_def
        projected_component_bytes_def StepStage_default_def IdCountersDelta_default_def dice_config_def InstanceConfig_default_def
        dispatch_def deny_def sat not_less not_le)
qed

text \<open>What an outcome event says to the observer.\<close>

fun heard1 :: "'z DiceLib_scheme \<Rightarrow> KernelEvent \<Rightarrow> DiceRolled list" where
  "heard1 lib (DomainEventEmitted _ _ tc bs) =
     (if tc = DICE_EVENT_TC then (case postcard_rolled_from lib bs of Some r \<Rightarrow> [r] | None \<Rightarrow> []) else [])"
| "heard1 lib _ = []"

definition heard :: "'z DiceLib_scheme \<Rightarrow> KernelEvent list \<Rightarrow> DiceRolled list" where
  "heard lib evs = concat (map (heard1 lib) evs)"

lemma roll_finish:
  assumes "after_rolls i inst" and "postcard_rolled_from lib bs = Some r"
  defines "eid \<equiv> EntityId (of_nat (entities_len inst) + 1)"
  shows "\<exists>c inst' s. finish_step lib True entry inst (roll_gate iid inst now eid bs) = Done (Some c, inst', s) \<and>
     after_rolls (Suc i) inst' \<and> core_signals c = [] \<and> executed (core_verdict c) \<and> heard lib (core_events c) = [r]"
proof (cases "i < 1024")
  case True
  note len = after_rolls_len [OF assms(1)]
  have "{1..min (Suc i) 1024} = insert (Suc i) {1..min i 1024}" using True by auto
  moreover have "eid = EntityId (of_nat (Suc i))" using True len by (simp add: eid_def add.commute)
  ultimately show ?thesis using assms(1,2) True len
    by (auto simp: finish_step_def roll_gate_def apply_stage_def Let_def StepStage_default_def after_rolls_def heard_def
        insert_entity_def add_entity_def advance_local_tick_def advance_wall_remainder_def)
next
  case False
  have "{1..min (Suc i) 1024} = {1..min i 1024}" using False by auto
  then show ?thesis using assms(1,2) False after_rolls_len [OF assms(1)]
    by (auto simp: finish_step_def roll_gate_def apply_stage_def Let_def StepStage_default_def after_rolls_def heard_def
        advance_local_tick_def advance_wall_remainder_def)
qed

definition dice_registry :: "'z DiceLib_scheme \<Rightarrow> ActionRegistry" where
  "dice_registry lib = register_type (RollAction_type lib) ActionRegistry_new"

lemma dice_registered:
  "registry_get (TypeCode 8000) (dice_registry lib) =
     Some \<lparr>schema_version = 1,
           deserializer = (\<lambda>version bs. map_sum (\<lambda>e. e) (to_dyn (RollAction_type lib)) (Action_from_bytes (RollAction_type lib) version bs))\<rparr>"
  using registered_lookup(1) [of "RollAction_type lib" ActionRegistry_new] by (simp add: dice_registry_def RollAction_type_def)

text \<open>The instance with one roll submitted, popped and executed.\<close>

lemma roll_pop:
  fixes sid at n
  assumes "dice_codec lib" and "after_rolls i inst" and "postcard_roll_from lib bs = Some a"
  defines "inst0 \<equiv> admit sid System None SYSTEM at (TypeCode 8000) bs n inst"
  shows "\<exists>c inst'. pure_core lib (dice_registry lib) at SYSTEM True iid inst0 = (Some c, inst') \<and>
     after_rolls (Suc i) inst' \<and> core_signals c = [] \<and> executed (core_verdict c) \<and> heard lib (core_events c) = [roll lib a at]"
proof -
  define sched where "sched = (inst_scheduler inst0)\<lparr>ready := fmempty, by_id := fmdrop sid (by_id (inst_scheduler inst0))\<rparr>"
  define entry where "entry = \<lparr>entry_id = sid, entry_at = at, entry_actor = None, entry_principal = System,
    action_type_code = TypeCode 8000, action_bytes = bs, caps_ceiling = SYSTEM\<rparr>"
  define inst1 where "inst1 = inst0\<lparr>inst_scheduler := sched\<rparr>"
  have pop: "pop_due at (inst_scheduler inst0) = Done (Some entry, sched)"
    using assms(2) by (simp add: inst0_def after_rolls_def pop_due_eq admit_def schedule_with_id_def Let_def sched_def entry_def
        index_insert_def index_remove_def)
  have inst1: "after_rolls i inst1"
    using assms(2) by (simp add: after_rolls_def inst1_def inst0_def admit_def sched_def)
  then have cfg: "inst_config inst1 = dice_config" "total_bytes (inst_ledger inst1) = 0" "entities_len inst1 \<le> 1024"
    by (simp_all add: after_rolls_def after_rolls_len)
  let ?ctx = "ActionContext_new None at iid inst1"
  define eid where "eid = EntityId (of_nat (entities_len inst1) + 1)"
  have "ctx_entities_len ?ctx < 2 ^ 64 - 1" using cfg(3) by (simp add: ctx_entities_len_def ActionContext_new_def)
  from compute_returns [OF assms(1) this, of a] obtain ebs where
    ebs: "RollAction_compute lib a ?ctx = Done [SpawnEntity eid System, EmitEvent (Some eid) DICE_EVENT_TC ebs]"
      "postcard_rolled_from lib ebs = Some (roll lib a at)"
    by (auto simp: ctx_entities_len_def ActionContext_new_def eid_def)
  have "step_one_core lib iid inst0 (dice_registry lib) StepStage_default at SYSTEM True =
      finish_step lib True entry inst1 (roll_gate iid inst1 at eid ebs)"
    using pop dice_registered [of lib] assms(3) ebs(1) roll_gates [OF cfg, of iid _ at eid ebs StepStage_default]
    by (simp add: step_one_core_def inst1_def [symmetric] Let_def entry_def Action_from_bytes_def RollAction_type_def to_dyn_def)
  then show ?thesis using roll_finish [OF inst1 ebs(2), of entry iid at] by (auto simp: pure_core_def eid_def)
qed

section \<open>The observer hears every roll\<close>

lemma on_event_eq: "CaptureObserver_on_event lib log ev = Some (log\<lparr>outcomes := outcomes log @ heard1 lib ev\<rparr>)"
  by (cases ev) (simp_all split: option.split)

text \<open>The registry of a dice kernel: one observer under handle 0.\<close>

definition listening :: "RollLog \<Rightarrow> RollLog ObserverRegistry" where
  "listening log = \<lparr>slots = fmupd (ObserverHandle 0) \<lparr>slot_observer = log, slot_mask = EventMask_ALL\<rparr> fmempty,
     evicted = {||}, next_handle = 1\<rparr>"

lemma deliver_listening:
  "snd (deliver (CaptureObserver_on_event lib) ev (listening log)) =
     listening (log\<lparr>outcomes := outcomes log @ heard1 lib ev\<rparr>)"
  using event_mask_partition [of ev ev ev 0 0]
  by (simp add: deliver_def deliver_one_def listening_def on_event_eq)

lemma deliver_all_listening:
  "deliver_all (CaptureObserver_on_event lib) evs (listening log) =
     listening (log\<lparr>outcomes := outcomes log @ heard lib evs\<rparr>)"
  by (induction evs arbitrary: log) (simp_all add: heard_def deliver_listening)

section \<open>The whole run\<close>

definition dice_kernel :: "'z DiceLib_scheme \<Rightarrow> nat \<Rightarrow> DiceRolled list \<Rightarrow> RollLog Kernel \<Rightarrow> bool" where
  "dice_kernel lib i rs k \<longleftrightarrow>
     (\<exists>inst w. instances k = fmupd (InstanceId 1) inst fmempty \<and> after_rolls i inst \<and>
        action_registry k = dice_registry lib \<and> observers k = listening \<lparr>outcomes = rs\<rparr> \<and>
        wal k = Some w \<and> record_count w = 2 * i)"

definition roll_inputs :: "'z DiceLib_scheme \<Rightarrow> bytes \<Rightarrow> u8 \<Rightarrow> u64 \<Rightarrow> KernelInput list" where
  "roll_inputs lib sd target n =
     [InSubmit (InstanceId 1) System None SYSTEM (Tick n) (TypeCode 8000)
        (the (postcard_roll lib \<lparr>seed = sd, nonce = n, target_sum = target\<rparr>)),
      InStep (Tick n) SYSTEM]"

lemma fmupd_twice: "fmupd k v (fmupd k u m) = fmupd k v m"
  by (rule fmap_ext) simp

lemma roll_one_ok:
  fixes sd n target
  assumes "dice_codec lib" and "encodes_all lib" and "dice_kernel lib i rs k"
  defines "a \<equiv> \<lparr>seed = sd, nonce = n, target_sum = target\<rparr>"
  shows "\<exists>k'. roll_one lib (InstanceId 1) sd target n k = Done k' \<and>
     live_run lib (CaptureObserver_on_event lib) (roll_inputs lib sd target n) k = Done k' \<and>
     dice_kernel lib (Suc i) (rs @ [roll lib a (Tick n)]) k'"
proof -
  let ?oe = "CaptureObserver_on_event lib" and ?i = "InstanceId 1"
  obtain inst w where k: "instances k = fmupd ?i inst fmempty" "after_rolls i inst" "action_registry k = dice_registry lib"
      "observers k = listening \<lparr>outcomes = rs\<rparr>" "wal k = Some w" "record_count w = 2 * i"
    using assms(3) unfolding dice_kernel_def by blast
  obtain bs where bs: "postcard_roll lib a = Some bs" "postcard_roll_from lib bs = Some a" by (rule roll_codec [OF assms(1)])
  have room: "sched_len (inst_scheduler inst) = 0" "max_scheduled (inst_config inst) = 1024"
    using k(2) by (simp_all add: after_rolls_def sched_len_def dice_config_def)
  define m where "m = saturating_add (next_scheduled (inst_counters inst)) 1"
  define inst0 where "inst0 = admit (ScheduledActionId m) System None SYSTEM (Tick n) (TypeCode 8000) bs m inst"
  define w1 where "w1 = snd (append_submit lib ?i System None SYSTEM (Tick n) (TypeCode 8000) bs (ScheduledActionId m) w)"
  define k1 where "k1 = k\<lparr>instances := fmupd ?i inst0 fmempty, wal := Some w1\<rparr>"
  have sub: "submit lib ?i System None SYSTEM (Tick n) (TypeCode 8000) bs k = Done (Inr (ScheduledActionId m), k1)"
    using k(1,5) room by (simp add: submit_def Let_def m_def inst0_def w1_def k1_def fmupd_twice)
  have w1: "record_count w1 = 2 * i + 1"
    using append_submit_total [OF assms(2), of ?i System None SYSTEM "Tick n" "TypeCode 8000" bs "ScheduledActionId m" w] k(6)
    by (auto simp: w1_def record_count_def contents_def dest!: arg_cong [of _ _ length])
  from roll_pop [OF assms(1) k(2) bs(2), where sid = "ScheduledActionId m" and at = "Tick n" and n = m and iid = ?i] obtain c inst' where
    c: "pure_core lib (dice_registry lib) (Tick n) SYSTEM True ?i inst0 = (Some c, inst')" "after_rolls (Suc i) inst'"
      "core_signals c = []" "executed (core_verdict c)" "heard lib (core_events c) = [roll lib a (Tick n)]"
    unfolding inst0_def by blast
  have pure: "pure_step lib (dice_registry lib) (Tick n) SYSTEM True [?i] (fmupd ?i inst0 fmempty) = ([(?i, c)], fmupd ?i inst' fmempty)"
    using c(1,3) by (simp add: pure_process_def fmupd_twice)
  obtain rep k2 where st: "step lib ?oe (Tick n) SYSTEM k1 = Done (rep, k2)" "instances k2 = fmupd ?i inst' fmempty"
      "action_registry k2 = dice_registry lib" "wal k2 = Some (log_core lib (Tick n) SYSTEM (?i, c) w1)"
    using step_refines [of lib ?oe "Tick n" SYSTEM k1] pure k(3) by (auto simp: k1_def rest_of_def)
  have "observers k2 = deliver_all ?oe (step_emits lib (dice_registry lib) (Tick n) SYSTEM True [?i] (fmupd ?i inst0 fmempty)) (observers k1)"
    using step_loop_observers [of lib ?oe "Tick n" SYSTEM True "[?i]" StepReport_default k1 rep k2] st(1) k(3)
    by (simp add: step_def k1_def)
  also have "\<dots> = listening \<lparr>outcomes = rs @ [roll lib a (Tick n)]\<rparr>"
    using c k(4) by (simp add: pop_emits_def k1_def deliver_all_listening deliver_listening)
  finally have obs: "observers k2 = listening \<lparr>outcomes = rs @ [roll lib a (Tick n)]\<rparr>" .
  have "record_count (log_core lib (Tick n) SYSTEM (?i, c) w1) = 2 * Suc i"
    using log_cores_contents [OF assms(2), of "Tick n" SYSTEM "[(?i, c)]" w1] w1
    by (auto simp: record_count_def contents_def Let_def dest!: arg_cong [of _ _ length])
  with st(2-4) obs c(2) have "dice_kernel lib (Suc i) (rs @ [roll lib a (Tick n)]) k2"
    unfolding dice_kernel_def by blast
  moreover have "roll_one lib ?i sd target n k = Done k2"
    using bs(1) sub st(1) by (simp add: roll_one_def a_def Action_canonical_bytes_def RollAction_type_def)
  moreover have "live_run lib ?oe (roll_inputs lib sd target n) k = Done k2"
    using bs(1) sub st(1) by (simp add: live_run_def roll_inputs_def a_def)
  ultimately show ?thesis by blast
qed

definition expected_rolls :: "'z DiceLib_scheme \<Rightarrow> bytes \<Rightarrow> u8 \<Rightarrow> nat \<Rightarrow> DiceRolled list" where
  "expected_rolls lib sd target m =
     map (\<lambda>i. roll lib \<lparr>seed = sd, nonce = of_nat i, target_sum = target\<rparr> (Tick (of_nat i))) [0..<m]"

definition all_inputs :: "'z DiceLib_scheme \<Rightarrow> bytes \<Rightarrow> u8 \<Rightarrow> nat \<Rightarrow> KernelInput list" where
  "all_inputs lib sd target m = concat (map (\<lambda>i. roll_inputs lib sd target (of_nat i)) [0..<m])"

lemma rolls_ok:
  assumes "dice_codec lib" and "encodes_all lib" and "dice_kernel lib 0 [] k"
  shows "\<exists>k'. ofold (roll_one lib (InstanceId 1) sd target) (map of_nat [0..<m]) k = Done k' \<and>
     live_run lib (CaptureObserver_on_event lib) (all_inputs lib sd target m) k = Done k' \<and>
     dice_kernel lib m (expected_rolls lib sd target m) k'"
proof (induction m)
  case 0
  then show ?case using assms(3) by (simp add: all_inputs_def expected_rolls_def live_run_def)
next
  case (Suc m)
  then obtain k1 where k1: "ofold (roll_one lib (InstanceId 1) sd target) (map of_nat [0..<m]) k = Done k1"
      "live_run lib (CaptureObserver_on_event lib) (all_inputs lib sd target m) k = Done k1"
      "dice_kernel lib m (expected_rolls lib sd target m) k1" by blast
  from roll_one_ok [OF assms(1,2) k1(3), of sd target "of_nat m"] k1(1,2) show ?case
    by (auto simp: ofold_append live_run_def all_inputs_def expected_rolls_def)
qed

lemma fresh_dice:
  obtains k where "fresh_kernel_with_wal lib = Done (k, InstanceId 1, ObserverHandle 0)" "dice_kernel lib 0 [] k"
    "wal k = Some (with_signature lib WORLD_ID MANIFEST_DIGEST SigNone)" "kernel_manifest_digest k = MANIFEST_DIGEST"
proof -
  have one: "saturating_add (0 :: u64) 1 = 1" by (simp add: saturating_add_def)
  have "after_rolls 0 (Instance_new (InstanceId 1) dice_config)"
    by (simp add: after_rolls_def Instance_new_def Scheduler_new_def ledger_new_def)
  with that show thesis
    by (auto simp: fresh_kernel_with_wal_def new_with_wal_def register_action_def register_observer_def register_def register_filtered_def
        create_instance_eq ObserverRegistry_new_def Let_def one dice_kernel_def dice_registry_def listening_def RollLog_default_def
        WalWriter_new_def record_count_def with_signature_def)
qed

lemma dice_captured: "dice_kernel lib i rs k \<Longrightarrow> captured (ObserverHandle 0) k = Some rs"
  by (auto simp: dice_kernel_def captured_def listening_def)

section \<open>Properties\<close>

text \<open>
  C13 (the demonstration succeeds). For any seed, target and number of rolls below \<open>2 ^ 31\<close>, the
  demonstration does not panic: every submit is accepted, the log replays into the second kernel, and
  chain tips, outcomes and record counts agree. Both phases print, line by line, the rolls computed
  from the seed at ticks 0, 1, 2, \<dots>, one per roll also when the entity quota of 1024 is used up.
\<close>

theorem dice_demo_succeeds:
  assumes "dice_codec lib" and "encodes_all lib" and "ed25519_laws lib" and "mldsa_laws lib" and "2 * unat n < 2 ^ 32"
  shows "\<exists>d. run_demo lib dbg sd n target = Done d \<and> chain_match d \<and> outcome_match d \<and> count_match d \<and>
     butlast (phase1_lines d) = map fmt_outcome (expected_rolls lib sd target (unat n)) \<and>
     butlast (phase2_lines d) = map fmt_outcome (expected_rolls lib sd target (unat n))"
proof -
  obtain k where k: "fresh_kernel_with_wal lib = Done (k, InstanceId 1, ObserverHandle 0)" "dice_kernel lib 0 [] k"
    "wal k = Some (with_signature lib WORLD_ID MANIFEST_DIGEST SigNone)" "kernel_manifest_digest k = MANIFEST_DIGEST"
    by (rule fresh_dice)
  obtain k1 where k1: "roll_n lib (InstanceId 1) sd n target k = Done k1"
      "live_run lib (CaptureObserver_on_event lib) (all_inputs lib sd target (unat n)) k = Done k1"
      "dice_kernel lib (unat n) (expected_rolls lib sd target (unat n)) k1"
    using rolls_ok [OF assms(1,2) k(2), of sd target "unat n"] unfolding roll_n_def by blast
  have keys: "class_keys_match lib SigNone" by simp
  obtain k1' w rep kr where r: "live_run lib (CaptureObserver_on_event lib) (all_inputs lib sd target (unat n)) k = Done k1'"
      "wal k1' = Some w" "replay_into lib (CaptureObserver_on_event lib) dbg (from_writer w) k = Done (Inr rep, kr)"
      "instances kr = instances k1'" "final_chain_tip rep = writer_chain_tip w"
      "observers k1' = deliver_all (CaptureObserver_on_event lib)
         (run_trace lib (action_registry k) (all_inputs lib sd target (unat n)) (instances k)) (observers k)"
      "observers kr = deliver_all (CaptureObserver_on_event lib)
         (run_trace lib (action_registry k) (all_inputs lib sd target (unat n)) (instances k)) (observers k)"
      "record_count w < 2 ^ 32 \<longrightarrow> replayed rep = record_count w"
    by (rule run_and_replay [OF k(3) refl refl k(4) assms(2) keys assms(3,4), where oe = "CaptureObserver_on_event lib"
          and oe' = "CaptureObserver_on_event lib" and dbg = dbg and inputs = "all_inputs lib sd target (unat n)"])
  then have w: "wal k1 = Some w" "replay_into lib (CaptureObserver_on_event lib) dbg (from_writer w) k = Done (Inr rep, kr)"
      "final_chain_tip rep = writer_chain_tip w" "observers kr = observers k1" "record_count w < 2 ^ 32 \<longrightarrow> replayed rep = record_count w"
    using k1(2) by simp_all
  have "record_count w = 2 * unat n" using k1(3) w(1) by (auto simp: dice_kernel_def)
  with w(5) assms(5) have rep: "replayed rep = record_count w" "record_count w < 2 ^ 32" by simp_all
  then have "unat (submits_replayed rep + steps_replayed rep) = record_count w" by (simp add: replayed_def unat_word_ariths)
  moreover have cap: "captured (ObserverHandle 0) k1 = Some (expected_rolls lib sd target (unat n))"
    "captured (ObserverHandle 0) kr = Some (expected_rolls lib sd target (unat n))"
    using dice_captured [OF k1(3)] w(4) by (simp_all add: captured_def)
  ultimately show ?thesis
    using k(1) k1(1) w(1-3) by (simp add: run_demo_def wal_chain_tip_def kernel_wal_record_count_def export_wal_def Let_def)
qed

text \<open>
  A roll is a roll: three faces from 1 to 6, whatever the digest; the 8-bit sum does not wrap, so
  it is the sum of the faces, between 3 and 18; and the roll is won exactly when it reaches the target.
\<close>

theorem roll_bounds:
  "let r = roll lib a at
   in length (dice r) = 3 \<and> list_all (\<lambda>d. 1 \<le> d \<and> d \<le> 6) (dice r) \<and>
      unat (dice_sum r) = sum_list (map unat (dice r)) \<and> 3 \<le> dice_sum r \<and> dice_sum r \<le> 18 \<and>
      (won r \<longleftrightarrow> target_sum a \<le> dice_sum r) \<and> rolled_nonce r = nonce a"
proof -
  have f: "unat (b mod 6 + 1) = unat b mod 6 + 1" "unat b mod 6 + 1 \<le> 6" for b :: u8
  proof -
    have "unat (b mod 6) = unat b mod 6" by (simp add: unat_mod)
    moreover show m: "unat b mod 6 + 1 \<le> 6" by (simp add: Suc_le_eq)
    ultimately show "unat (b mod 6 + 1) = unat b mod 6 + 1" by (simp add: unat_word_ariths)
  qed
  define bs where "bs = blake3_hash lib (seed a @ to_le_bytes (tick_val at) @ to_le_bytes (nonce a))"
  have "unat (bs ! 0) mod 6 + 1 \<le> 6" "unat (bs ! 1) mod 6 + 1 \<le> 6" "unat (bs ! 2) mod 6 + 1 \<le> 6" by (rule f(2))+
  then show ?thesis
    by (simp add: roll_def bs_def [symmetric] Let_def word_le_nat_alt unat_word_ariths f(1) add.assoc add.left_commute)
qed

text \<open>
  A concrete codec: fixed-width fields first, the byte string last.
\<close>

definition from_le_bytes :: "bytes \<Rightarrow> u64" where
  "from_le_bytes bs = foldr (\<lambda>b acc. ucast b OR push_bit 8 acc) bs 0"

lemma le_bytes_from:
  "from_le_bytes (map (\<lambda>i. ucast (drop_bit (8 * i) n)) [j..<j + m]) = take_bit (8 * m) (drop_bit (8 * j) n)"
proof (induction m arbitrary: j)
  case (Suc m)
  have "[j..<j + Suc m] = j # [Suc j..<Suc j + m]" by (simp add: upt_conv_Cons)
  then have "from_le_bytes (map (\<lambda>i. ucast (drop_bit (8 * i) n)) [j..<j + Suc m]) =
      ucast (ucast (drop_bit (8 * j) n) :: u8) OR push_bit 8 (take_bit (8 * m) (drop_bit (8 * Suc j) n))"
    using Suc.IH [of "Suc j"] by (simp add: from_le_bytes_def)
  also have "\<dots> = take_bit (8 * Suc m) (drop_bit (8 * j) n)"
  proof (rule bit_word_eqI)
    fix i
    have "8 \<le> i \<Longrightarrow> 8 * Suc j + (i - 8) = 8 * j + i" by simp
    then show "bit (ucast (ucast (drop_bit (8 * j) n) :: u8) OR push_bit 8 (take_bit (8 * m) (drop_bit (8 * Suc j) n)) :: u64) i =
        bit (take_bit (8 * Suc m) (drop_bit (8 * j) n)) i" if "i < LENGTH(64)"
      using that by (cases "i < 8") (auto simp: bit_simps)
  qed
  finally show ?case .
qed (simp add: from_le_bytes_def)

lemma le_bytes_roundtrip: "from_le_bytes (to_le_bytes n) = n"
  using le_bytes_from [of n 0 8] by (simp add: to_le_bytes_def take_bit_word_eq_self)

definition sample_dice_lib :: DiceLib where
  "sample_dice_lib = WalLib.extend sample_lib
     \<lparr>postcard_rolled = (\<lambda>d. Some (to_le_bytes (rolled_nonce d) @ [dice_sum d, rolled_target_sum d, of_bool (won d)] @ dice d @ entropy_digest d)),
      postcard_rolled_from = (\<lambda>bs. Some \<lparr>rolled_nonce = from_le_bytes (take 8 bs), dice = take 3 (drop 11 bs), dice_sum = bs ! 8,
         rolled_target_sum = bs ! 9, won = (bs ! 10 = 1), entropy_digest = drop 14 bs\<rparr>),
      postcard_roll = (\<lambda>a. Some (to_le_bytes (nonce a) @ target_sum a # seed a)),
      postcard_roll_from = (\<lambda>bs. Some \<lparr>seed = drop 9 bs, nonce = from_le_bytes (take 8 bs), target_sum = bs ! 8\<rparr>)\<rparr>"

lemma length_le_bytes [simp]: "length (to_le_bytes n) = 8"
  by (simp add: to_le_bytes_def)

lemma sample_dice_laws: "dice_codec sample_dice_lib" "encodes_all sample_dice_lib" "ed25519_laws sample_dice_lib" "mldsa_laws sample_dice_lib"
proof -
  show "dice_codec sample_dice_lib"
    by (auto simp: dice_codec_def sample_dice_lib_def WalLib.defs le_bytes_roundtrip nth_append)
  show "encodes_all sample_dice_lib"
    by (simp add: encodes_all_def sample_dice_lib_def WalLib.defs sample_lib_def)
  show "ed25519_laws sample_dice_lib" "mldsa_laws sample_dice_lib"
    by (simp_all add: ed25519_laws_def mldsa_laws_def sample_dice_lib_def WalLib.defs sample_lib_def)
qed

theorem dice_demo_succeeds_witness: "main_exit_code sample_dice_lib (\<lambda>e. []) = Done 0"
proof -
  have "2 * unat (5 :: u64) < 2 ^ 32" by simp
  from dice_demo_succeeds [OF sample_dice_laws this, of "\<lambda>e. []" "replicate 32 0x5A" 12] show ?thesis
    by (auto simp: main_exit_code_def)
qed

end
