(* ===== verification/Conformance_State.thy ===== *)
theory Conformance_State
  imports Display
begin

text \<open>
  The unit tests of \<open>abi\<close> and \<open>state\<close>, run on the model. Every test with a run-time assertion is a
  definition, named after the test and stating its assertions over the model's operations in the order
  the test performs them; the lemma of each suite proves that they hold. Where a test calls an
  operation that can panic, the test is an \<open>outcome\<close> and passes as \<open>Done True\<close>. Tests that only make the
  compiler check a trait bound or the construction of a value have no counterpart.
\<close>

section \<open>Evaluating finite maps\<close>

named_theorems eval_simps \<open>rules that evaluate the model on concrete values\<close>

lemma sorted_list_of_fmap_upd [eval_simps]:
  "sorted_list_of_fmap (fmupd k v m) = insort_key fst (k, v) (sorted_list_of_fmap (fmdrop k m))"
proof (rule sym, rule map_sorted_distinct_set_unique [where f = fst])
  have s: "sorted (map fst (sorted_list_of_fmap m'))" "distinct (map fst (sorted_list_of_fmap m'))" for m' :: "('a, 'b) fmap"
    using sorted_bt_keys [of m'] by (simp_all add: bt_keys_def)
  show "inj_on fst (set (insort_key fst (k, v) (sorted_list_of_fmap (fmdrop k m))) \<union> set (sorted_list_of_fmap (fmupd k v m)))"
    by (auto simp: inj_on_def set_insort_key set_sorted_list_of_fmap split: if_splits)
  show "sorted (map fst (insort_key fst (k, v) (sorted_list_of_fmap (fmdrop k m))))" using s by (simp add: sorted_insort_key)
  show "sorted (map fst (sorted_list_of_fmap (fmupd k v m)))" "distinct (map fst (sorted_list_of_fmap (fmupd k v m)))" by (rule s)+
  have "k \<notin> fst ` set (sorted_list_of_fmap (fmdrop k m))" by (auto simp: set_sorted_list_of_fmap)
  then show "distinct (map fst (insort_key fst (k, v) (sorted_list_of_fmap (fmdrop k m))))"
    using s(2) [of "fmdrop k m"] by (simp add: distinct_insort_key)
  show "set (insort_key fst (k, v) (sorted_list_of_fmap (fmdrop k m))) = set (sorted_list_of_fmap (fmupd k v m))"
    by (auto simp: set_insort_key set_sorted_list_of_fmap split: if_splits)
qed

lemma sorted_list_of_fset_insert [eval_simps]:
  "sorted_list_of_fset (finsert x A) = insort x (sorted_list_of_fset (A |-| {|x|}))"
  by (simp add: sorted_list_of_fset.rep_eq)

lemma sorted_list_of_fset_empty [eval_simps]: "sorted_list_of_fset {||} = []"
  by (simp add: sorted_list_of_fset.rep_eq)

lemmas [eval_simps] = fmdrop_fmupd fcard_finsert_if fcard_fempty less_eq_EntityId_def less_EntityId_def less_eq_TypeCode_def less_TypeCode_def
  less_eq_InstanceId_def less_InstanceId_def less_eq_Tick_def less_Tick_def less_eq_RouteId_def less_RouteId_def
  less_eq_ScheduledActionId_def less_ScheduledActionId_def less_eq_SchedKey_def less_SchedKey_def key_tuple_def
  less_eq_ObserverHandle_def less_ObserverHandle_def
  Let_def saturating_add_def saturating_sub_def bt_keys_def bt_values_def bt_first_def bt_len_def bt_range_def u32_try_from_def

lemma digit_literals [eval_simps]:
  "digit 0 = CHR ''0''" "digit 1 = CHR ''1''" "digit (Suc 0) = CHR ''1''" "digit 2 = CHR ''2''" "digit 3 = CHR ''3''" "digit 4 = CHR ''4''"
  "digit (Suc (Suc (Suc 0))) = CHR ''3''" "digit 5 = CHR ''5''" "digit 6 = CHR ''6''" "digit 7 = CHR ''7''" "digit 8 = CHR ''8''" "digit 9 = CHR ''9''"
  by (simp_all add: digit_def char_of_def bit_iff_odd)

lemma ucast_max [eval_simps]: "(ucast (- 1 :: u64) :: u128) = 18446744073709551615"
  by (simp add: word_unat_eq_iff unsigned_ucast_eq unat_max_word take_bit_eq_mod)

text \<open>\<open>str::contains\<close>.\<close>

definition str_contains :: "string \<Rightarrow> string \<Rightarrow> bool" where
  "str_contains s t = sublist t s"

section \<open>\<open>abi\<close>\<close>

definition test_instance_id_zero_is_unrepresentable :: bool where
  "test_instance_id_zero_is_unrepresentable \<longleftrightarrow> InstanceId_new 0 = None"

definition test_instance_id_nonzero_roundtrip :: "bool outcome" where
  "test_instance_id_nonzero_roundtrip = obind (expect (InstanceId_new 42)) (\<lambda>i. Done (instance_id_get i = 42))"

definition test_entity_id_zero_is_unrepresentable :: bool where
  "test_entity_id_zero_is_unrepresentable \<longleftrightarrow> EntityId_new 0 = None"

definition test_entity_id_nonzero_roundtrip :: "bool outcome" where
  "test_entity_id_nonzero_roundtrip = obind (expect (EntityId_new (- 1))) (\<lambda>i. Done (entity_id_get i = - 1))"

definition test_tick_advance_saturates_without_wrapping :: bool where
  "test_tick_advance_saturates_without_wrapping \<longleftrightarrow>
     tick_val (tick_advance (Tick 0) 100) = 100 \<and> tick_val (tick_advance (Tick (- 1)) 1) = - 1 \<and>
     tick_val (tick_advance (Tick (- 1 - 5)) 10) = - 1"

definition test_type_code_and_route_id_are_totally_ordered :: bool where
  "test_type_code_and_route_id_are_totally_ordered \<longleftrightarrow> TypeCode 1 < TypeCode 2 \<and> RouteId 10 > RouteId 5"

lemma ids_suite:
  "test_instance_id_zero_is_unrepresentable" "test_instance_id_nonzero_roundtrip = Done True"
  "test_entity_id_zero_is_unrepresentable" "test_entity_id_nonzero_roundtrip = Done True"
  "test_tick_advance_saturates_without_wrapping" "test_type_code_and_route_id_are_totally_ordered"
  by (simp_all add: test_instance_id_zero_is_unrepresentable_def test_instance_id_nonzero_roundtrip_def
      test_entity_id_zero_is_unrepresentable_def test_entity_id_nonzero_roundtrip_def InstanceId_new_def EntityId_new_def
      test_tick_advance_saturates_without_wrapping_def tick_advance_def unat_max_word
      test_type_code_and_route_id_are_totally_ordered_def eval_simps)

definition test_caps_combine_via_bitor :: bool where
  "test_caps_combine_via_bitor \<longleftrightarrow>
     (let c = SYSTEM OR ADMIN_UNLOAD
      in contains c SYSTEM \<and> contains c ADMIN_UNLOAD \<and> \<not> contains c INTROSPECT \<and> \<not> contains c OBSERVER_REGISTER)"

definition test_caps_default_is_empty :: bool where
  "test_caps_default_is_empty \<longleftrightarrow> (let none = 0 :: CapabilityMask in none = 0 \<and> \<not> contains none SYSTEM)"

definition test_caps_all_reserved_bits_have_distinct_positions :: bool where
  "test_caps_all_reserved_bits_have_distinct_positions \<longleftrightarrow> SYSTEM OR ADMIN_UNLOAD OR OBSERVER_REGISTER OR INTROSPECT = 0b1111"

definition test_caps_intersection_contains :: bool where
  "test_caps_intersection_contains \<longleftrightarrow>
     (let a = SYSTEM OR INTROSPECT; b = INTROSPECT OR OBSERVER_REGISTER in a AND b = INTROSPECT)"

definition test_caps_subset_relationship :: bool where
  "test_caps_subset_relationship \<longleftrightarrow>
     (let full = SYSTEM OR ADMIN_UNLOAD; partial = SYSTEM in contains full partial \<and> \<not> contains partial full)"

lemma caps_suite:
  "test_caps_combine_via_bitor" "test_caps_default_is_empty" "test_caps_all_reserved_bits_have_distinct_positions"
  "test_caps_intersection_contains" "test_caps_subset_relationship"
  by (simp_all add: test_caps_combine_via_bitor_def test_caps_default_is_empty_def
      test_caps_all_reserved_bits_have_distinct_positions_def test_caps_intersection_contains_def
      test_caps_subset_relationship_def contains_def SYSTEM_def ADMIN_UNLOAD_def INTROSPECT_def OBSERVER_REGISTER_def)

fun classify :: "Principal \<Rightarrow> string" where
  "classify Unauthenticated = ''unauth''"
| "classify (External _) = ''external''"
| "classify System = ''system''"

definition test_principal_exhaustive_classify :: bool where
  "test_principal_exhaustive_classify \<longleftrightarrow>
     classify Unauthenticated = ''unauth'' \<and> classify (External (ExternalId 7)) = ''external'' \<and> classify System = ''system''"

definition test_external_id_is_transparent_u64 :: bool where
  "test_external_id_is_transparent_u64 \<longleftrightarrow> (let i = ExternalId 0xDEADBEEF in external_id_val i = 0xDEADBEEF)"

definition test_principal_equality :: bool where
  "test_principal_equality \<longleftrightarrow> Unauthenticated = Unauthenticated \<and> External (ExternalId 3) = External (ExternalId 3) \<and>
     External (ExternalId 3) \<noteq> External (ExternalId 4) \<and> System \<noteq> Unauthenticated"

lemma principal_suite:
  "test_principal_exhaustive_classify" "test_external_id_is_transparent_u64" "test_principal_equality"
  by (simp_all add: test_principal_exhaustive_classify_def test_external_id_is_transparent_u64_def test_principal_equality_def)

definition test_domain_error_carries_code_and_payload :: bool where
  "test_domain_error_carries_code_and_payload \<longleftrightarrow>
     (case Domain 42 (bytes_of_string ''opaque'') of
        Domain c p \<Rightarrow> c = 42 \<and> p = bytes_of_string ''opaque'' | _ \<Rightarrow> False)"

definition test_domain_error_payload_can_be_empty :: bool where
  "test_domain_error_payload_can_be_empty \<longleftrightarrow> (case Domain 0 [] of Domain _ p \<Rightarrow> p = [] | _ \<Rightarrow> False)"

definition test_error_display_instance_not_found :: bool where
  "test_error_display_instance_not_found \<longleftrightarrow> display_ArkheError InstanceNotFound = ''instance not found''"

definition test_error_display_capability_denied :: bool where
  "test_error_display_capability_denied \<longleftrightarrow> display_ArkheError CapabilityDenied = ''capability denied''"

definition test_error_display_domain_includes_code :: bool where
  "test_error_display_domain_includes_code \<longleftrightarrow>
     (let s = display_ArkheError (Domain 7 (bytes_of_string ''xyz''))
      in str_contains s ''code=7'' \<and> str_contains s ''payload_len=3'')"

lemma error_suite:
  "test_domain_error_carries_code_and_payload" "test_domain_error_payload_can_be_empty"
  "test_error_display_instance_not_found" "test_error_display_capability_denied" "test_error_display_domain_includes_code"
  by (simp_all add: test_domain_error_carries_code_and_payload_def test_domain_error_payload_can_be_empty_def
      test_error_display_instance_not_found_def test_error_display_capability_denied_def
      test_error_display_domain_includes_code_def str_contains_def bytes_of_string_def dec.simps sublist_code eval_simps)

section \<open>\<open>state/quota.rs\<close>\<close>

definition qid :: "u64 \<Rightarrow> InstanceId" where
  "qid n = the (InstanceId_new n)"

definition test_error_display_includes_numbers :: bool where
  "test_error_display_includes_numbers \<longleftrightarrow>
     (let s = display_QuotaReductionError (WouldViolateChildren 100 50)
      in str_contains s ''current_usage=100'' \<and> str_contains s ''new_quota=50'')"

definition test_policy_three_distinct_variants :: bool where
  "test_policy_three_distinct_variants \<longleftrightarrow> Reject \<noteq> GrandfatherExisting \<and> GrandfatherExisting \<noteq> ThrottleProportional \<and> Reject \<noteq> ThrottleProportional"

definition test_reject_allows_under_quota :: bool where
  "test_reject_allows_under_quota \<longleftrightarrow> (let cs = [(qid 1, 25), (qid 2, 25)] in apply_quota_reduction Reject 100 cs = Inr cs)"

definition test_reject_denies_over_quota :: bool where
  "test_reject_denies_over_quota \<longleftrightarrow>
     (let cs = [(qid 1, 100), (qid 2, 100)] in apply_quota_reduction Reject 100 cs = Inl (WouldViolateChildren 200 100))"

definition test_reject_at_exact_limit_allows :: bool where
  "test_reject_at_exact_limit_allows \<longleftrightarrow> (let cs = [(qid 1, 50), (qid 2, 50)] in apply_quota_reduction Reject 100 cs = Inr cs)"

definition test_grandfather_returns_children_unchanged :: bool where
  "test_grandfather_returns_children_unchanged \<longleftrightarrow>
     (let cs = [(qid 1, 100), (qid 2, 100)] in apply_quota_reduction GrandfatherExisting 100 cs = Inr cs)"

definition test_throttle_basic :: bool where
  "test_throttle_basic \<longleftrightarrow>
     (let cs = [(qid 1, 100), (qid 2, 200), (qid 3, 300)]
      in apply_quota_reduction ThrottleProportional 300 cs = Inr [(qid 1, 50), (qid 2, 100), (qid 3, 150)])"

definition test_throttle_remainder_distributes_ascending :: bool where
  "test_throttle_remainder_distributes_ascending \<longleftrightarrow>
     (let cs = [(qid 1, 100), (qid 2, 100), (qid 3, 100)]
      in case apply_quota_reduction ThrottleProportional 100 cs of
           Inl _ \<Rightarrow> False
         | Inr result \<Rightarrow> result = [(qid 1, 34), (qid 2, 33), (qid 3, 33)] \<and> sum_list (map snd result) = 100)"

definition test_throttle_does_not_scale_up_when_quota_exceeds_total :: bool where
  "test_throttle_does_not_scale_up_when_quota_exceeds_total \<longleftrightarrow>
     (let cs = [(qid 1, 100), (qid 2, 200)] in apply_quota_reduction ThrottleProportional 600 cs = Inr cs)"

definition test_throttle_at_exact_total_is_identity :: bool where
  "test_throttle_at_exact_total_is_identity \<longleftrightarrow>
     (let cs = [(qid 1, 100), (qid 2, 200)] in apply_quota_reduction ThrottleProportional 300 cs = Inr cs)"

definition test_throttle_zero_total_idempotent :: bool where
  "test_throttle_zero_total_idempotent \<longleftrightarrow>
     (let cs = [(qid 1, 0), (qid 2, 0)] in apply_quota_reduction ThrottleProportional 100 cs = Inr cs)"

definition test_apply_to_empty_children_returns_empty :: bool where
  "test_apply_to_empty_children_returns_empty \<longleftrightarrow>
     list_all (\<lambda>policy. apply_quota_reduction policy 100 [] = Inr []) [Reject, GrandfatherExisting, ThrottleProportional]"

lemmas quota_eval = qid_def InstanceId_new_def apply_quota_reduction_def current_total_def throttle_scale_def scaled_share_def
  saturating_mul_def min_def eval_simps

lemma passes_error_display_includes_numbers: "test_error_display_includes_numbers"
  by (simp add: test_error_display_includes_numbers_def str_contains_def sublist_code dec.simps eval_simps)

lemma passes_policy_three_distinct_variants: "test_policy_three_distinct_variants"
  by (simp add: test_policy_three_distinct_variants_def quota_eval)

lemma passes_reject_allows_under_quota: "test_reject_allows_under_quota"
  by (simp add: test_reject_allows_under_quota_def quota_eval)

lemma passes_reject_denies_over_quota: "test_reject_denies_over_quota"
  by (simp add: test_reject_denies_over_quota_def quota_eval)

lemma passes_reject_at_exact_limit_allows: "test_reject_at_exact_limit_allows"
  by (simp add: test_reject_at_exact_limit_allows_def quota_eval)

lemma passes_grandfather_returns_children_unchanged: "test_grandfather_returns_children_unchanged"
  by (simp add: test_grandfather_returns_children_unchanged_def quota_eval)

lemma passes_throttle_basic: "test_throttle_basic"
  by (simp add: test_throttle_basic_def quota_eval)

lemma passes_throttle_remainder_distributes_ascending: "test_throttle_remainder_distributes_ascending"
  by (simp add: test_throttle_remainder_distributes_ascending_def quota_eval)

lemma passes_throttle_does_not_scale_up_when_quota_exceeds_total: "test_throttle_does_not_scale_up_when_quota_exceeds_total"
  by (simp add: test_throttle_does_not_scale_up_when_quota_exceeds_total_def quota_eval)

lemma passes_throttle_at_exact_total_is_identity: "test_throttle_at_exact_total_is_identity"
  by (simp add: test_throttle_at_exact_total_is_identity_def quota_eval)

lemma passes_throttle_zero_total_idempotent: "test_throttle_zero_total_idempotent"
  by (simp add: test_throttle_zero_total_idempotent_def quota_eval)

lemma passes_apply_to_empty_children_returns_empty: "test_apply_to_empty_children_returns_empty"
  by (simp add: test_apply_to_empty_children_returns_empty_def quota_eval)

section \<open>\<open>state/ledger.rs\<close>\<close>

definition e :: "u64 \<Rightarrow> EntityId" where
  "e n = the (EntityId_new n)"

abbreviation t :: "u32 \<Rightarrow> TypeCode" where
  "t n \<equiv> TypeCode n"

definition test_empty_ledger_zeroes :: bool where
  "test_empty_ledger_zeroes \<longleftrightarrow>
     (let l = ledger_new
      in total_entities l = 0 \<and> total_bytes l = 0 \<and> entity_bytes (e 1) l = 0 \<and> type_count (t 1) l = 0)"

definition test_add_entity_increments_total :: bool where
  "test_add_entity_increments_total \<longleftrightarrow>
     (let (a1, l) = add_entity (e 1) ledger_new; (a2, l) = add_entity (e 2) l in a1 \<and> a2 \<and> total_entities l = 2)"

definition test_add_entity_idempotent :: bool where
  "test_add_entity_idempotent \<longleftrightarrow>
     (let (a1, l) = add_entity (e 1) ledger_new; (a2, l) = add_entity (e 1) l in a1 \<and> \<not> a2 \<and> total_entities l = 1)"

definition test_add_component_updates_bytes_and_count :: bool where
  "test_add_component_updates_bytes_and_count \<longleftrightarrow>
     (let (_, l) = add_entity (e 1) ledger_new; (added, l) = add_component (e 1) (t 10) 100 l
      in added \<and> entity_bytes (e 1) l = 100 \<and> total_bytes l = 100 \<and> type_count (t 10) l = 1)"

definition test_add_component_to_unknown_entity_is_noop :: bool where
  "test_add_component_to_unknown_entity_is_noop \<longleftrightarrow>
     (let (added, l) = add_component (e 1) (t 10) 100 ledger_new in \<not> added \<and> total_bytes l = 0 \<and> type_count (t 10) l = 0)"

definition test_remove_component_balances_add :: bool where
  "test_remove_component_balances_add \<longleftrightarrow>
     (let (_, l) = add_entity (e 1) ledger_new; (_, l) = add_component (e 1) (t 10) 100 l; (_, l) = add_component (e 1) (t 20) 50 l;
          total1 = total_bytes l; (_, l) = remove_component (e 1) (t 10) 100 l
      in total1 = 150 \<and> total_bytes l = 50 \<and> entity_bytes (e 1) l = 50 \<and> type_count (t 10) l = 0 \<and> type_count (t 20) l = 1)"

definition test_remove_entity_returns_bytes_and_drops_total :: bool where
  "test_remove_entity_returns_bytes_and_drops_total \<longleftrightarrow>
     (let (_, l) = add_entity (e 1) ledger_new; (_, l) = add_component (e 1) (t 10) 100 l; (_, l) = add_component (e 1) (t 20) 50 l;
          (freed, l) = remove_entity (e 1) l
      in freed = 150 \<and> total_entities l = 0 \<and> total_bytes l = 0 \<and> entity_bytes (e 1) l = 0)"

definition test_remove_unknown_entity_is_noop :: bool where
  "test_remove_unknown_entity_is_noop \<longleftrightarrow> fst (remove_entity (e 999) ledger_new) = 0"

definition test_add_remove_balanced_yields_empty :: bool where
  "test_add_remove_balanced_yields_empty \<longleftrightarrow>
     (let (_, l) = add_entity (e 1) ledger_new; (_, l) = add_component (e 1) (t 10) 100 l;
          (_, l) = remove_component (e 1) (t 10) 100 l; (_, l) = remove_entity (e 1) l
      in total_bytes l = 0 \<and> total_entities l = 0)"

definition test_type_count_aggregates_across_entities :: bool where
  "test_type_count_aggregates_across_entities \<longleftrightarrow>
     (let (_, l) = add_entity (e 1) ledger_new; (_, l) = add_entity (e 2) l; (_, l) = add_component (e 1) (t 7) 10 l;
          (_, l) = add_component (e 2) (t 7) 20 l
      in type_count (t 7) l = 2 \<and> total_bytes l = 30)"

definition test_type_count_underflow_is_saturating :: bool where
  "test_type_count_underflow_is_saturating \<longleftrightarrow>
     (let (_, l) = add_entity (e 1) ledger_new; (_, l) = remove_component (e 1) (t 99) 50 l in type_count (t 99) l = 0)"

definition test_set_component_replace_adjusts_by_delta_no_double_count :: bool where
  "test_set_component_replace_adjusts_by_delta_no_double_count \<longleftrightarrow>
     (let (_, l) = add_entity (e 1) ledger_new; (a1, l) = add_component (e 1) (t 7) 100 l; (a2, l) = add_component (e 1) (t 7) 400 l;
          ok = (total_bytes l = 400 \<and> entity_bytes (e 1) l = 400 \<and> type_count (t 7) l = 1);
          (a3, l) = add_component (e 1) (t 7) 50 l
      in a1 \<and> a2 \<and> ok \<and> a3 \<and> total_bytes l = 50 \<and> type_count (t 7) l = 1)"

definition test_remove_entity_cascades_component_accounting :: bool where
  "test_remove_entity_cascades_component_accounting \<longleftrightarrow>
     (let (_, l) = add_entity (e 1) ledger_new; (_, l) = add_component (e 1) (t 7) 100 l; (_, l) = add_component (e 1) (t 9) 50 l;
          ok = (total_bytes l = 150 \<and> type_count (t 7) l = 1 \<and> type_count (t 9) l = 1);
          (freed, l) = remove_entity (e 1) l
      in ok \<and> freed = 150 \<and> total_bytes l = 0 \<and> total_entities l = 0 \<and> type_count (t 7) l = 0 \<and> type_count (t 9) l = 0)"

definition test_remove_component_uses_stored_size_not_caller_size :: bool where
  "test_remove_component_uses_stored_size_not_caller_size \<longleftrightarrow>
     (let (_, l) = add_entity (e 1) ledger_new; (_, l) = add_component (e 1) (t 7) 100 l;
          (removed, l) = remove_component (e 1) (t 7) 999999 l
      in removed \<and> total_bytes l = 0 \<and> entity_bytes (e 1) l = 0)"

lemmas ledger_eval = e_def EntityId_new_def ledger_new_def total_entities_def entity_bytes_def entity_range_def type_count_def
  add_entity_def remove_entity_def drop_component_def add_component_def remove_component_def eval_simps

lemma ledger_suite:
  "test_empty_ledger_zeroes" "test_add_entity_increments_total" "test_add_entity_idempotent" "test_add_component_updates_bytes_and_count"
  "test_add_component_to_unknown_entity_is_noop" "test_remove_component_balances_add" "test_remove_entity_returns_bytes_and_drops_total"
  "test_remove_unknown_entity_is_noop" "test_add_remove_balanced_yields_empty" "test_type_count_aggregates_across_entities"
  "test_type_count_underflow_is_saturating" "test_set_component_replace_adjusts_by_delta_no_double_count"
  "test_remove_entity_cascades_component_accounting" "test_remove_component_uses_stored_size_not_caller_size"
  by (simp_all add: test_empty_ledger_zeroes_def test_add_entity_increments_total_def test_add_entity_idempotent_def
      test_add_component_updates_bytes_and_count_def test_add_component_to_unknown_entity_is_noop_def
      test_remove_component_balances_add_def test_remove_entity_returns_bytes_and_drops_total_def
      test_remove_unknown_entity_is_noop_def test_add_remove_balanced_yields_empty_def
      test_type_count_aggregates_across_entities_def test_type_count_underflow_is_saturating_def
      test_set_component_replace_adjusts_by_delta_no_double_count_def test_remove_entity_cascades_component_accounting_def
      test_remove_component_uses_stored_size_not_caller_size_def ledger_eval)

section \<open>\<open>state/authz.rs\<close>, \<open>state/scope.rs\<close>, \<open>state/traits.rs\<close>\<close>

definition authz_inst :: InstanceId where "authz_inst = the (InstanceId_new 1)"
definition authz_ent :: EntityId where "authz_ent = the (EntityId_new 1)"

definition spawn_op :: Op where "spawn_op = SpawnEntity authz_ent System"
definition schedule_op :: Op where "schedule_op = ScheduleAction (Tick 0) None (TypeCode 0) []"
definition signal_op :: Op where "signal_op = SendSignal authz_inst (RouteId 1) []"

text \<open>\<open>CapabilityMask::all()\<close>: the union of the declared flags.\<close>

definition all_caps :: CapabilityMask where "all_caps = SYSTEM OR ADMIN_UNLOAD OR OBSERVER_REGISTER OR INTROSPECT"

definition test_effect_carries_instance_id_and_op :: bool where
  "test_effect_carries_instance_id_and_op \<longleftrightarrow>
     (let eff = Effect_new authz_inst System (SpawnEntity authz_ent System) in instance_id_get (effect_instance_id eff) = 1)"

definition test_deny_reason_display_and_error :: bool where
  "test_deny_reason_display_and_error \<longleftrightarrow>
     display_DenyReason DenyCapability = ''capability denied'' \<and> display_DenyReason OperationRestricted = ''operation restricted''"

definition test_system_principal_gated_by_effective_caps_not_blanket_bypass :: bool where
  "test_system_principal_gated_by_effective_caps_not_blanket_bypass \<longleftrightarrow>
     list_all (\<lambda>op. authorize 0 (Effect_new authz_inst System op) = Inl DenyCapability) [schedule_op, signal_op] \<and>
     list_all (\<lambda>op. \<exists>ok. authorize SYSTEM (Effect_new authz_inst System op) = Inr ok) [spawn_op, schedule_op, signal_op]"

definition test_effective_caps_intersects_config_and_ceiling_for_authenticated_principals :: bool where
  "test_effective_caps_intersects_config_and_ceiling_for_authenticated_principals \<longleftrightarrow>
     (let full = all_caps; none = 0; ext = External (ExternalId 7); sys = System
      in effective_caps full ext none = none \<and> effective_caps none ext full = none \<and> effective_caps full ext full = full \<and>
         effective_caps full sys none = none \<and> effective_caps none sys full = none \<and> effective_caps full sys full = full \<and>
         effective_caps full Unauthenticated full = none)"

definition test_scheduled_system_child_cannot_rewiden_past_caps_ceiling :: bool where
  "test_scheduled_system_child_cannot_rewiden_past_caps_ceiling \<longleftrightarrow>
     (let full = all_caps; parent_effective = SYSTEM; child = effective_caps full System parent_effective
      in child = parent_effective \<and> child \<le> parent_effective)"

definition test_unauthenticated_principal_always_denied :: bool where
  "test_unauthenticated_principal_always_denied \<longleftrightarrow>
     authorize SYSTEM (Effect_new authz_inst Unauthenticated spawn_op) = Inl DenyCapability"

definition test_external_with_system_cap_authorized :: bool where
  "test_external_with_system_cap_authorized \<longleftrightarrow>
     (\<exists>ok. authorize SYSTEM (Effect_new authz_inst (External (ExternalId 7)) schedule_op) = Inr ok)"

definition test_external_without_cap_denied_for_schedule :: bool where
  "test_external_without_cap_denied_for_schedule \<longleftrightarrow>
     authorize 0 (Effect_new authz_inst (External (ExternalId 7)) schedule_op) = Inl DenyCapability"

definition test_external_without_cap_denied_for_send_signal :: bool where
  "test_external_without_cap_denied_for_send_signal \<longleftrightarrow>
     authorize 0 (Effect_new authz_inst (External (ExternalId 7)) signal_op) = Inl DenyCapability"

definition test_external_with_basic_cap_authorized_for_state_op :: bool where
  "test_external_with_basic_cap_authorized_for_state_op \<longleftrightarrow>
     (\<exists>ok. authorize 0 (Effect_new authz_inst (External (ExternalId 7)) spawn_op) = Inr ok)"

definition test_scope_carries_instance_id :: "bool outcome" where
  "test_scope_carries_instance_id =
     obind (expect (InstanceId_new 42)) (\<lambda>i. let scope = new_for_skeleton i in Done (instance_id_get (scope_instance_id scope) = 42))"

definition test_scope_independent_construction_compiles :: bool where
  "test_scope_independent_construction_compiles \<longleftrightarrow>
     (let s1 = new_for_skeleton (the (InstanceId_new 1)); s2 = new_for_skeleton (the (InstanceId_new 2))
      in instance_id_get (scope_instance_id s1) = 1 \<and> instance_id_get (scope_instance_id s2) = 2)"

definition test_deserialize_error_display_includes_versions :: bool where
  "test_deserialize_error_display_includes_versions \<longleftrightarrow>
     (let s = display_DeserializeError (SchemaVersionMismatch 1 2) in str_contains s ''expected 1'' \<and> str_contains s ''got 2'')"

definition test_deserialize_error_payload_malformed_displays :: bool where
  "test_deserialize_error_payload_malformed_displays \<longleftrightarrow> display_DeserializeError PayloadMalformed = ''payload malformed''"

lemmas authz_eval = authz_inst_def authz_ent_def InstanceId_new_def EntityId_new_def Effect_new_def spawn_op_def schedule_op_def
  signal_op_def all_caps_def authorize_def contains_def SYSTEM_def ADMIN_UNLOAD_def OBSERVER_REGISTER_def INTROSPECT_def
  new_for_skeleton_def str_contains_def sublist_code dec.simps eval_simps

lemma passes_effect_carries_instance_id_and_op: "test_effect_carries_instance_id_and_op"
  by (simp add: test_effect_carries_instance_id_and_op_def authz_eval)

lemma passes_deny_reason_display_and_error: "test_deny_reason_display_and_error"
  by (simp add: test_deny_reason_display_and_error_def authz_eval)

lemma passes_system_principal_gated_by_effective_caps_not_blanket_bypass: "test_system_principal_gated_by_effective_caps_not_blanket_bypass"
  by (simp add: test_system_principal_gated_by_effective_caps_not_blanket_bypass_def authz_eval)

lemma passes_effective_caps_intersects_config_and_ceiling_for_authenticated_principals: "test_effective_caps_intersects_config_and_ceiling_for_authenticated_principals"
  by (simp add: test_effective_caps_intersects_config_and_ceiling_for_authenticated_principals_def authz_eval)

lemma passes_scheduled_system_child_cannot_rewiden_past_caps_ceiling: "test_scheduled_system_child_cannot_rewiden_past_caps_ceiling"
  by (simp add: test_scheduled_system_child_cannot_rewiden_past_caps_ceiling_def authz_eval)

lemma passes_unauthenticated_principal_always_denied: "test_unauthenticated_principal_always_denied"
  by (simp add: test_unauthenticated_principal_always_denied_def authz_eval)

lemma passes_external_with_system_cap_authorized: "test_external_with_system_cap_authorized"
  by (simp add: test_external_with_system_cap_authorized_def authz_eval)

lemma passes_external_without_cap_denied_for_schedule: "test_external_without_cap_denied_for_schedule"
  by (simp add: test_external_without_cap_denied_for_schedule_def authz_eval)

lemma passes_external_without_cap_denied_for_send_signal: "test_external_without_cap_denied_for_send_signal"
  by (simp add: test_external_without_cap_denied_for_send_signal_def authz_eval)

lemma passes_external_with_basic_cap_authorized_for_state_op: "test_external_with_basic_cap_authorized_for_state_op"
  by (simp add: test_external_with_basic_cap_authorized_for_state_op_def authz_eval)

lemma passes_scope_carries_instance_id: "test_scope_carries_instance_id = Done True"
  by (simp add: test_scope_carries_instance_id_def authz_eval)

lemma passes_scope_independent_construction_compiles: "test_scope_independent_construction_compiles"
  by (simp add: test_scope_independent_construction_compiles_def authz_eval)

lemma passes_deserialize_error_display_includes_versions: "test_deserialize_error_display_includes_versions"
  by (simp add: test_deserialize_error_display_includes_versions_def authz_eval)

lemma passes_deserialize_error_payload_malformed_displays: "test_deserialize_error_payload_malformed_displays"
  by (simp add: test_deserialize_error_payload_malformed_displays_def authz_eval)

section \<open>\<open>state/config.rs\<close>, \<open>state/context.rs\<close>, \<open>state/instance.rs\<close>\<close>

definition cfg :: InstanceConfig where
  "cfg = \<lparr>default_caps = 0, max_entities = 100, max_scheduled = 1000, max_inbox_per_route = 16,
     memory_budget_bytes = push_bit 20 1, config_parent = None, quota_reduction = Reject\<rparr>"

definition test_config_default_is_zero_quota_reject_policy :: bool where
  "test_config_default_is_zero_quota_reject_policy \<longleftrightarrow>
     (let c = InstanceConfig_default
      in max_entities c = 0 \<and> max_scheduled c = 0 \<and> max_inbox_per_route c = 0 \<and> memory_budget_bytes c = 0 \<and>
         config_parent c = None \<and> quota_reduction c = Reject \<and> default_caps c = 0)"

definition test_config_field_assignment :: bool where
  "test_config_field_assignment \<longleftrightarrow>
     (let c = InstanceConfig_default\<lparr>max_entities := 42, config_parent := InstanceId_new 3, quota_reduction := GrandfatherExisting\<rparr>
      in max_entities c = 42 \<and> config_parent c = InstanceId_new 3 \<and> quota_reduction c = GrandfatherExisting)"

definition test_context_accessor_matches_instance :: bool where
  "test_context_accessor_matches_instance \<longleftrightarrow>
     (let inst = Instance_new (qid 7) InstanceConfig_default;
          ctx = \<lparr>ctx_actor = Some (e 1), ctx_now = Tick 0, ctx_instance_id = qid 7, ctx_instance = inst\<rparr>
      in ctx_entities_len ctx = 0 \<and> ctx_components_len ctx = 0 \<and> ctx_local_tick ctx = 0 \<and> ctx_now ctx = Tick 0 \<and>
         ctx_instance_id ctx = qid 7 \<and> ctx_actor ctx = Some (e 1))"

definition test_instance_new_initial_state :: bool where
  "test_instance_new_initial_state \<longleftrightarrow>
     (let inst = Instance_new (qid 1) cfg
      in inst_id inst = qid 1 \<and> entities_len inst = 0 \<and> components_len inst = 0 \<and> local_tick inst = 0 \<and>
         wall_remainder inst = 0 \<and> total_entities (inst_ledger inst) = 0 \<and> sched_is_empty (inst_scheduler inst) \<and>
         inflight_refs_len inst = 0)"

definition test_instance_id_counters_default_zero :: bool where
  "test_instance_id_counters_default_zero \<longleftrightarrow>
     (let c = inst_counters (Instance_new (qid 1) cfg) in next_entity c = 0 \<and> next_scheduled c = 0 \<and> next_source_seq c = 0)"

definition test_instance_config_carried_through :: bool where
  "test_instance_config_carried_through \<longleftrightarrow>
     (let config = cfg\<lparr>max_entities := 7, config_parent := Some (qid 99)\<rparr>; inst = Instance_new (qid 2) config
      in max_entities (inst_config inst) = 7 \<and> config_parent (inst_config inst) = Some (qid 99))"

definition test_multiple_instances_independent :: bool where
  "test_multiple_instances_independent \<longleftrightarrow>
     (let inst1 = Instance_new (qid 1) cfg; inst2 = Instance_new (qid 2) cfg
      in inst_id inst1 \<noteq> inst_id inst2 \<and> sched_is_empty (inst_scheduler inst1) \<and> sched_is_empty (inst_scheduler inst2) \<and>
         total_bytes (inst_ledger inst1) = 0 \<and> total_bytes (inst_ledger inst2) = 0)"

definition test_id_counters_default_clone_independent :: bool where
  "test_id_counters_default_clone_independent \<longleftrightarrow>
     (let c1 = IdCounters_default; c2 = c1\<lparr>next_entity := 10\<rparr> in next_entity c1 = 0 \<and> next_entity c2 = 10)"

lemmas instance_eval = qid_def InstanceId_new_def cfg_def InstanceConfig_default_def Instance_new_def IdCounters_default_def
  ctx_entities_len_def ctx_components_len_def ctx_local_tick_def entities_len_def components_len_def inflight_refs_len_def
  Scheduler_new_def sched_is_empty_def ledger_eval

lemma passes_config_default_is_zero_quota_reject_policy: "test_config_default_is_zero_quota_reject_policy"
  by (simp add: test_config_default_is_zero_quota_reject_policy_def instance_eval)

lemma passes_config_field_assignment: "test_config_field_assignment"
  by (simp add: test_config_field_assignment_def instance_eval)

lemma passes_context_accessor_matches_instance: "test_context_accessor_matches_instance"
  by (simp add: test_context_accessor_matches_instance_def instance_eval)

lemma passes_instance_new_initial_state: "test_instance_new_initial_state"
  by (simp add: test_instance_new_initial_state_def instance_eval)

lemma passes_instance_id_counters_default_zero: "test_instance_id_counters_default_zero"
  by (simp add: test_instance_id_counters_default_zero_def instance_eval)

lemma passes_instance_config_carried_through: "test_instance_config_carried_through"
  by (simp add: test_instance_config_carried_through_def instance_eval)

lemma passes_multiple_instances_independent: "test_multiple_instances_independent"
  by (simp add: test_multiple_instances_independent_def instance_eval)

lemma passes_id_counters_default_clone_independent: "test_id_counters_default_clone_independent"
  by (simp add: test_id_counters_default_clone_independent_def instance_eval)

section \<open>\<open>state/scheduler.rs\<close>\<close>

text \<open>\<open>schedule\<close> with the fixed principal, capabilities and type code of the tests.\<close>

definition sched_at :: "u64 \<Rightarrow> EntityId option \<Rightarrow> bytes \<Rightarrow> Scheduler \<Rightarrow> (ScheduledActionId \<times> Scheduler) outcome" where
  "sched_at at actor bs s = schedule (Tick at) actor System all_caps (TypeCode 1) bs s"

definition pop_id :: "u64 \<Rightarrow> Scheduler \<Rightarrow> (ScheduledActionId \<times> Scheduler) outcome" where
  "pop_id now s = obind (pop_due (Tick now) s) (\<lambda>(popped, s'). obind (expect popped) (\<lambda>entry. Done (entry_id entry, s')))"

definition test_empty_state :: bool where
  "test_empty_state \<longleftrightarrow> (let s = Scheduler_new in sched_len s = 0 \<and> sched_is_empty s)"

definition test_schedule_then_pop_due_single :: "bool outcome" where
  "test_schedule_then_pop_due_single =
     obind (sched_at 5 None [1, 2, 3] Scheduler_new) (\<lambda>(i, s).
     let len1 = sched_len s in
     obind (pop_due (Tick 5) s) (\<lambda>(popped, s).
     obind (expect popped) (\<lambda>entry.
     Done (len1 = 1 \<and> entry_id entry = i \<and> entry_at entry = Tick 5 \<and> action_bytes entry = [1, 2, 3] \<and> sched_is_empty s))))"

definition test_pop_due_before_time_returns_none :: "bool outcome" where
  "test_pop_due_before_time_returns_none =
     obind (sched_at 10 None [] Scheduler_new) (\<lambda>(_, s).
     obind (pop_due (Tick 9) s) (\<lambda>(popped, s). Done (popped = None \<and> sched_len s = 1)))"

definition test_pop_due_at_exact_tick_pops :: "bool outcome" where
  "test_pop_due_at_exact_tick_pops =
     obind (sched_at 5 None [] Scheduler_new) (\<lambda>(i, s). obind (pop_id 5 s) (\<lambda>(j, s). Done (j = i)))"

definition test_pop_due_ordering_by_tick :: "bool outcome" where
  "test_pop_due_ordering_by_tick =
     obind (sched_at 20 None [] Scheduler_new) (\<lambda>(id_late, s). obind (sched_at 5 None [] s) (\<lambda>(id_early, s).
     obind (sched_at 10 None [] s) (\<lambda>(id_mid, s).
     obind (pop_id 100 s) (\<lambda>(p1, s). obind (pop_id 100 s) (\<lambda>(p2, s). obind (pop_id 100 s) (\<lambda>(p3, s).
     Done (p1 = id_early \<and> p2 = id_mid \<and> p3 = id_late)))))))"

definition test_pop_due_tiebreak_by_seq :: "bool outcome" where
  "test_pop_due_tiebreak_by_seq =
     obind (sched_at 5 None [1] Scheduler_new) (\<lambda>(id1, s). obind (sched_at 5 None [2] s) (\<lambda>(id2, s).
     obind (sched_at 5 None [3] s) (\<lambda>(id3, s).
     obind (pop_id 5 s) (\<lambda>(p1, s). obind (pop_id 5 s) (\<lambda>(p2, s). obind (pop_id 5 s) (\<lambda>(p3, s).
     Done (p1 = id1 \<and> p2 = id2 \<and> p3 = id3)))))))"

definition test_cancel_removes_entry :: "bool outcome" where
  "test_cancel_removes_entry =
     obind (sched_at 5 None [] Scheduler_new) (\<lambda>(i, s). obind (cancel i s) (\<lambda>(found, s). obind (expect found) (\<lambda>cancelled.
     obind (pop_due (Tick 100) s) (\<lambda>(popped, _). Done (entry_id cancelled = i \<and> sched_is_empty s \<and> popped = None)))))"

definition test_cancel_unknown_returns_none :: "bool outcome" where
  "test_cancel_unknown_returns_none =
     obind (expect (ScheduledActionId_new 999)) (\<lambda>bogus. obind (cancel bogus Scheduler_new) (\<lambda>(found, _). Done (found = None)))"

definition test_cancel_by_actor_removes_all :: "bool outcome" where
  "test_cancel_by_actor_removes_all =
     (let actor = e 1; other = e 2 in
      obind (sched_at 5 (Some actor) [] Scheduler_new) (\<lambda>(_, s). obind (sched_at 10 (Some actor) [] s) (\<lambda>(_, s).
      obind (sched_at 7 (Some other) [] s) (\<lambda>(id_other, s).
      let len1 = sched_len s; (cancelled, s) = cancel_by_actor actor s in
      obind (pop_id 100 s) (\<lambda>(p, _). Done (len1 = 3 \<and> length cancelled = 2 \<and> sched_len s = 1 \<and> p = id_other))))))"

definition test_cancel_by_actor_unknown_returns_empty :: bool where
  "test_cancel_by_actor_unknown_returns_empty \<longleftrightarrow> fst (cancel_by_actor (e 99) Scheduler_new) = []"

definition test_schedule_id_monotonic :: "bool outcome" where
  "test_schedule_id_monotonic =
     obind (sched_at 0 None [] Scheduler_new) (\<lambda>(id1, s). obind (sched_at 0 None [] s) (\<lambda>(id2, s).
     obind (sched_at 0 None [] s) (\<lambda>(id3, s).
     Done (id1 < id2 \<and> id2 < id3 \<and> scheduled_id_get id1 = 1 \<and> scheduled_id_get id3 = 3))))"

definition test_no_tombstones :: "bool outcome" where
  "test_no_tombstones =
     obind (sched_at 5 None [] Scheduler_new) (\<lambda>(id1, s). obind (sched_at 5 None [] s) (\<lambda>(_, s).
     let len1 = sched_len s in obind (cancel id1 s) (\<lambda>(_, s). Done (len1 = 2 \<and> sched_len s = 1))))"

definition test_validate_accepts_consistent_scheduler :: "bool outcome" where
  "test_validate_accepts_consistent_scheduler =
     obind (sched_at 5 (Some (e 1)) [1] Scheduler_new) (\<lambda>(_, s). obind (sched_at 3 None [2] s) (\<lambda>(_, s).
     obind (sched_at 5 (Some (e 1)) [3] s) (\<lambda>(_, s). Done (validate s = Inr ()))))"

definition test_validate_rejects_broken_ready_by_id_bijection :: "bool outcome" where
  "test_validate_rejects_broken_ready_by_id_bijection =
     obind (sched_at 5 None [1] Scheduler_new) (\<lambda>(_, s). Done (validate (s\<lparr>by_id := fmempty\<rparr>) \<noteq> Inr ()))"

definition test_validate_rejects_missing_by_actor_index :: "bool outcome" where
  "test_validate_rejects_missing_by_actor_index =
     obind (sched_at 5 (Some (e 1)) [1] Scheduler_new) (\<lambda>(_, s). Done (validate (s\<lparr>by_actor := fmempty\<rparr>) \<noteq> Inr ()))"

lemmas scheduler_eval = sched_at_def pop_id_def Scheduler_new_def schedule_def ScheduledActionId_new_def pop_due_def cancel_def
  cancel_by_actor_def cancel_one_def sched_len_def sched_is_empty_def index_insert_def index_remove_def e_def EntityId_new_def
  validate_def check_ready_def check_actor_id_def check_actor_def check_indexed_def check_counters_def eval_simps

lemma passes_empty_state: "test_empty_state"
  by (simp add: test_empty_state_def scheduler_eval)

lemma passes_schedule_then_pop_due_single: "test_schedule_then_pop_due_single = Done True"
  by (simp add: test_schedule_then_pop_due_single_def scheduler_eval)

lemma passes_pop_due_before_time_returns_none: "test_pop_due_before_time_returns_none = Done True"
  by (simp add: test_pop_due_before_time_returns_none_def scheduler_eval)

lemma passes_pop_due_at_exact_tick_pops: "test_pop_due_at_exact_tick_pops = Done True"
  by (simp add: test_pop_due_at_exact_tick_pops_def scheduler_eval)

lemma passes_pop_due_ordering_by_tick: "test_pop_due_ordering_by_tick = Done True"
  by (simp add: test_pop_due_ordering_by_tick_def scheduler_eval)

lemma passes_pop_due_tiebreak_by_seq: "test_pop_due_tiebreak_by_seq = Done True"
  by (simp add: test_pop_due_tiebreak_by_seq_def scheduler_eval)

lemma passes_cancel_removes_entry: "test_cancel_removes_entry = Done True"
  by (simp add: test_cancel_removes_entry_def scheduler_eval)

lemma passes_cancel_unknown_returns_none: "test_cancel_unknown_returns_none = Done True"
  by (simp add: test_cancel_unknown_returns_none_def scheduler_eval)

lemma passes_cancel_by_actor_removes_all: "test_cancel_by_actor_removes_all = Done True"
  by (simp add: test_cancel_by_actor_removes_all_def scheduler_eval)

lemma passes_cancel_by_actor_unknown_returns_empty: "test_cancel_by_actor_unknown_returns_empty"
  by (simp add: test_cancel_by_actor_unknown_returns_empty_def scheduler_eval)

lemma passes_schedule_id_monotonic: "test_schedule_id_monotonic = Done True"
  by (simp add: test_schedule_id_monotonic_def scheduler_eval)

lemma passes_no_tombstones: "test_no_tombstones = Done True"
  by (simp add: test_no_tombstones_def scheduler_eval)

lemma passes_validate_accepts_consistent_scheduler: "test_validate_accepts_consistent_scheduler = Done True"
  by (simp add: test_validate_accepts_consistent_scheduler_def scheduler_eval word_le_nat_alt)

lemma passes_validate_rejects_broken_ready_by_id_bijection: "test_validate_rejects_broken_ready_by_id_bijection = Done True"
  by (simp add: test_validate_rejects_broken_ready_by_id_bijection_def scheduler_eval)

lemma passes_validate_rejects_missing_by_actor_index: "test_validate_rejects_missing_by_actor_index = Done True"
  by (simp add: test_validate_rejects_missing_by_actor_index_def scheduler_eval)

end
