(* ===== verification/Conformance_Runtime.thy ===== *)
theory Conformance_Runtime
  imports Conformance_State
begin

text \<open>
  The unit tests of \<open>runtime/stage.rs\<close>, \<open>dispatch.rs\<close>, \<open>apply.rs\<close>, \<open>observer.rs\<close>, \<open>event.rs\<close> and
  \<open>registry.rs\<close>, run on the model in the same way as those of \<open>Conformance_State\<close>. The observers of
  the tests are values of one datatype; the shared counter of the source is the observer's own state,
  read back through the handle.
\<close>

section \<open>\<open>runtime/stage.rs\<close>\<close>

text \<open>The assertions on an empty stage that two tests share.\<close>

definition all_buckets_empty :: "StepStage \<Rightarrow> bool" where
  "all_buckets_empty s \<longleftrightarrow>
     state_ops s = [] \<and> stage_events s = [] \<and> schedule_deltas s = [] \<and> pending_signals s = [] \<and>
     next_entity_advance (id_counters s) = 0 \<and> next_scheduled_advance (id_counters s) = 0 \<and>
     next_source_seq_advance (id_counters s) = 0 \<and> ledger_delta s = [] \<and> wall_remainder_delta s = 0 \<and>
     local_tick_delta s = 0 \<and> observer_eviction_pending s = []"

definition test_step_stage_default_all_buckets_empty :: bool where
  "test_step_stage_default_all_buckets_empty \<longleftrightarrow> all_buckets_empty StepStage_default"

definition test_clear_resets_all_buckets :: bool where
  "test_clear_resets_all_buckets \<longleftrightarrow>
     (let eid = e 1; iid = qid 1; sid = the (ScheduledActionId_new 1);
          s = StepStage_default\<lparr>state_ops := [StagedDespawnEntity eid],
                stage_events := [ActionExecuted iid (TypeCode 1) (Tick 1)], schedule_deltas := [Remove sid],
                pending_signals := [\<lparr>pending_target = iid, pending_route = RouteId 1,
                   pending_payload = bytes_of_string ''x'', pending_principal = System\<rparr>],
                id_counters := \<lparr>next_entity_advance = 9, next_scheduled_advance = 9, next_source_seq_advance = 9\<rparr>,
                ledger_delta := [LedgerAddEntity eid], wall_remainder_delta := 12345, local_tick_delta := 7\<rparr>
      in all_buckets_empty (stage_clear s))"

definition test_projected_oversized_add_saturates_no_negative_wrap :: bool where
  "test_projected_oversized_add_saturates_no_negative_wrap \<longleftrightarrow>
     (let stage = StepStage_default\<lparr>ledger_delta := [LedgerAddComponent (e 1) (TypeCode 1) (- 1)]\<rparr>
      in projected_component_bytes 0 stage ledger_new = - 1)"

definition test_projected_remove_credits_stored_size_not_caller_size :: bool where
  "test_projected_remove_credits_stored_size_not_caller_size \<longleftrightarrow>
     (let ledger = snd (add_component (e 1) (TypeCode 1) 100 (snd (add_entity (e 1) ledger_new)));
          stage = StepStage_default\<lparr>ledger_delta := [LedgerRemoveComponent (e 1) (TypeCode 1) (- 1)]\<rparr>
      in projected_component_bytes 100 stage ledger = 0)"

definition test_projected_remove_of_unaccounted_component_credits_zero :: bool where
  "test_projected_remove_of_unaccounted_component_credits_zero \<longleftrightarrow>
     (let stage = StepStage_default\<lparr>ledger_delta := [LedgerRemoveComponent (e 1) (TypeCode 1) 50]\<rparr>
      in projected_component_bytes 0 stage ledger_new = 0)"

definition test_pending_signal_construction :: bool where
  "test_pending_signal_construction \<longleftrightarrow>
     (let s = \<lparr>pending_target = qid 1, pending_route = RouteId 1, pending_payload = bytes_of_string ''hello'',
               pending_principal = System\<rparr>
      in length (pending_payload s) = 5)"

lemmas stage_eval = all_buckets_empty_def StepStage_default_def IdCountersDelta_default_def stage_clear_def projected_component_bytes_def
  component_size_def bytes_of_string_def qid_def InstanceId_new_def ScheduledActionId_new_def ledger_eval

lemma passes_step_stage_default_all_buckets_empty: "test_step_stage_default_all_buckets_empty"
  by (simp add: test_step_stage_default_all_buckets_empty_def stage_eval)

lemma passes_clear_resets_all_buckets: "test_clear_resets_all_buckets"
  by (simp add: test_clear_resets_all_buckets_def stage_eval)

lemma passes_projected_oversized_add_saturates_no_negative_wrap: "test_projected_oversized_add_saturates_no_negative_wrap"
  by (simp add: test_projected_oversized_add_saturates_no_negative_wrap_def stage_eval)

lemma passes_projected_remove_credits_stored_size_not_caller_size: "test_projected_remove_credits_stored_size_not_caller_size"
  by (simp add: test_projected_remove_credits_stored_size_not_caller_size_def stage_eval)

lemma passes_projected_remove_of_unaccounted_component_credits_zero: "test_projected_remove_of_unaccounted_component_credits_zero"
  by (simp add: test_projected_remove_of_unaccounted_component_credits_zero_def stage_eval)

lemma passes_pending_signal_construction: "test_pending_signal_construction"
  by (simp add: test_pending_signal_construction_def stage_eval)

section \<open>\<open>runtime/dispatch.rs\<close>\<close>

text \<open>\<open>authorize(..).expect(..)\<close> under the fixed instance, principal and capabilities.\<close>

definition auth_system :: "Op \<Rightarrow> Authorized Effect outcome" where
  "auth_system op =
     (case authorize SYSTEM (Effect_new (qid 1) System op) of Inl _ \<Rightarrow> Panic | Inr eff \<Rightarrow> Done eff)"

definition dispatch_system :: "Op \<Rightarrow> Tick \<Rightarrow> StepStage \<times> u64 \<Rightarrow> (StepStage \<times> u64) outcome" where
  "dispatch_system op now st = obind (auth_system op) (\<lambda>eff. dispatch eff now all_caps st)"

definition test_dispatch_spawn_entity_pushes_state_op_ledger_and_advances_counter :: "bool outcome" where
  "test_dispatch_spawn_entity_pushes_state_op_ledger_and_advances_counter =
     obind (dispatch_system (SpawnEntity (e 1) System) (Tick 5) (StepStage_default, 0)) (\<lambda>(stage, next_id).
       Done (length (state_ops stage) = 1 \<and> length (ledger_delta stage) = 1 \<and>
             next_entity_advance (id_counters stage) = 1 \<and> next_id = 0))"

definition test_dispatch_despawn_entity_pushes_state_and_ledger_remove :: "bool outcome" where
  "test_dispatch_despawn_entity_pushes_state_and_ledger_remove =
     obind (dispatch_system (DespawnEntity (e 1)) (Tick 0) (StepStage_default, 0)) (\<lambda>(stage, next_id).
       Done (length (state_ops stage) = 1 \<and> length (ledger_delta stage) = 1))"

definition test_dispatch_set_component_pushes_state_and_ledger_add :: "bool outcome" where
  "test_dispatch_set_component_pushes_state_and_ledger_add =
     obind (dispatch_system (SetComponent (e 1) (TypeCode 7) (bytes_of_string ''data'') 4) (Tick 0) (StepStage_default, 0)) (\<lambda>(stage, next_id).
       Done (length (state_ops stage) = 1 \<and> length (ledger_delta stage) = 1))"

definition test_dispatch_remove_component_pushes_state_and_ledger_remove :: "bool outcome" where
  "test_dispatch_remove_component_pushes_state_and_ledger_remove =
     obind (dispatch_system (RemoveComponent (e 1) (TypeCode 7) 4) (Tick 0) (StepStage_default, 0)) (\<lambda>(stage, next_id).
       Done (length (state_ops stage) = 1 \<and> length (ledger_delta stage) = 1))"

definition test_dispatch_emit_event_pushes_kernel_event :: "bool outcome" where
  "test_dispatch_emit_event_pushes_kernel_event =
     obind (dispatch_system (EmitEvent (Some (e 1)) (TypeCode 2) (bytes_of_string ''evt'')) (Tick 0) (StepStage_default, 0)) (\<lambda>(stage, next_id).
       case stage_events stage of
         [DomainEventEmitted _ _ tc _] \<Rightarrow> Done (tc = TypeCode 2)
       | _ \<Rightarrow> Panic)"

definition test_dispatch_schedule_action_advances_id_and_pushes_delta :: "bool outcome" where
  "test_dispatch_schedule_action_advances_id_and_pushes_delta =
     obind (dispatch_system (ScheduleAction (Tick 10) None (TypeCode 3) (bytes_of_string ''a'')) (Tick 0) (StepStage_default, 0)) (\<lambda>(stage, next_id).
       case schedule_deltas stage of
         [Add entry] \<Rightarrow> Done (next_id = 1 \<and> next_scheduled_advance (id_counters stage) = 1 \<and>
                              entry_principal entry = System \<and> caps_ceiling entry = all_caps)
       | _ \<Rightarrow> Panic)"

definition test_dispatch_send_signal_stages_pending_without_speculative_refcount :: "bool outcome" where
  "test_dispatch_send_signal_stages_pending_without_speculative_refcount =
     obind (dispatch_system (SendSignal (qid 1) (RouteId 42) (bytes_of_string ''hello'')) (Tick 0) (StepStage_default, 0)) (\<lambda>(stage, next_id).
       Done (length (pending_signals stage) = 1))"

definition test_dispatch_send_signal_twice_stages_two_pending :: "bool outcome" where
  "test_dispatch_send_signal_twice_stages_two_pending =
     obind (ofold (\<lambda>_ st. dispatch_system (SendSignal (qid 1) (RouteId 42) []) (Tick 0) st) [0, 1, 2 :: nat] (StepStage_default, 0)) (\<lambda>(stage, next_id).
       Done (length (pending_signals stage) = 3))"

lemmas dispatch_eval = auth_system_def dispatch_system_def dispatch_def authorize_def Effect_new_def contains_def SYSTEM_def stage_eval

lemma passes_dispatch_spawn_entity_pushes_state_op_ledger_and_advances_counter: "test_dispatch_spawn_entity_pushes_state_op_ledger_and_advances_counter = Done True"
  by (simp add: test_dispatch_spawn_entity_pushes_state_op_ledger_and_advances_counter_def dispatch_eval)

lemma passes_dispatch_despawn_entity_pushes_state_and_ledger_remove: "test_dispatch_despawn_entity_pushes_state_and_ledger_remove = Done True"
  by (simp add: test_dispatch_despawn_entity_pushes_state_and_ledger_remove_def dispatch_eval)

lemma passes_dispatch_set_component_pushes_state_and_ledger_add: "test_dispatch_set_component_pushes_state_and_ledger_add = Done True"
  by (simp add: test_dispatch_set_component_pushes_state_and_ledger_add_def dispatch_eval)

lemma passes_dispatch_remove_component_pushes_state_and_ledger_remove: "test_dispatch_remove_component_pushes_state_and_ledger_remove = Done True"
  by (simp add: test_dispatch_remove_component_pushes_state_and_ledger_remove_def dispatch_eval)

lemma passes_dispatch_emit_event_pushes_kernel_event: "test_dispatch_emit_event_pushes_kernel_event = Done True"
  by (simp add: test_dispatch_emit_event_pushes_kernel_event_def dispatch_eval)

lemma passes_dispatch_schedule_action_advances_id_and_pushes_delta: "test_dispatch_schedule_action_advances_id_and_pushes_delta = Done True"
  by (simp add: test_dispatch_schedule_action_advances_id_and_pushes_delta_def dispatch_eval)

lemma passes_dispatch_send_signal_stages_pending_without_speculative_refcount: "test_dispatch_send_signal_stages_pending_without_speculative_refcount = Done True"
  by (simp add: test_dispatch_send_signal_stages_pending_without_speculative_refcount_def dispatch_eval)

lemma passes_dispatch_send_signal_twice_stages_two_pending: "test_dispatch_send_signal_twice_stages_two_pending = Done True"
  by (simp add: test_dispatch_send_signal_twice_stages_two_pending_def dispatch_eval)

section \<open>\<open>runtime/apply.rs\<close>\<close>

definition apply_cfg :: InstanceConfig where
  "apply_cfg = \<lparr>default_caps = 0, max_entities = 100, max_scheduled = 1000, max_inbox_per_route = 16,
     memory_budget_bytes = push_bit 20 1, config_parent = None, quota_reduction = Reject\<rparr>"

definition fresh :: Instance where
  "fresh = Instance_new (qid 1) apply_cfg"

definition spawn_delta :: "u64 \<Rightarrow> StagedStateDelta" where
  "spawn_delta n = StagedSpawnEntity (e n) \<lparr>meta_owner = System, meta_created = Tick 0\<rparr>"

text \<open>The tests keep the instance and drop the returned signals.\<close>

definition applied :: "StepStage \<Rightarrow> Instance \<Rightarrow> Instance outcome" where
  "applied stage inst = obind (apply_stage stage inst) (\<lambda>(_, inst', _). Done inst')"

definition test_apply_empty_stage_leaves_instance_untouched :: "bool outcome" where
  "test_apply_empty_stage_leaves_instance_untouched =
     obind (applied StepStage_default fresh) (\<lambda>inst.
       Done (entities_len inst = 0 \<and> components_len inst = 0 \<and> local_tick inst = 0 \<and> wall_remainder inst = 0 \<and>
             total_entities (inst_ledger inst) = 0 \<and> next_entity (inst_counters inst) = 0))"

definition test_apply_spawn_entity :: "bool outcome" where
  "test_apply_spawn_entity =
     obind (applied (StepStage_default\<lparr>state_ops := [spawn_delta 1]\<rparr>) fresh) (\<lambda>inst. Done (entities_len inst = 1))"

definition test_apply_despawn_entity :: "bool outcome" where
  "test_apply_despawn_entity =
     obind (applied (StepStage_default\<lparr>state_ops := [spawn_delta 1]\<rparr>) fresh) (\<lambda>inst.
     obind (applied (StepStage_default\<lparr>state_ops := [StagedDespawnEntity (e 1)]\<rparr>) inst) (\<lambda>inst'.
       Done (entities_len inst = 1 \<and> entities_len inst' = 0)))"

definition test_apply_set_and_remove_component :: "bool outcome" where
  "test_apply_set_and_remove_component =
     obind (applied (StepStage_default\<lparr>state_ops := [spawn_delta 1]\<rparr>) fresh) (\<lambda>i0.
     obind (applied (StepStage_default\<lparr>state_ops := [StagedSetComponent (e 1) (TypeCode 7) (bytes_of_string ''data'') 4]\<rparr>) i0) (\<lambda>i1.
     obind (applied (StepStage_default\<lparr>state_ops := [StagedRemoveComponent (e 1) (TypeCode 7) 4]\<rparr>) i1) (\<lambda>i2.
       Done (components_len i1 = 1 \<and> components_len i2 = 0))))"

definition test_apply_set_component_on_unknown_entity_is_noop :: "bool outcome" where
  "test_apply_set_component_on_unknown_entity_is_noop =
     obind (applied (StepStage_default\<lparr>state_ops := [StagedSetComponent (e 999) (TypeCode 7) (bytes_of_string ''orphan'') 6],
                                      ledger_delta := [LedgerAddComponent (e 999) (TypeCode 7) 6]\<rparr>) fresh) (\<lambda>inst.
       Done (components_len inst = 0 \<and> total_bytes (inst_ledger inst) = 0 \<and> component (e 999) (TypeCode 7) inst = None))"

definition test_apply_spawn_then_set_in_same_stage_stores_component :: "bool outcome" where
  "test_apply_spawn_then_set_in_same_stage_stores_component =
     obind (applied (StepStage_default\<lparr>state_ops := [spawn_delta 5, StagedSetComponent (e 5) (TypeCode 7) (bytes_of_string ''data'') 4],
                                      ledger_delta := [LedgerAddEntity (e 5), LedgerAddComponent (e 5) (TypeCode 7) 4]\<rparr>) fresh) (\<lambda>inst.
       Done (components_len inst = 1 \<and> total_bytes (inst_ledger inst) = 4))"

definition test_apply_ledger_delta_balanced :: "bool outcome" where
  "test_apply_ledger_delta_balanced =
     obind (applied (StepStage_default\<lparr>ledger_delta := [LedgerAddEntity (e 1), LedgerAddComponent (e 1) (TypeCode 1) 100]\<rparr>) fresh) (\<lambda>inst.
       Done (total_entities (inst_ledger inst) = 1 \<and> total_bytes (inst_ledger inst) = 100 \<and>
             entity_bytes (e 1) (inst_ledger inst) = 100))"

definition test_apply_id_counters_advance :: "bool outcome" where
  "test_apply_id_counters_advance =
     obind (applied (StepStage_default\<lparr>id_counters :=
              \<lparr>next_entity_advance = 5, next_scheduled_advance = 3, next_source_seq_advance = 7\<rparr>\<rparr>) fresh) (\<lambda>inst.
       Done (next_entity (inst_counters inst) = 5 \<and> next_scheduled (inst_counters inst) = 3 \<and>
             next_source_seq (inst_counters inst) = 7))"

definition test_apply_wall_and_local_tick_advance :: "bool outcome" where
  "test_apply_wall_and_local_tick_advance =
     obind (applied (StepStage_default\<lparr>wall_remainder_delta := 12345, local_tick_delta := 7\<rparr>) fresh) (\<lambda>inst.
       Done (wall_remainder inst = 12345 \<and> local_tick inst = 7))"

definition test_apply_schedule_delta_add_inserts_into_scheduler :: "bool outcome" where
  "test_apply_schedule_delta_add_inserts_into_scheduler =
     obind (applied (StepStage_default\<lparr>schedule_deltas :=
              [Add \<lparr>entry_id = the (ScheduledActionId_new 1), entry_at = Tick 10, entry_actor = None, entry_principal = System,
                    action_type_code = TypeCode 0, action_bytes = [1, 2, 3], caps_ceiling = all_caps\<rparr>]\<rparr>) fresh) (\<lambda>inst.
       Done (sched_len (inst_scheduler inst) = 1))"

definition test_apply_then_clear_reuse_is_state_clean :: "bool outcome" where
  "test_apply_then_clear_reuse_is_state_clean =
     (let fill = (\<lambda>n stage. stage\<lparr>state_ops := state_ops stage @ [spawn_delta n],
                                   ledger_delta := ledger_delta stage @ [LedgerAddEntity (e n)], local_tick_delta := 1\<rparr>)
      in obind (apply_stage (fill 1 StepStage_default) fresh) (\<lambda>(_, i1, scratch).
         obind (apply_stage (fill 2 (stage_clear scratch)) i1) (\<lambda>(_, i2, _).
           Done (entities_len i2 = 2 \<and> total_entities (inst_ledger i2) = 2 \<and> local_tick i2 = 2))))"

lemmas apply_eval = applied_def fresh_def apply_cfg_def spawn_delta_def Instance_new_def IdCounters_default_def apply_stage_def
  apply_counters_def insert_entity_def inst_remove_entity_def insert_component_def inst_remove_component_def entity_meta_def
  component_def entities_len_def components_len_def advance_wall_remainder_def advance_local_tick_def Scheduler_new_def
  schedule_with_id_def index_insert_def sched_len_def stage_eval

lemma passes_apply_empty_stage_leaves_instance_untouched: "test_apply_empty_stage_leaves_instance_untouched = Done True"
  by (simp add: test_apply_empty_stage_leaves_instance_untouched_def apply_eval)

lemma passes_apply_spawn_entity: "test_apply_spawn_entity = Done True"
  by (simp add: test_apply_spawn_entity_def apply_eval)

lemma passes_apply_despawn_entity: "test_apply_despawn_entity = Done True"
  by (simp add: test_apply_despawn_entity_def apply_eval)

lemma passes_apply_set_and_remove_component: "test_apply_set_and_remove_component = Done True"
  by (simp add: test_apply_set_and_remove_component_def apply_eval)

lemma passes_apply_set_component_on_unknown_entity_is_noop: "test_apply_set_component_on_unknown_entity_is_noop = Done True"
  by (simp add: test_apply_set_component_on_unknown_entity_is_noop_def apply_eval)

lemma passes_apply_spawn_then_set_in_same_stage_stores_component: "test_apply_spawn_then_set_in_same_stage_stores_component = Done True"
  by (simp add: test_apply_spawn_then_set_in_same_stage_stores_component_def apply_eval)

lemma passes_apply_ledger_delta_balanced: "test_apply_ledger_delta_balanced = Done True"
  by (simp add: test_apply_ledger_delta_balanced_def apply_eval)

lemma passes_apply_id_counters_advance: "test_apply_id_counters_advance = Done True"
  by (simp add: test_apply_id_counters_advance_def apply_eval)

lemma passes_apply_wall_and_local_tick_advance: "test_apply_wall_and_local_tick_advance = Done True"
  by (simp add: test_apply_wall_and_local_tick_advance_def apply_eval)

lemma passes_apply_schedule_delta_add_inserts_into_scheduler: "test_apply_schedule_delta_add_inserts_into_scheduler = Done True"
  by (simp add: test_apply_schedule_delta_add_inserts_into_scheduler_def apply_eval)

lemma passes_apply_then_clear_reuse_is_state_clean: "test_apply_then_clear_reuse_is_state_clean = Done True"
  by (simp add: test_apply_then_clear_reuse_is_state_clean_def apply_eval)

section \<open>\<open>runtime/observer.rs\<close> and \<open>event.rs\<close>\<close>

datatype TestObserver = CountingObserver u32 | PanicObserver

fun test_on_event :: "TestObserver \<Rightarrow> KernelEvent \<Rightarrow> TestObserver option" where
  "test_on_event (CountingObserver n) event = Some (CountingObserver (n + 1))"
| "test_on_event PanicObserver event = None"

definition evt :: KernelEvent where
  "evt = ActionExecuted (qid 1) (TypeCode 1) (Tick 0)"

definition observer_at :: "ObserverHandle \<Rightarrow> 'o ObserverRegistry \<Rightarrow> 'o option" where
  "observer_at h r = map_option slot_observer (fmlookup (slots r) h)"

definition test_register_and_len :: bool where
  "test_register_and_len \<longleftrightarrow>
     (let (h, r) = register (CountingObserver 0) ObserverRegistry_new in observers_len r = 1)"

definition test_deliver_increments_observer_count :: bool where
  "test_deliver_increments_observer_count \<longleftrightarrow>
     (let (h, r) = register (CountingObserver 0) ObserverRegistry_new;
          (_, r1) = deliver test_on_event evt r; (_, r2) = deliver test_on_event evt r1
      in observer_at h r2 = Some (CountingObserver 2))"

definition test_first_panic_evicts_observer :: bool where
  "test_first_panic_evicts_observer \<longleftrightarrow>
     (let (h, r) = register PanicObserver ObserverRegistry_new; (evicted_now, r1) = deliver test_on_event evt r
      in evicted_now = [h] \<and> is_evicted h r1 \<and> observers_len r1 = 0)"

definition test_evicted_observer_does_not_receive_subsequent_events :: bool where
  "test_evicted_observer_does_not_receive_subsequent_events \<longleftrightarrow>
     (let (_, r) = register PanicObserver ObserverRegistry_new; (h, r0) = register (CountingObserver 0) r;
          (_, r1) = deliver test_on_event evt r0; (_, r2) = deliver test_on_event evt r1
      in observer_at h r2 = Some (CountingObserver 2))"

definition test_handles_are_monotonic :: bool where
  "test_handles_are_monotonic \<longleftrightarrow>
     (let (h0, r0) = register (CountingObserver 0) ObserverRegistry_new; (h1, r1) = register (CountingObserver 0) r0
      in h0 < h1)"

definition test_signal_drop_reason_copy_eq :: bool where
  "test_signal_drop_reason_copy_eq \<longleftrightarrow>
     (let r1 = QueueFull; r2 = r1 in r1 = r2 \<and> r1 \<noteq> TargetNotFound)"

definition test_defer_reason_copy_distinct :: bool where
  "test_defer_reason_copy_distinct \<longleftrightarrow> SchedulerBusy \<noteq> BudgetExceeded"

definition test_observer_handle_total_order :: bool where
  "test_observer_handle_total_order \<longleftrightarrow>
     (let h1 = ObserverHandle 1; h2 = ObserverHandle 2 in h1 < h2 \<and> h1 = ObserverHandle 1)"

lemmas observer_eval = evt_def observer_at_def register_def register_filtered_def ObserverRegistry_new_def deliver_def deliver_one_def
  is_evicted_def observers_len_def matches_def contains_def EventMask_ALL_def qid_def InstanceId_new_def eval_simps

lemma passes_register_and_len: "test_register_and_len"
  by (simp add: test_register_and_len_def observer_eval)

lemma passes_deliver_increments_observer_count: "test_deliver_increments_observer_count"
  by (simp add: test_deliver_increments_observer_count_def observer_eval)

lemma passes_first_panic_evicts_observer: "test_first_panic_evicts_observer"
  by (simp add: test_first_panic_evicts_observer_def observer_eval)

lemma passes_evicted_observer_does_not_receive_subsequent_events: "test_evicted_observer_does_not_receive_subsequent_events"
  by (simp add: test_evicted_observer_does_not_receive_subsequent_events_def observer_eval)

lemma passes_handles_are_monotonic: "test_handles_are_monotonic"
  by (simp add: test_handles_are_monotonic_def observer_eval)

lemma passes_signal_drop_reason_copy_eq: "test_signal_drop_reason_copy_eq"
  by (simp add: test_signal_drop_reason_copy_eq_def observer_eval)

lemma passes_defer_reason_copy_distinct: "test_defer_reason_copy_distinct"
  by (simp add: test_defer_reason_copy_distinct_def observer_eval)

lemma passes_observer_handle_total_order: "test_observer_handle_total_order"
  by (simp add: test_observer_handle_total_order_def observer_eval)

section \<open>\<open>runtime/registry.rs\<close>\<close>

text \<open>
  The probe action is a unit struct. Its serde instance is generated code and \<open>postcard\<close> a library: the
  encoder and the decoder are arguments. \<open>postcard\<close> writes no byte for a unit struct, which is what the
  tests rely on.
\<close>

definition unit_codec :: "(unit \<Rightarrow> bytes option) \<Rightarrow> (bytes \<Rightarrow> unit option) \<Rightarrow> bool" where
  "unit_codec ser deser \<longleftrightarrow> ser () = Some [] \<and> deser [] = Some ()"

definition ProbeAction :: "(unit \<Rightarrow> bytes option) \<Rightarrow> (bytes \<Rightarrow> unit option) \<Rightarrow> unit ActionType" where
  "ProbeAction ser deser =
     \<lparr>TYPE_CODE = TypeCode 0xABCD, SCHEMA_VERSION = 1, postcard_to = ser, postcard_from = deser, compute = (\<lambda>_ _. [])\<rparr>"

definition test_registry_register_and_lookup :: "(unit \<Rightarrow> bytes option) \<Rightarrow> (bytes \<Rightarrow> unit option) \<Rightarrow> bool" where
  "test_registry_register_and_lookup ser deser \<longleftrightarrow>
     (let r = register_type (ProbeAction ser deser) ActionRegistry_new
      in registry_len ActionRegistry_new = 0 \<and> registry_len r = 1 \<and>
         (case registry_get (TypeCode 0xABCD) r of None \<Rightarrow> False | Some reg \<Rightarrow> schema_version reg = 1))"

definition test_registry_deserializer_roundtrip :: "(unit \<Rightarrow> bytes option) \<Rightarrow> (bytes \<Rightarrow> unit option) \<Rightarrow> bool outcome" where
  "test_registry_deserializer_roundtrip ser deser =
     obind (expect (registry_get (TypeCode 0xABCD) (register_type (ProbeAction ser deser) ActionRegistry_new))) (\<lambda>reg.
       case deserializer reg 1 [] of
         Inl _ \<Rightarrow> Panic
       | Inr action \<Rightarrow>
           obind (canonical_bytes_dyn action) (\<lambda>_.
             let inst = Instance_new (qid 1) InstanceConfig_default
             in Done (compute_dyn action (ActionContext_new None (Tick 0) (inst_id inst) inst) = [])))"

definition test_registry_unknown_type_code_returns_none :: bool where
  "test_registry_unknown_type_code_returns_none \<longleftrightarrow> registry_get (TypeCode 0xDEAD) ActionRegistry_new = None"

lemmas registry_eval = ProbeAction_def unit_codec_def register_type_def registry_get_def registry_len_def ActionRegistry_new_def
  Action_from_bytes_def to_dyn_def Action_canonical_bytes_def eval_simps

lemma passes_registry_register_and_lookup: "test_registry_register_and_lookup ser deser"
  by (simp add: test_registry_register_and_lookup_def registry_eval)

lemma passes_registry_deserializer_roundtrip:
  assumes "unit_codec ser deser"
  shows "test_registry_deserializer_roundtrip ser deser = Done True"
  using assms by (simp add: test_registry_deserializer_roundtrip_def registry_eval)

lemma passes_registry_unknown_type_code_returns_none: "test_registry_unknown_type_code_returns_none"
  by (simp add: test_registry_unknown_type_code_returns_none_def registry_eval)

end
