(* ===== verification/Conformance_Kernel.thy ===== *)
theory Conformance_Kernel
  imports Conformance_Runtime
begin

text \<open>
  The unit tests of \<open>runtime/kernel.rs\<close> and \<open>runtime/view.rs\<close> that run a kernel without a log, on the
  model. Each test builds a kernel, registers the actions and observers the source defines beside it,
  submits, steps and asserts on the report, the instances and what the observers saw. The serde codecs
  of the test actions are arguments: a unit struct is written as no bytes (\<open>unit_codec\<close>), and the
  decoder of the other structs reads back what the encoder wrote (\<open>codec\<close>).
\<close>

section \<open>Test actions\<close>

definition codec :: "('a \<Rightarrow> bytes option) \<Rightarrow> (bytes \<Rightarrow> 'a option) \<Rightarrow> bool" where
  "codec ser deser \<longleftrightarrow> (\<forall>a. \<exists>bs. ser a = Some bs \<and> deser bs = Some a)"

type_synonym 'a Ser = "'a \<Rightarrow> bytes option"
type_synonym 'a Deser = "bytes \<Rightarrow> 'a option"

definition SpawnOneAction :: "unit Ser \<Rightarrow> unit Deser \<Rightarrow> unit ActionType" where
  "SpawnOneAction ser deser =
     \<lparr>TYPE_CODE = TypeCode 100, SCHEMA_VERSION = 1, postcard_to = ser, postcard_from = deser,
      compute = (\<lambda>_ _. [SpawnEntity (e 42) System])\<rparr>"

definition EmitAction :: "unit Ser \<Rightarrow> unit Deser \<Rightarrow> unit ActionType" where
  "EmitAction ser deser =
     \<lparr>TYPE_CODE = TypeCode 101, SCHEMA_VERSION = 1, postcard_to = ser, postcard_from = deser,
      compute = (\<lambda>_ _. [EmitEvent None (TypeCode 7) (bytes_of_string ''hello'')])\<rparr>"

definition SignalAction :: "unit Ser \<Rightarrow> unit Deser \<Rightarrow> unit ActionType" where
  "SignalAction ser deser =
     \<lparr>TYPE_CODE = TypeCode 102, SCHEMA_VERSION = 1, postcard_to = ser, postcard_from = deser,
      compute = (\<lambda>_ _. [SendSignal (qid 1) (RouteId 1) []])\<rparr>"

definition SpawnThreeAction :: "unit Ser \<Rightarrow> unit Deser \<Rightarrow> unit ActionType" where
  "SpawnThreeAction ser deser =
     \<lparr>TYPE_CODE = TypeCode 103, SCHEMA_VERSION = 1, postcard_to = ser, postcard_from = deser,
      compute = (\<lambda>_ _. map (\<lambda>n. SpawnEntity (e n) System) [1, 2, 3])\<rparr>"

definition OversizedSetAction :: "unit Ser \<Rightarrow> unit Deser \<Rightarrow> unit ActionType" where
  "OversizedSetAction ser deser =
     \<lparr>TYPE_CODE = TypeCode 104, SCHEMA_VERSION = 1, postcard_to = ser, postcard_from = deser,
      compute = (\<lambda>_ _. [SetComponent (e 1) (TypeCode 7) (bytes_of_string ''x'') (- 1)])\<rparr>"

definition PhantomRemovePoisonAction :: "unit Ser \<Rightarrow> unit Deser \<Rightarrow> unit ActionType" where
  "PhantomRemovePoisonAction ser deser =
     \<lparr>TYPE_CODE = TypeCode 105, SCHEMA_VERSION = 1, postcard_to = ser, postcard_from = deser,
      compute = (\<lambda>_ _. [SpawnEntity (e 1) System, RemoveComponent (e 1) (TypeCode 99) (- 1),
                        SetComponent (e 1) (TypeCode 8) (bytes_of_string ''a'') 90,
                        SetComponent (e 1) (TypeCode 9) (bytes_of_string ''b'') 90])\<rparr>"

definition SpawnThenScheduleAction :: "unit Ser \<Rightarrow> unit Deser \<Rightarrow> unit ActionType" where
  "SpawnThenScheduleAction ser deser =
     \<lparr>TYPE_CODE = TypeCode 106, SCHEMA_VERSION = 1, postcard_to = ser, postcard_from = deser,
      compute = (\<lambda>_ _. [SpawnEntity (e 1) System, ScheduleAction (Tick 10) None (TypeCode 100) []])\<rparr>"

definition SignalTwiceAction :: "unit Ser \<Rightarrow> unit Deser \<Rightarrow> unit ActionType" where
  "SignalTwiceAction ser deser =
     \<lparr>TYPE_CODE = TypeCode 110, SCHEMA_VERSION = 1, postcard_to = ser, postcard_from = deser,
      compute = (\<lambda>_ _. [SendSignal (qid 1) (RouteId 1) [], SendSignal (qid 1) (RouteId 1) []])\<rparr>"

definition SignalMissingAction :: "unit Ser \<Rightarrow> unit Deser \<Rightarrow> unit ActionType" where
  "SignalMissingAction ser deser =
     \<lparr>TYPE_CODE = TypeCode 111, SCHEMA_VERSION = 1, postcard_to = ser, postcard_from = deser,
      compute = (\<lambda>_ _. [SendSignal (qid 99) (RouteId 1) []])\<rparr>"

definition ScheduleSignalChildAction :: "unit Ser \<Rightarrow> unit Deser \<Rightarrow> unit ActionType" where
  "ScheduleSignalChildAction ser deser =
     \<lparr>TYPE_CODE = TypeCode 112, SCHEMA_VERSION = 1, postcard_to = ser, postcard_from = deser,
      compute = (\<lambda>_ _. [ScheduleAction (Tick 1) None (TYPE_CODE (SignalAction ser deser)) []])\<rparr>"

record SetCompAction =
  sca_size :: u64
  sca_entity_id :: u64

definition SetCompAction_type :: "SetCompAction Ser \<Rightarrow> SetCompAction Deser \<Rightarrow> SetCompAction ActionType" where
  "SetCompAction_type ser deser =
     \<lparr>TYPE_CODE = TypeCode 200, SCHEMA_VERSION = 1, postcard_to = ser, postcard_from = deser,
      compute = (\<lambda>self _. let ent = e (sca_entity_id self)
        in [SpawnEntity ent System,
            SetComponent ent (TypeCode 7) (replicate (unat (sca_size self)) 0) (sca_size self)])\<rparr>"

record TwoSetCompAction =
  tsca_a :: u64
  tsca_b :: u64

definition TwoSetCompAction_type :: "TwoSetCompAction Ser \<Rightarrow> TwoSetCompAction Deser \<Rightarrow> TwoSetCompAction ActionType" where
  "TwoSetCompAction_type ser deser =
     \<lparr>TYPE_CODE = TypeCode 201, SCHEMA_VERSION = 1, postcard_to = ser, postcard_from = deser,
      compute = (\<lambda>self _. [SpawnEntity (e 1) System, SpawnEntity (e 2) System,
        SetComponent (e 1) (TypeCode 7) (replicate (unat (tsca_a self)) 0) (tsca_a self),
        SetComponent (e 2) (TypeCode 7) (replicate (unat (tsca_b self)) 0) (tsca_b self)])\<rparr>"

record SpawnManyAction =
  sma_count :: u64
  sma_type_code :: u32
  sma_size :: u64

definition SpawnManyAction_type :: "SpawnManyAction Ser \<Rightarrow> SpawnManyAction Deser \<Rightarrow> SpawnManyAction ActionType" where
  "SpawnManyAction_type ser deser =
     \<lparr>TYPE_CODE = TypeCode 900, SCHEMA_VERSION = 1, postcard_to = ser, postcard_from = deser,
      compute = (\<lambda>self _. concat (map (\<lambda>n. let ent = e (of_nat n)
        in [SpawnEntity ent System,
            SetComponent ent (TypeCode (sma_type_code self)) (replicate (unat (sma_size self)) 0xAB) (sma_size self)])
        [1..<Suc (unat (sma_count self))]))\<rparr>"

section \<open>Test observers\<close>

record VariantCounters =
  vc_action_executed :: u32
  vc_action_failed :: u32
  vc_domain_event :: u32
  vc_effect_failed :: u32
  vc_other :: u32

definition VariantCounters_default :: VariantCounters where
  "VariantCounters_default =
     \<lparr>vc_action_executed = 0, vc_action_failed = 0, vc_domain_event = 0, vc_effect_failed = 0, vc_other = 0\<rparr>"

definition VariantTallyObserver :: "VariantCounters \<Rightarrow> KernelEvent \<Rightarrow> VariantCounters option" where
  "VariantTallyObserver c event = Some (case event of
       ActionExecuted _ _ _ \<Rightarrow> c\<lparr>vc_action_executed := vc_action_executed c + 1\<rparr>
     | ActionFailed _ _ _ \<Rightarrow> c\<lparr>vc_action_failed := vc_action_failed c + 1\<rparr>
     | DomainEventEmitted _ _ _ _ \<Rightarrow> c\<lparr>vc_domain_event := vc_domain_event c + 1\<rparr>
     | EffectFailed _ _ \<Rightarrow> c\<lparr>vc_effect_failed := vc_effect_failed c + 1\<rparr>
     | _ \<Rightarrow> c\<lparr>vc_other := vc_other c + 1\<rparr>)"

record SignalEventCounters =
  sec_delivered :: u32
  sec_dropped_not_found :: u32
  sec_dropped_queue_full :: u32

definition SignalEventCounters_default :: SignalEventCounters where
  "SignalEventCounters_default = \<lparr>sec_delivered = 0, sec_dropped_not_found = 0, sec_dropped_queue_full = 0\<rparr>"

definition SignalEventCapture :: "SignalEventCounters \<Rightarrow> KernelEvent \<Rightarrow> SignalEventCounters option" where
  "SignalEventCapture c event = Some (case event of
       SignalDelivered _ _ _ \<Rightarrow> c\<lparr>sec_delivered := sec_delivered c + 1\<rparr>
     | SignalDropped _ _ TargetNotFound \<Rightarrow> c\<lparr>sec_dropped_not_found := sec_dropped_not_found c + 1\<rparr>
     | SignalDropped _ _ QueueFull \<Rightarrow> c\<lparr>sec_dropped_queue_full := sec_dropped_queue_full c + 1\<rparr>
     | _ \<Rightarrow> c)"

definition ForceUnloadCapture :: "(RouteId \<times> u32) list \<Rightarrow> KernelEvent \<Rightarrow> (RouteId \<times> u32) list option" where
  "ForceUnloadCapture seen event = Some (case event of ModuleForceUnloaded route live \<Rightarrow> seen @ [(route, live)] | _ \<Rightarrow> seen)"

definition EffectFailedCapture :: "bytes list \<Rightarrow> KernelEvent \<Rightarrow> bytes list option" where
  "EffectFailedCapture seen event = Some (case event of EffectFailed _ reason \<Rightarrow> seen @ [reason] | _ \<Rightarrow> seen)"

definition NullObs :: "unit \<Rightarrow> KernelEvent \<Rightarrow> unit option" where
  "NullObs s event = Some s"

section \<open>Test steps\<close>

text \<open>The arguments every test passes to \<open>submit\<close>, with its result unwrapped.\<close>

definition submit_as :: "'z WalLib_scheme \<Rightarrow> InstanceId \<Rightarrow> Principal \<Rightarrow> TypeCode \<Rightarrow> bytes \<Rightarrow> 'o Kernel \<Rightarrow> 'o Kernel outcome" where
  "submit_as lib iid prin tc bs k =
     obind (submit lib iid prin None SYSTEM (Tick 0) tc bs k) (\<lambda>(r, k'). case r of Inl _ \<Rightarrow> Panic | Inr _ \<Rightarrow> Done k')"

text \<open>\<open>k.instances.get(&inst).unwrap()\<close>.\<close>

definition inst_of :: "InstanceId \<Rightarrow> 'o Kernel \<Rightarrow> Instance outcome" where
  "inst_of iid k = expect (fmlookup (instances k) iid)"

text \<open>The state of the observer behind a handle.\<close>

definition seen_by :: "ObserverHandle \<Rightarrow> 'o Kernel \<Rightarrow> 'o option" where
  "seen_by h k = observer_at h (observers k)"

definition cfg_sys :: InstanceConfig where
  "cfg_sys = InstanceConfig_default\<lparr>default_caps := SYSTEM, max_inbox_per_route := 8\<rparr>"

definition cfg_with_budget :: "u64 \<Rightarrow> InstanceConfig" where
  "cfg_with_budget budget = InstanceConfig_default\<lparr>memory_budget_bytes := budget\<rparr>"

definition ACTION_EXECUTED :: EventMask where "ACTION_EXECUTED = push_bit 0 1"
definition MODULE_FORCE_UNLOADED :: EventMask where "MODULE_FORCE_UNLOADED = push_bit 6 1"
definition DOMAIN_EVENT_EMITTED :: EventMask where "DOMAIN_EVENT_EMITTED = push_bit 9 1"
definition EventMask_default :: EventMask where "EventMask_default = EventMask_ALL"

definition Stats_default :: Stats where
  "Stats_default = \<lparr>instance_count = 0, scheduled_action_count = 0, entity_count = 0, component_byte_count = 0,
     observer_count = 0, wal_record_count = 0\<rparr>"

definition submit_set :: "'z WalLib_scheme \<Rightarrow> SetCompAction Ser \<Rightarrow> SetCompAction Deser \<Rightarrow> InstanceId \<Rightarrow> u64 \<Rightarrow> u64 \<Rightarrow> 'o Kernel \<Rightarrow> 'o Kernel outcome" where
  "submit_set lib ser deser inst sz entity_id k =
     obind (Action_canonical_bytes (SetCompAction_type ser deser) \<lparr>sca_size = sz, sca_entity_id = entity_id\<rparr>) (\<lambda>bs.
       submit_as lib inst System (TYPE_CODE (SetCompAction_type ser deser)) bs k)"

section \<open>Tests of \<open>runtime/kernel.rs\<close>\<close>

definition test_create_instance_returns_monotonic_ids :: "bool outcome" where
  "test_create_instance_returns_monotonic_ids =
     obind (create_instance InstanceConfig_default (Kernel_new :: unit Kernel)) (\<lambda>(i1, k).
     obind (create_instance InstanceConfig_default k) (\<lambda>(i2, k).
     obind (create_instance InstanceConfig_default k) (\<lambda>(i3, k).
       Done (i1 < i2 \<and> i2 < i3 \<and> instance_id_get i1 = 1 \<and> instance_id_get i3 = 3 \<and> instances_len k = 3))))"

definition test_submit_unknown_instance_returns_error :: "'z WalLib_scheme \<Rightarrow> bool outcome" where
  "test_submit_unknown_instance_returns_error lib =
     obind (submit lib (qid 99) System None SYSTEM (Tick 0) (TypeCode 100) [] (Kernel_new :: unit Kernel)) (\<lambda>(r, k).
       Done (r = Inl InstanceNotFound))"

definition test_submit_back_pressures_at_max_scheduled :: "'z WalLib_scheme \<Rightarrow> bool outcome" where
  "test_submit_back_pressures_at_max_scheduled lib =
     (let sub = (\<lambda>inst k. submit lib inst System None SYSTEM (Tick 0) (TypeCode 100) [] k) in
     obind (create_instance (InstanceConfig_default\<lparr>max_scheduled := 2\<rparr>) (Kernel_new :: unit Kernel)) (\<lambda>(inst, k).
     obind (sub inst k) (\<lambda>(r1, k).
     obind (sub inst k) (\<lambda>(r2, k).
     obind (sub inst k) (\<lambda>(r3, k).
       Done (\<not> isl r1 \<and> \<not> isl r2 \<and> r3 = Inl QuotaExceeded))))))"

definition test_step_denies_spawns_past_max_entities :: "'z WalLib_scheme \<Rightarrow> unit Ser \<Rightarrow> unit Deser \<Rightarrow> bool outcome" where
  "test_step_denies_spawns_past_max_entities lib ser deser =
     obind (create_instance (InstanceConfig_default\<lparr>max_entities := 2\<rparr>) (register_action (SpawnThreeAction ser deser) Kernel_new)) (\<lambda>(inst, k).
     obind (submit_as lib inst System (TypeCode 103) [] k) (\<lambda>k.
     obind (step lib NullObs (Tick 0) SYSTEM k) (\<lambda>(report, k).
     obind (inst_of inst k) (\<lambda>i.
       Done (report_applied report = 2 \<and> report_denied report = 1 \<and> entities_len i = 2)))))"

definition test_step_denies_oversized_component_no_budget_bypass :: "'z WalLib_scheme \<Rightarrow> unit Ser \<Rightarrow> unit Deser \<Rightarrow> bool outcome" where
  "test_step_denies_oversized_component_no_budget_bypass lib ser deser =
     obind (create_instance (InstanceConfig_default\<lparr>memory_budget_bytes := 1000\<rparr>) (register_action (OversizedSetAction ser deser) Kernel_new)) (\<lambda>(inst, k).
     obind (submit_as lib inst System (TypeCode 104) [] k) (\<lambda>k.
     obind (step lib NullObs (Tick 0) SYSTEM k) (\<lambda>(report, k).
       Done (report_applied report = 0 \<and> report_denied report = 1))))"

definition test_step_budget_above_i64_max_still_enforced :: "'z WalLib_scheme \<Rightarrow> unit Ser \<Rightarrow> unit Deser \<Rightarrow> bool outcome" where
  "test_step_budget_above_i64_max_still_enforced lib ser deser =
     obind (create_instance (InstanceConfig_default\<lparr>memory_budget_bytes := push_bit 63 1\<rparr>) (register_action (OversizedSetAction ser deser) Kernel_new)) (\<lambda>(inst, k).
     obind (submit_as lib inst System (TypeCode 104) [] k) (\<lambda>k.
     obind (step lib NullObs (Tick 0) SYSTEM k) (\<lambda>(report, k).
       Done (report_applied report = 0 \<and> report_denied report = 1))))"

definition test_step_phantom_remove_does_not_bypass_budget :: "'z WalLib_scheme \<Rightarrow> unit Ser \<Rightarrow> unit Deser \<Rightarrow> bool outcome" where
  "test_step_phantom_remove_does_not_bypass_budget lib ser deser =
     obind (create_instance (InstanceConfig_default\<lparr>memory_budget_bytes := 100\<rparr>) (register_action (PhantomRemovePoisonAction ser deser) Kernel_new)) (\<lambda>(inst, k).
     obind (submit_as lib inst System (TypeCode 105) [] k) (\<lambda>k.
     obind (step lib NullObs (Tick 0) SYSTEM k) (\<lambda>(report, k).
     obind (inst_of inst k) (\<lambda>i.
       Done (report_denied report = 1 \<and> total_bytes (inst_ledger i) = 90)))))"

definition test_step_rollback_does_not_count_applied_effects :: "'z WalLib_scheme \<Rightarrow> unit Ser \<Rightarrow> unit Deser \<Rightarrow> bool outcome" where
  "test_step_rollback_does_not_count_applied_effects lib ser deser =
     (let (h, k0) = register_observer VariantCounters_default (register_action (SpawnThenScheduleAction ser deser) Kernel_new) in
     obind (create_instance InstanceConfig_default (k0)) (\<lambda>(inst, k).
     obind (submit_as lib inst (External (ExternalId 7)) (TypeCode 106) [] k) (\<lambda>k.
     obind (step lib VariantTallyObserver (Tick 0) 0 k) (\<lambda>(report, k).
     obind (inst_of inst k) (\<lambda>i.
       Done (report_applied report = 0 \<and> 1 \<le> report_denied report \<and> entities_len i = 0 \<and> map_option vc_action_executed (seen_by h k) = Some 0))))))"

definition test_submit_then_step_executes_action_and_spawns_entity :: "'z WalLib_scheme \<Rightarrow> unit Ser \<Rightarrow> unit Deser \<Rightarrow> bool outcome" where
  "test_submit_then_step_executes_action_and_spawns_entity lib ser deser =
     obind (create_instance InstanceConfig_default (register_action (SpawnOneAction ser deser) Kernel_new)) (\<lambda>(inst, k).
     obind (submit_as lib inst System (TypeCode 100) [] k) (\<lambda>k.
     obind (step lib NullObs (Tick 5) SYSTEM k) (\<lambda>(report, k).
     obind (inst_of inst k) (\<lambda>i.
       Done (actions_executed report = 1 \<and> report_applied report = 1 \<and> report_denied report = 0 \<and> entities_len i = 1)))))"

definition test_step_with_unknown_type_code_skips_action :: "'z WalLib_scheme \<Rightarrow> bool outcome" where
  "test_step_with_unknown_type_code_skips_action lib =
     obind (create_instance InstanceConfig_default (Kernel_new :: unit Kernel)) (\<lambda>(inst, k).
     obind (submit_as lib inst System (TypeCode 999) [] k) (\<lambda>k.
     obind (step lib NullObs (Tick 5) SYSTEM k) (\<lambda>(report, k).
     obind (inst_of inst k) (\<lambda>i.
       Done (actions_executed report = 1 \<and> report_applied report = 0 \<and> entities_len i = 0)))))"

definition test_observer_receives_action_executed_event :: "'z WalLib_scheme \<Rightarrow> unit Ser \<Rightarrow> unit Deser \<Rightarrow> bool outcome" where
  "test_observer_receives_action_executed_event lib ser deser =
     (let (h, k0) = register_observer (CountingObserver 0) (register_action (SpawnOneAction ser deser) Kernel_new) in
     obind (create_instance InstanceConfig_default (k0)) (\<lambda>(inst, k).
     obind (submit_as lib inst System (TypeCode 100) [] k) (\<lambda>k.
     obind (step lib test_on_event (Tick 5) SYSTEM k) (\<lambda>(report, k).
       Done (seen_by h k = Some (CountingObserver 1))))))"

definition test_observer_receives_domain_event_emitted :: "'z WalLib_scheme \<Rightarrow> unit Ser \<Rightarrow> unit Deser \<Rightarrow> bool outcome" where
  "test_observer_receives_domain_event_emitted lib ser deser =
     (let (h, k0) = register_observer (CountingObserver 0) (register_action (EmitAction ser deser) Kernel_new) in
     obind (create_instance InstanceConfig_default (k0)) (\<lambda>(inst, k).
     obind (submit_as lib inst System (TypeCode 101) [] k) (\<lambda>k.
     obind (step lib test_on_event (Tick 5) SYSTEM k) (\<lambda>(report, k).
       Done (report_domain_events report = 1 \<and> seen_by h k = Some (CountingObserver 2))))))"

definition test_panic_observer_evicted_after_first_event :: "'z WalLib_scheme \<Rightarrow> unit Ser \<Rightarrow> unit Deser \<Rightarrow> bool outcome" where
  "test_panic_observer_evicted_after_first_event lib ser deser =
     (let (h, k0) = register_observer PanicObserver (register_action (SpawnOneAction ser deser) Kernel_new) in
     obind (create_instance InstanceConfig_default (k0)) (\<lambda>(inst, k).
     obind (submit_as lib inst System (TypeCode 100) [] k) (\<lambda>k.
     obind (step lib test_on_event (Tick 5) SYSTEM k) (\<lambda>(report, k).
       Done (1 \<le> report_evicted report \<and> is_evicted h (observers k))))))"

definition test_unauthenticated_principal_denies_all_effects :: "'z WalLib_scheme \<Rightarrow> unit Ser \<Rightarrow> unit Deser \<Rightarrow> bool outcome" where
  "test_unauthenticated_principal_denies_all_effects lib ser deser =
     obind (create_instance InstanceConfig_default (register_action (SpawnOneAction ser deser) Kernel_new)) (\<lambda>(inst, k).
     obind (submit_as lib inst Unauthenticated (TypeCode 100) [] k) (\<lambda>k.
     obind (step lib NullObs (Tick 5) SYSTEM k) (\<lambda>(report, k).
     obind (inst_of inst k) (\<lambda>i.
       Done (report_denied report = 1 \<and> report_applied report = 0 \<and> entities_len i = 0)))))"

definition test_external_without_system_cap_denies_signal :: "'z WalLib_scheme \<Rightarrow> unit Ser \<Rightarrow> unit Deser \<Rightarrow> bool outcome" where
  "test_external_without_system_cap_denies_signal lib ser deser =
     obind (create_instance InstanceConfig_default (register_action (SignalAction ser deser) Kernel_new)) (\<lambda>(inst, k).
     obind (submit_as lib inst (External (ExternalId 7)) (TypeCode 102) [] k) (\<lambda>k.
     obind (step lib NullObs (Tick 5) 0 k) (\<lambda>(report, k).
       Done (report_denied report = 1 \<and> report_applied report = 0))))"

definition test_step_processes_instances_in_ascending_order :: "'z WalLib_scheme \<Rightarrow> unit Ser \<Rightarrow> unit Deser \<Rightarrow> bool outcome" where
  "test_step_processes_instances_in_ascending_order lib ser deser =
     obind (create_instance InstanceConfig_default (register_action (SpawnOneAction ser deser) Kernel_new)) (\<lambda>(i1, k).
     obind (create_instance InstanceConfig_default k) (\<lambda>(i2, k).
     obind (submit_as lib i2 System (TypeCode 100) [] k) (\<lambda>k.
     obind (submit_as lib i1 System (TypeCode 100) [] k) (\<lambda>k.
     obind (step lib NullObs (Tick 5) SYSTEM k) (\<lambda>(report, k).
       Done (actions_executed report = 2 \<and> report_applied report = 2))))))"

definition test_stats_aggregate_reflects_instances_and_scheduler :: "'z WalLib_scheme \<Rightarrow> unit Ser \<Rightarrow> unit Deser \<Rightarrow> bool outcome" where
  "test_stats_aggregate_reflects_instances_and_scheduler lib ser deser =
     (let k0 = register_action (SpawnOneAction ser deser) Kernel_new in
     obind (create_instance InstanceConfig_default k0) (\<lambda>(i1, k).
     obind (create_instance InstanceConfig_default k) (\<lambda>(i2, k).
     (let stats_pre = stats k in
     obind (submit_as lib i1 System (TypeCode 100) [] k) (\<lambda>k.
     obind (submit_as lib i2 System (TypeCode 100) [] k) (\<lambda>k.
     (let stats_queued = stats k in
     obind (step lib NullObs (Tick 1) SYSTEM k) (\<lambda>(report, k).
     (let stats_post = stats k in
       Done (stats k0 = Stats_default \<and> instance_count stats_pre = 2 \<and> scheduled_action_count stats_pre = 0 \<and> entity_count stats_pre = 0 \<and>
             scheduled_action_count stats_queued = 2 \<and> scheduled_action_count stats_post = 0 \<and> entity_count stats_post = 2))))))))))"

definition test_stats_counts_observers :: bool where
  "test_stats_counts_observers \<longleftrightarrow>
     (let (h1, k1) = register_observer () Kernel_new; (h2, k2) = register_observer () k1 in observer_count (stats k2) = 2)"

definition test_force_unload_without_cap_denied :: bool where
  "test_force_unload_without_cap_denied \<longleftrightarrow> fst (force_unload NullObs (RouteId 1) 0 Kernel_new) = Inl CapabilityDenied"

definition test_force_unload_removes_inflight_refs :: "'z WalLib_scheme \<Rightarrow> unit Ser \<Rightarrow> unit Deser \<Rightarrow> bool outcome" where
  "test_force_unload_removes_inflight_refs lib ser deser =
     obind (create_instance (InstanceConfig_default\<lparr>default_caps := SYSTEM\<rparr>) (register_action (SignalAction ser deser) Kernel_new)) (\<lambda>(inst, k).
     obind (submit_as lib inst System (TypeCode 102) [] k) (\<lambda>k.
     obind (step lib NullObs (Tick 0) SYSTEM k) (\<lambda>(report, k).
     obind (inst_of inst k) (\<lambda>i.
     (let (dropped, k) = force_unload NullObs (RouteId 1) ADMIN_UNLOAD k in
     obind (inst_of inst k) (\<lambda>j.
       Done (report_applied report = 1 \<and> inflight_refs_for (RouteId 1) i = 1 \<and> dropped = Inr 1 \<and> inflight_refs_for (RouteId 1) j = 0 \<and> inflight_refs_len j = 0)))))))"

definition test_force_unload_emits_module_unloaded_event :: "'z WalLib_scheme \<Rightarrow> unit Ser \<Rightarrow> unit Deser \<Rightarrow> bool outcome" where
  "test_force_unload_emits_module_unloaded_event lib ser deser =
     (let (h, k0) = register_observer [] (register_action (SignalAction ser deser) Kernel_new) in
     obind (create_instance (InstanceConfig_default\<lparr>default_caps := SYSTEM\<rparr>) (k0)) (\<lambda>(inst, k).
     obind (submit_as lib inst System (TypeCode 102) [] k) (\<lambda>k.
     obind (step lib ForceUnloadCapture (Tick 0) SYSTEM k) (\<lambda>(_, k).
     (let (dropped, k) = force_unload ForceUnloadCapture (RouteId 1) ADMIN_UNLOAD k in
       Done (\<not> isl dropped \<and> seen_by h k = Some [(RouteId 1, 1)]))))))"

definition test_force_unload_no_live_refs_returns_zero :: "bool outcome" where
  "test_force_unload_no_live_refs_returns_zero =
     obind (create_instance InstanceConfig_default Kernel_new) (\<lambda>(_, k).
     (let (dropped, k) = force_unload NullObs (RouteId 99) ADMIN_UNLOAD k in
       Done (dropped = Inr 0)))"

definition test_system_no_longer_blanket_bypasses :: "'z WalLib_scheme \<Rightarrow> unit Ser \<Rightarrow> unit Deser \<Rightarrow> bool outcome" where
  "test_system_no_longer_blanket_bypasses lib ser deser =
     obind (create_instance InstanceConfig_default (register_action (SignalAction ser deser) Kernel_new)) (\<lambda>(inst, k).
     obind (submit_as lib inst System (TypeCode 102) [] k) (\<lambda>k.
     obind (step lib NullObs (Tick 0) SYSTEM k) (\<lambda>(report, k).
       Done (report_denied report = 1 \<and> report_applied report = 0))))"

definition test_signal_delivered_routes_to_inbox :: "'z WalLib_scheme \<Rightarrow> unit Ser \<Rightarrow> unit Deser \<Rightarrow> bool outcome" where
  "test_signal_delivered_routes_to_inbox lib ser deser =
     (let (h, k0) = register_observer SignalEventCounters_default (register_action (SignalAction ser deser) Kernel_new) in
     obind (create_instance cfg_sys (k0)) (\<lambda>(inst, k).
     obind (submit_as lib inst System (TypeCode 102) [] k) (\<lambda>k.
     obind (step lib SignalEventCapture (Tick 0) SYSTEM k) (\<lambda>(report, k).
     obind (inst_of inst k) (\<lambda>i.
       Done (report_applied report = 1 \<and> inbox_len (RouteId 1) i = 1 \<and> inflight_refs_for (RouteId 1) i = 1 \<and> map_option sec_delivered (seen_by h k) = Some 1))))))"

definition test_signal_dropped_target_not_found :: "'z WalLib_scheme \<Rightarrow> unit Ser \<Rightarrow> unit Deser \<Rightarrow> bool outcome" where
  "test_signal_dropped_target_not_found lib ser deser =
     (let (h, k0) = register_observer SignalEventCounters_default (register_action (SignalMissingAction ser deser) Kernel_new) in
     obind (create_instance cfg_sys (k0)) (\<lambda>(inst, k).
     obind (submit_as lib inst System (TypeCode 111) [] k) (\<lambda>k.
     obind (step lib SignalEventCapture (Tick 0) SYSTEM k) (\<lambda>(report, k).
     obind (inst_of inst k) (\<lambda>i.
       Done (report_applied report = 1 \<and> map_option sec_dropped_not_found (seen_by h k) = Some 1 \<and> map_option sec_delivered (seen_by h k) = Some 0 \<and>
             inflight_refs_for (RouteId 1) i = 0))))))"

definition test_signal_dropped_queue_full :: "'z WalLib_scheme \<Rightarrow> unit Ser \<Rightarrow> unit Deser \<Rightarrow> bool outcome" where
  "test_signal_dropped_queue_full lib ser deser =
     (let (h, k0) = register_observer SignalEventCounters_default (register_action (SignalTwiceAction ser deser) Kernel_new) in
     obind (create_instance (InstanceConfig_default\<lparr>default_caps := SYSTEM, max_inbox_per_route := 1\<rparr>) (k0)) (\<lambda>(inst, k).
     obind (submit_as lib inst System (TypeCode 110) [] k) (\<lambda>k.
     obind (step lib SignalEventCapture (Tick 0) SYSTEM k) (\<lambda>(_, k).
     obind (inst_of inst k) (\<lambda>i.
       Done (map_option sec_delivered (seen_by h k) = Some 1 \<and> map_option sec_dropped_queue_full (seen_by h k) = Some 1 \<and>
             inbox_len (RouteId 1) i = 1 \<and> inflight_refs_for (RouteId 1) i = 1))))))"

definition test_cap_time_shift_unrepresentable :: "'z WalLib_scheme \<Rightarrow> unit Ser \<Rightarrow> unit Deser \<Rightarrow> bool outcome" where
  "test_cap_time_shift_unrepresentable lib ser deser =
     obind (create_instance cfg_sys (register_action (SignalAction ser deser) (register_action (ScheduleSignalChildAction ser deser) Kernel_new))) (\<lambda>(inst, k).
     obind (submit_as lib inst System (TypeCode 112) [] k) (\<lambda>k.
     obind (step lib NullObs (Tick 0) SYSTEM k) (\<lambda>(r0, k).
     obind (step lib NullObs (Tick 1) 0 k) (\<lambda>(r1, k).
     obind (inst_of inst k) (\<lambda>i.
       Done (report_applied r0 = 1 \<and> actions_executed r1 = 1 \<and> report_applied r1 = 0 \<and> inbox_len (RouteId 1) i = 0))))))"

definition test_budget_zero_allows_unlimited :: "'z WalLib_scheme \<Rightarrow> SetCompAction Ser \<Rightarrow> SetCompAction Deser \<Rightarrow> bool outcome" where
  "test_budget_zero_allows_unlimited lib ser deser =
     obind (create_instance InstanceConfig_default (register_action (SetCompAction_type ser deser) Kernel_new)) (\<lambda>(inst, k).
     obind (submit_set lib ser deser inst 1000000 1 k) (\<lambda>k.
     obind (step lib NullObs (Tick 0) SYSTEM k) (\<lambda>(report, k).
     obind (inst_of inst k) (\<lambda>i.
       Done (report_applied report = 2 \<and> report_denied report = 0 \<and> components_len i = 1)))))"

definition test_budget_exceeded_denies_op :: "'z WalLib_scheme \<Rightarrow> SetCompAction Ser \<Rightarrow> SetCompAction Deser \<Rightarrow> bool outcome" where
  "test_budget_exceeded_denies_op lib ser deser =
     obind (create_instance (cfg_with_budget 100) (register_action (SetCompAction_type ser deser) Kernel_new)) (\<lambda>(inst, k).
     obind (submit_set lib ser deser inst 500 1 k) (\<lambda>k.
     obind (step lib NullObs (Tick 0) SYSTEM k) (\<lambda>(report, k).
     obind (inst_of inst k) (\<lambda>i.
       Done (report_applied report = 1 \<and> report_denied report = 1 \<and> actions_executed report = 1 \<and> entities_len i = 1 \<and> components_len i = 0)))))"

definition test_budget_at_edge_allows_equal :: "'z WalLib_scheme \<Rightarrow> SetCompAction Ser \<Rightarrow> SetCompAction Deser \<Rightarrow> bool outcome" where
  "test_budget_at_edge_allows_equal lib ser deser =
     obind (create_instance (cfg_with_budget 500) (register_action (SetCompAction_type ser deser) Kernel_new)) (\<lambda>(inst, k).
     obind (submit_set lib ser deser inst 500 1 k) (\<lambda>k.
     obind (step lib NullObs (Tick 0) SYSTEM k) (\<lambda>(report, k).
     obind (inst_of inst k) (\<lambda>i.
       Done (report_applied report = 2 \<and> report_denied report = 0 \<and> components_len i = 1 \<and> total_bytes (inst_ledger i) = 500)))))"

definition test_multi_op_stage_respects_running_delta :: "'z WalLib_scheme \<Rightarrow> TwoSetCompAction Ser \<Rightarrow> TwoSetCompAction Deser \<Rightarrow> bool outcome" where
  "test_multi_op_stage_respects_running_delta lib ser deser =
     obind (create_instance (cfg_with_budget 600) (register_action (TwoSetCompAction_type ser deser) Kernel_new)) (\<lambda>(inst, k).
     obind (Action_canonical_bytes (TwoSetCompAction_type ser deser) \<lparr>tsca_a = 400, tsca_b = 400\<rparr>) (\<lambda>bs.
     obind (submit_as lib inst System (TYPE_CODE (TwoSetCompAction_type ser deser)) bs k) (\<lambda>k.
     obind (step lib NullObs (Tick 0) SYSTEM k) (\<lambda>(report, k).
     obind (inst_of inst k) (\<lambda>i.
       Done (report_applied report = 3 \<and> report_denied report = 1 \<and> entities_len i = 2 \<and> components_len i = 1 \<and> total_bytes (inst_ledger i) = 400))))))"

definition test_effect_failed_event_on_budget_deny :: "'z WalLib_scheme \<Rightarrow> SetCompAction Ser \<Rightarrow> SetCompAction Deser \<Rightarrow> bool outcome" where
  "test_effect_failed_event_on_budget_deny lib ser deser =
     (let (h, k0) = register_observer [] (register_action (SetCompAction_type ser deser) Kernel_new) in
     obind (create_instance (cfg_with_budget 100) (k0)) (\<lambda>(inst, k).
     obind (submit_set lib ser deser inst 500 1 k) (\<lambda>k.
     obind (step lib EffectFailedCapture (Tick 0) SYSTEM k) (\<lambda>(_, k).
       Done (seen_by h k = Some [bytes_of_string ''budget_exceeded''])))))"

definition test_event_mask_default_is_all :: bool where
  "test_event_mask_default_is_all \<longleftrightarrow>
     EventMask_default = EventMask_ALL \<and> contains EventMask_default ACTION_EXECUTED \<and>
     contains EventMask_default DOMAIN_EVENT_EMITTED \<and> contains EventMask_default MODULE_FORCE_UNLOADED"

definition test_register_observer_backward_compat_receives_all :: "'z WalLib_scheme \<Rightarrow> unit Ser \<Rightarrow> unit Deser \<Rightarrow> bool outcome" where
  "test_register_observer_backward_compat_receives_all lib ser deser =
     (let (h, k0) = register_observer VariantCounters_default (register_action (EmitAction ser deser) Kernel_new) in
     obind (create_instance InstanceConfig_default (k0)) (\<lambda>(inst, k).
     obind (submit_as lib inst System (TypeCode 101) [] k) (\<lambda>k.
     obind (step lib VariantTallyObserver (Tick 0) SYSTEM k) (\<lambda>(_, k).
       Done ((case seen_by h k of None \<Rightarrow> False | Some c \<Rightarrow> vc_action_executed c = 1 \<and> vc_domain_event c = 1))))))"

definition test_filter_only_action_executed :: "'z WalLib_scheme \<Rightarrow> unit Ser \<Rightarrow> unit Deser \<Rightarrow> bool outcome" where
  "test_filter_only_action_executed lib ser deser =
     (let (h, k0) = register_observer_filtered VariantCounters_default ACTION_EXECUTED (register_action (EmitAction ser deser) Kernel_new) in
     obind (create_instance InstanceConfig_default (k0)) (\<lambda>(inst, k).
     obind (submit_as lib inst System (TypeCode 101) [] k) (\<lambda>k.
     obind (step lib VariantTallyObserver (Tick 0) SYSTEM k) (\<lambda>(_, k).
       Done ((case seen_by h k of None \<Rightarrow> False | Some c \<Rightarrow> vc_action_executed c = 1 \<and> vc_domain_event c = 0))))))"

definition test_filter_domain_event_only :: "'z WalLib_scheme \<Rightarrow> unit Ser \<Rightarrow> unit Deser \<Rightarrow> bool outcome" where
  "test_filter_domain_event_only lib ser deser =
     (let (h, k0) = register_observer_filtered VariantCounters_default DOMAIN_EVENT_EMITTED (register_action (EmitAction ser deser) Kernel_new) in
     obind (create_instance InstanceConfig_default (k0)) (\<lambda>(inst, k).
     obind (submit_as lib inst System (TypeCode 101) [] k) (\<lambda>k.
     obind (step lib VariantTallyObserver (Tick 0) SYSTEM k) (\<lambda>(_, k).
       Done ((case seen_by h k of None \<Rightarrow> False | Some c \<Rightarrow> vc_action_executed c = 0 \<and> vc_domain_event c = 1))))))"

definition test_multiple_observers_independent_masks :: "'z WalLib_scheme \<Rightarrow> unit Ser \<Rightarrow> unit Deser \<Rightarrow> bool outcome" where
  "test_multiple_observers_independent_masks lib ser deser =
     (let (ha, k0) = register_observer_filtered VariantCounters_default ACTION_EXECUTED (register_action (EmitAction ser deser) Kernel_new) in
     (let (hb, k1) = register_observer_filtered VariantCounters_default DOMAIN_EVENT_EMITTED k0 in
     obind (create_instance InstanceConfig_default (k1)) (\<lambda>(inst, k).
     obind (submit_as lib inst System (TypeCode 101) [] k) (\<lambda>k.
     obind (step lib VariantTallyObserver (Tick 0) SYSTEM k) (\<lambda>(_, k).
       Done ((case seen_by ha k of None \<Rightarrow> False | Some c \<Rightarrow> vc_action_executed c = 1 \<and> vc_domain_event c = 0) \<and> 
             (case seen_by hb k of None \<Rightarrow> False | Some c \<Rightarrow> vc_action_executed c = 0 \<and> vc_domain_event c = 1)))))))"

definition test_filter_empty_mask_receives_nothing :: "'z WalLib_scheme \<Rightarrow> unit Ser \<Rightarrow> unit Deser \<Rightarrow> bool outcome" where
  "test_filter_empty_mask_receives_nothing lib ser deser =
     (let (h, k0) = register_observer_filtered VariantCounters_default 0 (register_action (EmitAction ser deser) Kernel_new) in
     obind (create_instance InstanceConfig_default (k0)) (\<lambda>(inst, k).
     obind (submit_as lib inst System (TypeCode 101) [] k) (\<lambda>k.
     obind (step lib VariantTallyObserver (Tick 0) SYSTEM k) (\<lambda>(_, k).
       Done (seen_by h k = Some VariantCounters_default)))))"

section \<open>Tests of \<open>runtime/view.rs\<close>\<close>

definition boot :: "SpawnManyAction Ser \<Rightarrow> SpawnManyAction Deser \<Rightarrow> (unit Kernel \<times> InstanceId) outcome" where
  "boot ser deser =
     obind (create_instance InstanceConfig_default (register_action (SpawnManyAction_type ser deser) Kernel_new)) (\<lambda>(inst, k). Done (k, inst))"

text \<open>The tests' \<open>submit\<close> followed by the step every one of them takes.\<close>

definition submit_many :: "'z WalLib_scheme \<Rightarrow> SpawnManyAction Ser \<Rightarrow> SpawnManyAction Deser \<Rightarrow> InstanceId \<Rightarrow> SpawnManyAction \<Rightarrow> unit Kernel \<Rightarrow> unit Kernel outcome" where
  "submit_many lib ser deser inst action k =
     obind (Action_canonical_bytes (SpawnManyAction_type ser deser) action) (\<lambda>bs.
       submit_as lib inst System (TYPE_CODE (SpawnManyAction_type ser deser)) bs k)"

definition test_view_none_for_missing_instance :: bool where
  "test_view_none_for_missing_instance \<longleftrightarrow> instance_view (qid 99) (Kernel_new :: unit Kernel) = None"

definition test_view_reflects_entity_count :: "'z WalLib_scheme \<Rightarrow> SpawnManyAction Ser \<Rightarrow> SpawnManyAction Deser \<Rightarrow> bool outcome" where
  "test_view_reflects_entity_count lib ser deser =
     obind (boot ser deser) (\<lambda>(k, inst).
     obind (submit_many lib ser deser inst \<lparr>sma_count = 1, sma_type_code = 7, sma_size = 10\<rparr> k) (\<lambda>k.
     obind (step lib NullObs (Tick 0) SYSTEM k) (\<lambda>(_, k).
     obind (expect (instance_view inst k)) (\<lambda>view.
       Done (view_id view = inst \<and> view_entity_count view = 1 \<and> view_component_count view = 1)))))"

definition test_view_component_bytes_match_set :: "'z WalLib_scheme \<Rightarrow> SpawnManyAction Ser \<Rightarrow> SpawnManyAction Deser \<Rightarrow> bool outcome" where
  "test_view_component_bytes_match_set lib ser deser =
     obind (boot ser deser) (\<lambda>(k, inst).
     obind (submit_many lib ser deser inst \<lparr>sma_count = 1, sma_type_code = 7, sma_size = 4\<rparr> k) (\<lambda>k.
     obind (step lib NullObs (Tick 0) SYSTEM k) (\<lambda>(_, k).
     obind (expect (instance_view inst k)) (\<lambda>view.
     obind (expect (view_component (e 1) (TypeCode 7) view)) (\<lambda>comp.
       Done (comp = [0xAB, 0xAB, 0xAB, 0xAB]))))))"

definition test_view_entities_iter_ascending :: "'z WalLib_scheme \<Rightarrow> SpawnManyAction Ser \<Rightarrow> SpawnManyAction Deser \<Rightarrow> bool outcome" where
  "test_view_entities_iter_ascending lib ser deser =
     obind (boot ser deser) (\<lambda>(k, inst).
     obind (submit_many lib ser deser inst \<lparr>sma_count = 3, sma_type_code = 7, sma_size = 1\<rparr> k) (\<lambda>k.
     obind (step lib NullObs (Tick 0) SYSTEM k) (\<lambda>(_, k).
     obind (expect (instance_view inst k)) (\<lambda>view.
     obind (expect (view_entity_meta (e 2) view)) (\<lambda>meta.
       Done (map (entity_id_get \<circ> fst) (view_entities view) = [1, 2, 3] \<and> meta_owner meta = System \<and> meta_created meta = Tick 0))))))"

definition test_view_components_by_type_filter :: "'z WalLib_scheme \<Rightarrow> SpawnManyAction Ser \<Rightarrow> SpawnManyAction Deser \<Rightarrow> bool outcome" where
  "test_view_components_by_type_filter lib ser deser =
     obind (boot ser deser) (\<lambda>(k, inst).
     obind (submit_many lib ser deser inst \<lparr>sma_count = 2, sma_type_code = 7, sma_size = 1\<rparr> k) (\<lambda>k.
     obind (step lib NullObs (Tick 0) SYSTEM k) (\<lambda>(_, k).
     obind (submit_many lib ser deser inst \<lparr>sma_count = 2, sma_type_code = 8, sma_size = 1\<rparr> k) (\<lambda>k.
     obind (step lib NullObs (Tick 0) SYSTEM k) (\<lambda>(_, k).
     obind (expect (instance_view inst k)) (\<lambda>view.
       Done (view_component_count view = 4 \<and> map (entity_id_get \<circ> fst) (view_components_by_type (TypeCode 7) view) = [1, 2] \<and>
             map (entity_id_get \<circ> fst) (view_components_by_type (TypeCode 8) view) = [1, 2])))))))"

definition test_view_local_tick_updates_after_step :: "'z WalLib_scheme \<Rightarrow> SpawnManyAction Ser \<Rightarrow> SpawnManyAction Deser \<Rightarrow> bool outcome" where
  "test_view_local_tick_updates_after_step lib ser deser =
     obind (boot ser deser) (\<lambda>(k, inst).
     obind (submit_many lib ser deser inst \<lparr>sma_count = 1, sma_type_code = 7, sma_size = 1\<rparr> k) (\<lambda>k.
     obind (expect (instance_view inst k)) (\<lambda>pre.
     obind (step lib NullObs (Tick 0) SYSTEM k) (\<lambda>(_, k).
     obind (expect (instance_view inst k)) (\<lambda>post.
       Done (view_local_tick pre = view_local_tick post))))))"

section \<open>The suites pass\<close>

lemmas action_eval = SpawnOneAction_def EmitAction_def SignalAction_def SpawnThreeAction_def OversizedSetAction_def
  PhantomRemovePoisonAction_def SpawnThenScheduleAction_def SignalTwiceAction_def SignalMissingAction_def
  ScheduleSignalChildAction_def SetCompAction_type_def TwoSetCompAction_type_def SpawnManyAction_type_def
  unit_codec_def register_type_def registry_get_def ActionRegistry_new_def Action_from_bytes_def Action_canonical_bytes_def to_dyn_def

lemmas seen_eval = register_observer_def register_observer_filtered_def seen_by_def VariantTallyObserver_def VariantCounters_default_def
  SignalEventCapture_def SignalEventCounters_default_def ForceUnloadCapture_def EffectFailedCapture_def NullObs_def
  ACTION_EXECUTED_def MODULE_FORCE_UNLOADED_def DOMAIN_EVENT_EMITTED_def EventMask_default_def

lemmas step_eval = step_def step_instance_def process_instance_record_def step_one_core_def pop_due_def run_gates_def gate_op_def
  finish_step_def core_without_effects_def digest_of_def add_result_def StepReport_default_def authorize_def Effect_new_def
  over_budget_def over_entities_def over_scheduled_def dispatch_def deny_def schedule_with_id_def Scheduler_new_def
  index_insert_def index_remove_def sched_len_def deliver_counted_def route_one_def inbox_full_def accept_signal_def
  deliver_signal_def inbox_len_def ActionContext_new_def

lemmas kernel_eval = action_eval seen_eval step_eval Kernel_new_def create_instance_def instances_len_def register_action_def
  submit_as_def submit_set_def submit_many_def boot_def submit_def admit_def inst_of_def InstanceConfig_default_def cfg_sys_def
  cfg_with_budget_def SYSTEM_def ADMIN_UNLOAD_def stats_def Stats_default_def force_unload_def drop_route_def
  inflight_refs_for_def inflight_refs_len_def instance_view_def view_id_def view_entity_count_def view_component_count_def
  view_local_tick_def view_entity_meta_def view_component_def view_entities_def view_components_by_type_def entities_iter_def
  components_by_type_iter_def contains_def apply_eval observer_eval

lemma small_ranges:
  "[Suc 0..<2] = [Suc 0]" "[Suc 0..<3] = [Suc 0, 2]" "[Suc 0..<4] = [Suc 0, 2, 3]"
  "[Suc 0..<Suc 2] = [Suc 0, 2]" "[Suc 0..<Suc 3] = [Suc 0, 2, 3]" "replicate 4 x = [x, x, x, x]"
  by (simp_all add: upt_rec numeral_eq_Suc)

lemma codecE:
  assumes "codec ser deser"
  obtains bs where "ser a = Some bs" "deser bs = Some a"
  using assms by (auto simp: codec_def)

lemma passes_create_instance_returns_monotonic_ids: "test_create_instance_returns_monotonic_ids = Done True"
  by (simp add: test_create_instance_returns_monotonic_ids_def kernel_eval)

lemma passes_submit_unknown_instance_returns_error: "test_submit_unknown_instance_returns_error lib = Done True"
  by (simp add: test_submit_unknown_instance_returns_error_def kernel_eval)

lemma passes_submit_back_pressures_at_max_scheduled: "test_submit_back_pressures_at_max_scheduled lib = Done True"
  by (simp add: test_submit_back_pressures_at_max_scheduled_def kernel_eval)

lemma passes_step_denies_spawns_past_max_entities:
  assumes "unit_codec ser deser"
  shows "test_step_denies_spawns_past_max_entities lib ser deser = Done True"
  using assms by (simp add: test_step_denies_spawns_past_max_entities_def kernel_eval word_le_nat_alt)

lemma passes_step_denies_oversized_component_no_budget_bypass:
  assumes "unit_codec ser deser"
  shows "test_step_denies_oversized_component_no_budget_bypass lib ser deser = Done True"
  using assms by (simp add: test_step_denies_oversized_component_no_budget_bypass_def kernel_eval)

lemma passes_step_budget_above_i64_max_still_enforced:
  assumes "unit_codec ser deser"
  shows "test_step_budget_above_i64_max_still_enforced lib ser deser = Done True"
  using assms by (simp add: test_step_budget_above_i64_max_still_enforced_def kernel_eval)

lemma passes_step_phantom_remove_does_not_bypass_budget:
  assumes "unit_codec ser deser"
  shows "test_step_phantom_remove_does_not_bypass_budget lib ser deser = Done True"
  using assms by (simp add: test_step_phantom_remove_does_not_bypass_budget_def kernel_eval)

lemma passes_step_rollback_does_not_count_applied_effects:
  assumes "unit_codec ser deser"
  shows "test_step_rollback_does_not_count_applied_effects lib ser deser = Done True"
  using assms by (simp add: test_step_rollback_does_not_count_applied_effects_def kernel_eval)

lemma passes_submit_then_step_executes_action_and_spawns_entity:
  assumes "unit_codec ser deser"
  shows "test_submit_then_step_executes_action_and_spawns_entity lib ser deser = Done True"
  using assms by (simp add: test_submit_then_step_executes_action_and_spawns_entity_def kernel_eval)

lemma passes_step_with_unknown_type_code_skips_action: "test_step_with_unknown_type_code_skips_action lib = Done True"
  by (simp add: test_step_with_unknown_type_code_skips_action_def kernel_eval)

lemma passes_observer_receives_action_executed_event:
  assumes "unit_codec ser deser"
  shows "test_observer_receives_action_executed_event lib ser deser = Done True"
  using assms by (simp add: test_observer_receives_action_executed_event_def kernel_eval)

lemma passes_observer_receives_domain_event_emitted:
  assumes "unit_codec ser deser"
  shows "test_observer_receives_domain_event_emitted lib ser deser = Done True"
  using assms by (simp add: test_observer_receives_domain_event_emitted_def kernel_eval)

lemma passes_panic_observer_evicted_after_first_event:
  assumes "unit_codec ser deser"
  shows "test_panic_observer_evicted_after_first_event lib ser deser = Done True"
  using assms by (simp add: test_panic_observer_evicted_after_first_event_def kernel_eval)

lemma passes_unauthenticated_principal_denies_all_effects:
  assumes "unit_codec ser deser"
  shows "test_unauthenticated_principal_denies_all_effects lib ser deser = Done True"
  using assms by (simp add: test_unauthenticated_principal_denies_all_effects_def kernel_eval)

lemma passes_external_without_system_cap_denies_signal:
  assumes "unit_codec ser deser"
  shows "test_external_without_system_cap_denies_signal lib ser deser = Done True"
  using assms by (simp add: test_external_without_system_cap_denies_signal_def kernel_eval)

lemma passes_step_processes_instances_in_ascending_order:
  assumes "unit_codec ser deser"
  shows "test_step_processes_instances_in_ascending_order lib ser deser = Done True"
  using assms by (simp add: test_step_processes_instances_in_ascending_order_def kernel_eval)

lemma passes_stats_aggregate_reflects_instances_and_scheduler:
  assumes "unit_codec ser deser"
  shows "test_stats_aggregate_reflects_instances_and_scheduler lib ser deser = Done True"
  using assms by (simp add: test_stats_aggregate_reflects_instances_and_scheduler_def kernel_eval)

lemma passes_stats_counts_observers: "test_stats_counts_observers"
  by (simp add: test_stats_counts_observers_def kernel_eval)

lemma passes_force_unload_without_cap_denied: "test_force_unload_without_cap_denied"
  by (simp add: test_force_unload_without_cap_denied_def kernel_eval)

lemma passes_force_unload_removes_inflight_refs:
  assumes "unit_codec ser deser"
  shows "test_force_unload_removes_inflight_refs lib ser deser = Done True"
  using assms by (simp add: test_force_unload_removes_inflight_refs_def kernel_eval)

lemma passes_force_unload_emits_module_unloaded_event:
  assumes "unit_codec ser deser"
  shows "test_force_unload_emits_module_unloaded_event lib ser deser = Done True"
  using assms by (simp add: test_force_unload_emits_module_unloaded_event_def kernel_eval)

lemma passes_force_unload_no_live_refs_returns_zero: "test_force_unload_no_live_refs_returns_zero = Done True"
  by (simp add: test_force_unload_no_live_refs_returns_zero_def kernel_eval)

lemma passes_system_no_longer_blanket_bypasses:
  assumes "unit_codec ser deser"
  shows "test_system_no_longer_blanket_bypasses lib ser deser = Done True"
  using assms by (simp add: test_system_no_longer_blanket_bypasses_def kernel_eval)

lemma passes_signal_delivered_routes_to_inbox:
  assumes "unit_codec ser deser"
  shows "test_signal_delivered_routes_to_inbox lib ser deser = Done True"
  using assms by (simp add: test_signal_delivered_routes_to_inbox_def kernel_eval)

lemma passes_signal_dropped_target_not_found:
  assumes "unit_codec ser deser"
  shows "test_signal_dropped_target_not_found lib ser deser = Done True"
  using assms by (simp add: test_signal_dropped_target_not_found_def kernel_eval)

lemma passes_signal_dropped_queue_full:
  assumes "unit_codec ser deser"
  shows "test_signal_dropped_queue_full lib ser deser = Done True"
  using assms by (simp add: test_signal_dropped_queue_full_def kernel_eval)

lemma passes_cap_time_shift_unrepresentable:
  assumes "unit_codec ser deser"
  shows "test_cap_time_shift_unrepresentable lib ser deser = Done True"
  using assms by (simp add: test_cap_time_shift_unrepresentable_def kernel_eval)

lemma passes_budget_zero_allows_unlimited:
  assumes "codec ser deser"
  shows "test_budget_zero_allows_unlimited lib ser deser = Done True"
  by (rule codecE [OF assms, of "\<lparr>sca_size = 1000000, sca_entity_id = 1\<rparr>"]) (simp add: test_budget_zero_allows_unlimited_def kernel_eval)

lemma passes_budget_exceeded_denies_op:
  assumes "codec ser deser"
  shows "test_budget_exceeded_denies_op lib ser deser = Done True"
  by (rule codecE [OF assms, of "\<lparr>sca_size = 500, sca_entity_id = 1\<rparr>"]) (simp add: test_budget_exceeded_denies_op_def kernel_eval)

lemma passes_budget_at_edge_allows_equal:
  assumes "codec ser deser"
  shows "test_budget_at_edge_allows_equal lib ser deser = Done True"
  by (rule codecE [OF assms, of "\<lparr>sca_size = 500, sca_entity_id = 1\<rparr>"]) (simp add: test_budget_at_edge_allows_equal_def kernel_eval)

lemma passes_multi_op_stage_respects_running_delta:
  assumes "codec ser deser"
  shows "test_multi_op_stage_respects_running_delta lib ser deser = Done True"
  by (rule codecE [OF assms, of "\<lparr>tsca_a = 400, tsca_b = 400\<rparr>"]) (simp add: test_multi_op_stage_respects_running_delta_def kernel_eval)

lemma passes_effect_failed_event_on_budget_deny:
  assumes "codec ser deser"
  shows "test_effect_failed_event_on_budget_deny lib ser deser = Done True"
  by (rule codecE [OF assms, of "\<lparr>sca_size = 500, sca_entity_id = 1\<rparr>"]) (simp add: test_effect_failed_event_on_budget_deny_def kernel_eval)

lemma passes_event_mask_default_is_all: "test_event_mask_default_is_all"
  by (simp add: test_event_mask_default_is_all_def kernel_eval)

lemma passes_register_observer_backward_compat_receives_all:
  assumes "unit_codec ser deser"
  shows "test_register_observer_backward_compat_receives_all lib ser deser = Done True"
  using assms by (simp add: test_register_observer_backward_compat_receives_all_def kernel_eval)

lemma passes_filter_only_action_executed:
  assumes "unit_codec ser deser"
  shows "test_filter_only_action_executed lib ser deser = Done True"
  using assms by (simp add: test_filter_only_action_executed_def kernel_eval)

lemma passes_filter_domain_event_only:
  assumes "unit_codec ser deser"
  shows "test_filter_domain_event_only lib ser deser = Done True"
  using assms by (simp add: test_filter_domain_event_only_def kernel_eval)

lemma passes_multiple_observers_independent_masks:
  assumes "unit_codec ser deser"
  shows "test_multiple_observers_independent_masks lib ser deser = Done True"
  using assms by (simp add: test_multiple_observers_independent_masks_def kernel_eval)

lemma passes_filter_empty_mask_receives_nothing:
  assumes "unit_codec ser deser"
  shows "test_filter_empty_mask_receives_nothing lib ser deser = Done True"
  using assms by (simp add: test_filter_empty_mask_receives_nothing_def kernel_eval)

lemma passes_view_none_for_missing_instance: "test_view_none_for_missing_instance"
  by (simp add: test_view_none_for_missing_instance_def kernel_eval)

lemma passes_view_reflects_entity_count:
  assumes "codec ser deser"
  shows "test_view_reflects_entity_count lib ser deser = Done True"
  by (rule codecE [OF assms, of "\<lparr>sma_count = 1, sma_type_code = 7, sma_size = 10\<rparr>"]) (simp add: test_view_reflects_entity_count_def kernel_eval small_ranges word_le_nat_alt)

lemma passes_view_component_bytes_match_set:
  assumes "codec ser deser"
  shows "test_view_component_bytes_match_set lib ser deser = Done True"
  by (rule codecE [OF assms, of "\<lparr>sma_count = 1, sma_type_code = 7, sma_size = 4\<rparr>"]) (simp add: test_view_component_bytes_match_set_def kernel_eval small_ranges word_le_nat_alt)

lemma passes_view_entities_iter_ascending:
  assumes "codec ser deser"
  shows "test_view_entities_iter_ascending lib ser deser = Done True"
  by (rule codecE [OF assms, of "\<lparr>sma_count = 3, sma_type_code = 7, sma_size = 1\<rparr>"]) (simp add: test_view_entities_iter_ascending_def kernel_eval small_ranges word_le_nat_alt)

lemma passes_view_components_by_type_filter:
  assumes "codec ser deser"
  shows "test_view_components_by_type_filter lib ser deser = Done True"
  by (rule codecE [OF assms, of "\<lparr>sma_count = 2, sma_type_code = 7, sma_size = 1\<rparr>"], rule codecE [OF assms, of "\<lparr>sma_count = 2, sma_type_code = 8, sma_size = 1\<rparr>"]) (simp add: test_view_components_by_type_filter_def kernel_eval small_ranges word_le_nat_alt)

lemma passes_view_local_tick_updates_after_step:
  assumes "codec ser deser"
  shows "test_view_local_tick_updates_after_step lib ser deser = Done True"
  by (rule codecE [OF assms, of "\<lparr>sma_count = 1, sma_type_code = 7, sma_size = 1\<rparr>"]) (simp add: test_view_local_tick_updates_after_step_def kernel_eval small_ranges word_le_nat_alt)

end
