(* ===== verification/Conformance_Persist.thy ===== *)
theory Conformance_Persist
  imports Conformance_Kernel
begin

text \<open>
  The unit tests of \<open>persist/signature.rs\<close> and \<open>persist/wal.rs\<close> on the model. The hash, the signature
  schemes and the codecs are parameters, so the suites assume of them what the crates document:
  \<open>ed25519_laws\<close> and \<open>mldsa_laws\<close>, that every record body can be encoded (\<open>encodes_all\<close>), that a log reads
  back as it was written (\<open>wal_codec\<close>), and that digests have 32 bytes (\<open>digest32\<close>). A test whose verdict is
  decided by a library alone (a frozen digest or encoding, the rejection of a forged signature) has no
  counterpart; where a test expects two digests to differ, its lemma says that it passes or that the
  two hashed inputs collide.
\<close>

section \<open>Assumptions on the codecs\<close>

definition wal_codec :: "'z WalLib_scheme \<Rightarrow> bool" where
  "wal_codec lib \<longleftrightarrow> (\<forall>log. \<exists>bs. postcard_wal lib log = Inr bs \<and> postcard_wal_from lib bs = Inr log)"

definition ed25519_key_len :: "'z SigLib_scheme \<Rightarrow> bool" where
  "ed25519_key_len lib \<longleftrightarrow> (\<forall>sk. length (ed25519_public lib sk) = 32)"

text \<open>\<open>unwrap\<close> on a \<open>Result\<close>, and one flipped byte.\<close>

definition unwrap :: "'e + 'a \<Rightarrow> 'a outcome" where
  "unwrap r = (case r of Inl _ \<Rightarrow> Panic | Inr a \<Rightarrow> Done a)"

definition flip_first :: "u8 \<Rightarrow> bytes \<Rightarrow> bytes" where
  "flip_first m bs = bs[0 := bs ! 0 XOR m]"

text \<open>The assumptions of the suites, and what they give as rewrite rules.\<close>

definition good_lib :: "'z WalLib_scheme \<Rightarrow> bool" where
  "good_lib lib \<longleftrightarrow> ed25519_laws lib \<and> mldsa_laws lib \<and> ed25519_key_len lib \<and> encodes_all lib \<and> wal_codec lib \<and>
     (\<forall>key x. length (blake3_keyed lib key x) = 32)"

lemma sig_rules:
  assumes "ed25519_laws lib" and "mldsa_laws lib" and "ed25519_key_len lib"
  obtains msig where "\<And>sk. ed25519_valid_key lib (ed25519_public lib sk)" "\<And>sk msg. length (ed25519_sign lib sk msg) = 64"
    "\<And>sk msg. ed25519_verify_strict lib (ed25519_public lib sk) msg (ed25519_sign lib sk msg)" "\<And>sk. length (ed25519_public lib sk) = 32"
    "\<And>sk. length (mldsa_public lib sk) = 1952" "\<And>sk msg. mldsa_try_sign lib sk msg = Inr (msig sk msg)"
    "\<And>sk msg. length (msig sk msg) = 3309" "\<And>sk msg. mldsa_sig_decodes lib (msig sk msg)"
    "\<And>sk msg. mldsa_verify lib (mldsa_public lib sk) msg (msig sk msg)"
proof -
  from assms(2) obtain msig where "\<And>sk msg. mldsa_try_sign lib sk msg = Inr (msig sk msg) \<and> length (msig sk msg) = 3309 \<and>
      mldsa_sig_decodes lib (msig sk msg) \<and> mldsa_verify lib (mldsa_public lib sk) msg (msig sk msg)"
    unfolding mldsa_laws_def by metis
  with that [of msig] assms show thesis by (simp add: ed25519_laws_def mldsa_laws_def ed25519_key_len_def)
qed

lemma wal_rules:
  assumes "encodes_all lib" and "wal_codec lib"
  obtains enc wenc where "\<And>b. postcard_body lib b = Inr (enc b)" "\<And>log. postcard_wal lib log = Inr (wenc log)"
    "\<And>log. postcard_wal_from lib (wenc log) = Inr log"
proof -
  from assms(1) obtain enc where enc: "\<And>b. postcard_body lib b = Inr (enc b)" unfolding encodes_all_def by metis
  from assms(2) obtain wenc where "\<And>log. postcard_wal lib log = Inr (wenc log) \<and> postcard_wal_from lib (wenc log) = Inr log"
    unfolding wal_codec_def by metis
  with that [of enc wenc] enc show thesis by simp
qed

lemma good_libE:
  assumes "good_lib lib"
  obtains msig enc wenc where "\<And>sk. ed25519_valid_key lib (ed25519_public lib sk)" "\<And>sk msg. length (ed25519_sign lib sk msg) = 64"
    "\<And>sk msg. ed25519_verify_strict lib (ed25519_public lib sk) msg (ed25519_sign lib sk msg)" "\<And>sk. length (ed25519_public lib sk) = 32"
    "\<And>sk. length (mldsa_public lib sk) = 1952" "\<And>sk msg. mldsa_try_sign lib sk msg = Inr (msig sk msg)"
    "\<And>sk msg. length (msig sk msg) = 3309" "\<And>sk msg. mldsa_sig_decodes lib (msig sk msg)"
    "\<And>sk msg. mldsa_verify lib (mldsa_public lib sk) msg (msig sk msg)"
    "\<And>b. postcard_body lib b = Inr (enc b)" "\<And>log. postcard_wal lib log = Inr (wenc log)"
    "\<And>log. postcard_wal_from lib (wenc log) = Inr log" "\<And>key x. length (blake3_keyed lib key x) = 32"
proof -
  have l: "ed25519_laws lib" "mldsa_laws lib" "ed25519_key_len lib" "encodes_all lib" "wal_codec lib"
    "\<And>key x. length (blake3_keyed lib key x) = 32" using assms by (simp_all add: good_lib_def)
  show thesis
  proof (rule sig_rules [OF l(1-3)], goal_cases)
    case (1 msig)
    show thesis by (rule wal_rules [OF l(4,5)]) (rule that; use 1 l(6) in blast)
  qed
qed

section \<open>\<open>persist/signature.rs\<close>\<close>

definition test_none_default_and_no_verifying_key :: "'z SigLib_scheme \<Rightarrow> bool" where
  "test_none_default_and_no_verifying_key lib \<longleftrightarrow>
     (let s = SigNone in verifying_key_bytes s = None \<and> verifying_key_pqc_bytes s = None \<and>
      sign lib s (bytes_of_string ''anything'') = None \<and> sign_hybrid lib s (bytes_of_string ''anything'') = None)"

definition test_ed25519_from_secret_yields_verifying_key :: "'z SigLib_scheme \<Rightarrow> bool outcome" where
  "test_ed25519_from_secret_yields_verifying_key lib =
     (let s = new_ed25519_from_secret lib (replicate 32 7) in
     obind (expect (verifying_key_bytes s)) (\<lambda>vk.
       Done (length vk = 32 \<and> verifying_key_pqc_bytes s = None)))"

definition test_ed25519_sign_is_deterministic :: "'z SigLib_scheme \<Rightarrow> bool outcome" where
  "test_ed25519_sign_is_deterministic lib =
     (let s1 = new_ed25519_from_secret lib (replicate 32 3); s2 = new_ed25519_from_secret lib (replicate 32 3); body = (bytes_of_string ''the body bytes to sign'') in
     obind (expect (sign lib s1 body)) (\<lambda>sig1.
     obind (expect (sign lib s2 body)) (\<lambda>sig2.
       Done (sig1 = sig2))))"

definition test_debug_redacts_signing_key :: "'z SigLib_scheme \<Rightarrow> bool" where
  "test_debug_redacts_signing_key lib \<longleftrightarrow>
     (let dbg = debug_SignatureClass (new_ed25519_from_secret lib (replicate 32 42))
      in str_contains dbg ''<redacted>'' \<and> (\<not> str_contains dbg ''signing_key:'' \<or> str_contains dbg ''<redacted>''))"

definition test_verifier_class_good_signature_validates :: "'z SigLib_scheme \<Rightarrow> bool outcome" where
  "test_verifier_class_good_signature_validates lib =
     (let c = new_ed25519_from_secret lib (replicate 32 29); body = (bytes_of_string ''verifier round-trip body'') in
     obind (expect (verifying_key_bytes c)) (\<lambda>vk.
     obind (expect (sign lib c body)) (\<lambda>sg.
     obind (unwrap (from_header_bytes lib (Some vk) None)) (\<lambda>verifier.
     obind (verify lib verifier body sg) (\<lambda>r.
       Done (r = Inr ()))))))"

definition test_verifier_class_wrong_length_signature_rejected :: "'z SigLib_scheme \<Rightarrow> bool outcome" where
  "test_verifier_class_wrong_length_signature_rejected lib =
     obind (expect (verifying_key_bytes (new_ed25519_from_secret lib (replicate 32 31)))) (\<lambda>vk.
     obind (unwrap (from_header_bytes lib (Some vk) None)) (\<lambda>verifier.
     obind (verify lib verifier (bytes_of_string ''any body'') (replicate 63 0)) (\<lambda>r1.
     obind (verify lib verifier (bytes_of_string ''any body'') (replicate 65 0)) (\<lambda>r2.
       Done (r1 = Inl SigWrongLength \<and> r2 = Inl SigWrongLength)))))"

definition test_ml_dsa_65_software_signer_round_trip :: "'z SigLib_scheme \<Rightarrow> bool outcome" where
  "test_ml_dsa_65_software_signer_round_trip lib =
     (let signer = mldsa_from_seed lib (replicate 32 11); body = (bytes_of_string ''ml-dsa 65 round-trip body'') in
     obind (unwrap (pqc_sign lib signer body)) (\<lambda>sg.
     obind (unwrap (mldsa_verifier_from_bytes (pqc_verifying_key_bytes signer))) (\<lambda>verifier.
       Done (pqc_verify lib verifier body sg = Inr ()))))"

definition test_ml_dsa_65_signature_size_3309_bytes :: "'z SigLib_scheme \<Rightarrow> bool outcome" where
  "test_ml_dsa_65_signature_size_3309_bytes lib =
     obind (unwrap (pqc_sign lib (mldsa_from_seed lib (replicate 32 13)) (bytes_of_string ''size pin''))) (\<lambda>sg.
       Done (length sg = 3309))"

definition test_ml_dsa_65_verifying_key_size_1952_bytes :: "'z SigLib_scheme \<Rightarrow> bool" where
  "test_ml_dsa_65_verifying_key_size_1952_bytes lib \<longleftrightarrow>
     (length (pqc_verifying_key_bytes (mldsa_from_seed lib (replicate 32 17))) = 1952)"

definition test_hybrid_signature_class_construct :: "'z SigLib_scheme \<Rightarrow> bool outcome" where
  "test_hybrid_signature_class_construct lib =
     (let s = new_hybrid_from_secrets lib (replicate 32 23) (replicate 32 29); body = (bytes_of_string ''hybrid construct body'') in
     obind (expect (verifying_key_bytes s)) (\<lambda>vk_ed.
     obind (expect (verifying_key_pqc_bytes s)) (\<lambda>vk_pqc.
     obind (expect (sign_hybrid lib s body)) (\<lambda>h.
       Done (is_SigHybrid s \<and> length vk_ed = 32 \<and> length vk_pqc = 1952 \<and> length (hyb_ed25519 h) = 64 \<and> length (hyb_pqc h) = 3309)))))"

lemmas sig_eval = unwrap_def new_ed25519_from_secret_def new_hybrid_from_secrets_def mldsa_from_seed_def from_header_bytes_def verify_ed25519_def
  mldsa_verifier_from_bytes_def pqc_verify_def pqc_sign_def pqc_verifying_key_bytes_def Let_def

lemma redacted_in: "str_contains (debug_SignatureClass (SigEd25519 sk vk)) ''<redacted>''"
proof -
  have "debug_SignatureClass (SigEd25519 sk vk) =
      (''SignatureClass::Ed25519 { verifying_key: '' @ debug_bytes vk @ '', signing_key: '') @ ''<redacted>'' @ '' }''" by simp
  then show ?thesis unfolding str_contains_def by (metis sublist_appendI)
qed

lemma flip_first_differs: "length bs = 32 \<Longrightarrow> m \<noteq> 0 \<Longrightarrow> flip_first m bs \<noteq> bs"
proof
  assume l: "length bs = 32" and "m \<noteq> 0" and "flip_first m bs = bs"
  then have "bs[0 := bs ! 0 XOR m] ! 0 = bs ! 0" by (simp add: flip_first_def)
  moreover have "0 < length bs" using l by simp
  ultimately have "bs ! 0 XOR m = bs ! 0" by simp
  then have "bs ! 0 XOR (bs ! 0 XOR m) = bs ! 0 XOR bs ! 0" by simp
  then have "m = 0" by (simp add: xor.assoc [symmetric])
  with \<open>m \<noteq> 0\<close> show False by simp
qed

lemma passes_none_default_and_no_verifying_key:
  assumes "ed25519_laws lib" and "mldsa_laws lib" and "ed25519_key_len lib"
  shows "test_none_default_and_no_verifying_key lib"
  by (rule sig_rules [OF assms]) (simp add: test_none_default_and_no_verifying_key_def sig_eval)

lemma passes_ed25519_from_secret_yields_verifying_key:
  assumes "ed25519_laws lib" and "mldsa_laws lib" and "ed25519_key_len lib"
  shows "test_ed25519_from_secret_yields_verifying_key lib = Done True"
  by (rule sig_rules [OF assms]) (simp add: test_ed25519_from_secret_yields_verifying_key_def sig_eval)

lemma passes_ed25519_sign_is_deterministic:
  assumes "ed25519_laws lib" and "mldsa_laws lib" and "ed25519_key_len lib"
  shows "test_ed25519_sign_is_deterministic lib = Done True"
  by (rule sig_rules [OF assms]) (simp add: test_ed25519_sign_is_deterministic_def sig_eval)

lemma passes_debug_redacts_signing_key:
  assumes "ed25519_laws lib" and "mldsa_laws lib" and "ed25519_key_len lib"
  shows "test_debug_redacts_signing_key lib"
  by (rule sig_rules [OF assms]) (simp add: test_debug_redacts_signing_key_def sig_eval redacted_in del: debug_SignatureClass.simps)

lemma passes_verifier_class_good_signature_validates:
  assumes "ed25519_laws lib" and "mldsa_laws lib" and "ed25519_key_len lib"
  shows "test_verifier_class_good_signature_validates lib = Done True"
  by (rule sig_rules [OF assms]) (simp add: test_verifier_class_good_signature_validates_def sig_eval)

lemma passes_verifier_class_wrong_length_signature_rejected:
  assumes "ed25519_laws lib" and "mldsa_laws lib" and "ed25519_key_len lib"
  shows "test_verifier_class_wrong_length_signature_rejected lib = Done True"
  by (rule sig_rules [OF assms]) (simp add: test_verifier_class_wrong_length_signature_rejected_def sig_eval)

lemma passes_ml_dsa_65_software_signer_round_trip:
  assumes "ed25519_laws lib" and "mldsa_laws lib" and "ed25519_key_len lib"
  shows "test_ml_dsa_65_software_signer_round_trip lib = Done True"
  by (rule sig_rules [OF assms]) (simp add: test_ml_dsa_65_software_signer_round_trip_def sig_eval)

lemma passes_ml_dsa_65_signature_size_3309_bytes:
  assumes "ed25519_laws lib" and "mldsa_laws lib" and "ed25519_key_len lib"
  shows "test_ml_dsa_65_signature_size_3309_bytes lib = Done True"
  by (rule sig_rules [OF assms]) (simp add: test_ml_dsa_65_signature_size_3309_bytes_def sig_eval)

lemma passes_ml_dsa_65_verifying_key_size_1952_bytes:
  assumes "ed25519_laws lib" and "mldsa_laws lib" and "ed25519_key_len lib"
  shows "test_ml_dsa_65_verifying_key_size_1952_bytes lib"
  by (rule sig_rules [OF assms]) (simp add: test_ml_dsa_65_verifying_key_size_1952_bytes_def sig_eval)

lemma passes_hybrid_signature_class_construct:
  assumes "ed25519_laws lib" and "mldsa_laws lib" and "ed25519_key_len lib"
  shows "test_hybrid_signature_class_construct lib = Done True"
  by (rule sig_rules [OF assms]) (simp add: test_hybrid_signature_class_construct_def sig_eval)

section \<open>\<open>persist/wal.rs\<close>\<close>

definition world :: bytes where "world = replicate 32 7"
definition manifest :: bytes where "manifest = replicate 32 3"
definition sid :: "u64 \<Rightarrow> ScheduledActionId" where "sid n = the (ScheduledActionId_new n)"

text \<open>The result of an append, unwrapped, with the writer.\<close>

definition ok :: "('e + 'a) \<times> 'w \<Rightarrow> ('a \<times> 'w) outcome" where
  "ok r = (case r of (Inl _, _) \<Rightarrow> Panic | (Inr a, w) \<Rightarrow> Done (a, w))"

definition submit_one :: "'z WalLib_scheme \<Rightarrow> WalWriter \<Rightarrow> WalWriter outcome" where
  "submit_one lib w =
     obind (ok (append_submit lib (qid 1) System None 0xFF (Tick 0) (TypeCode 100) [1, 2, 3] (sid 1) w)) (\<lambda>(_, w'). Done w')"

definition step_n :: "'z WalLib_scheme \<Rightarrow> u8 \<Rightarrow> WalWriter \<Rightarrow> WalWriter outcome" where
  "step_n lib n w =
     obind (ok (append_step lib (qid 1) (sid 1) (Tick (ucast n)) 0xFF Committed (replicate 32 n) w)) (\<lambda>(_, w'). Done w')"

definition append_one :: "'z WalLib_scheme \<Rightarrow> WalWriter \<Rightarrow> WalWriter outcome" where
  "append_one lib w = step_n lib 1 w"

text \<open>Editing one record of a sealed log.\<close>

definition tamper :: "nat \<Rightarrow> (WalRecord \<Rightarrow> WalRecord) \<Rightarrow> Wal \<Rightarrow> Wal" where
  "tamper i f log = log\<lparr>records := (records log)[i := f (records log ! i)]\<rparr>"

fun flip_digest :: "WalRecordContent \<Rightarrow> WalRecordContent" where
  "flip_digest (Step seq inst pid now caps v d) = Step seq inst pid now caps v (flip_first 0xFF d)"
| "flip_digest c = c"

fun links_each :: "bytes \<Rightarrow> WalRecord list \<Rightarrow> bool" where
  "links_each prev [] = True"
| "links_each prev (rec # recs) = (prev_chain_hash rec = prev \<and> links_each (this_chain_hash rec) recs)"

definition TrustAnchor_default :: TrustAnchor where
  "TrustAnchor_default = \<lparr>min_tier = None, anchor_ed25519_key = None, anchor_mldsa_key = None,
     expected_manifest_digest = None, expected_chain_tip = None\<rparr>"

definition test_empty_writer_serializes_and_deserializes :: "'z WalLib_scheme \<Rightarrow> bool outcome" where
  "test_empty_writer_serializes_and_deserializes lib =
     (let w = WalWriter_new lib world manifest in
     (let log = from_writer w in
     obind (unwrap (serialize lib log)) (\<lambda>bs.
     obind (unwrap (deserialize lib bs)) (\<lambda>back.
       Done (header back = header log \<and> records back = [] \<and> chain_tip back = zero32)))))"

definition test_multi_record_chain_links_each_record :: "'z WalLib_scheme \<Rightarrow> bool outcome" where
  "test_multi_record_chain_links_each_record lib =
     (let w = WalWriter_new lib world manifest in
     obind (ofold (step_n lib) [0, 1, 2, 3, 4] w) (\<lambda>w.
     (let log = from_writer w in
     obind (verify_chain lib world log) (\<lambda>v.
       Done (length (records log) = 5 \<and> links_each zero32 (records log) \<and> v = Inr ())))))"

definition test_submit_and_step_chain_verifies :: "'z WalLib_scheme \<Rightarrow> bool outcome" where
  "test_submit_and_step_chain_verifies lib =
     (let w = WalWriter_new lib world manifest in
     obind (submit_one lib w) (\<lambda>w.
     obind (step_n lib 2 w) (\<lambda>w.
     (let log = from_writer w in
     obind (verify_chain lib world log) (\<lambda>v.
       Done (map record_kind (records log) = [KindSubmit, KindStep] \<and> map record_seq (records log) = [1, 2] \<and> v = Inr ()))))))"

definition test_tampered_step_body_breaks_verify_chain :: "'z WalLib_scheme \<Rightarrow> bool outcome" where
  "test_tampered_step_body_breaks_verify_chain lib =
     (let w = WalWriter_new lib world manifest in
     obind (ofold (step_n lib) [0, 1, 2] w) (\<lambda>w.
     (let log = tamper 1 (\<lambda>rec. rec\<lparr>content := flip_digest (content rec)\<rparr>) (from_writer w) in
     obind (verify_chain lib world log) (\<lambda>v.
       Done ((\<exists>i. v = Inl (HashMismatch i)))))))"

definition test_verify_chain_detects_broken_prev_link :: "'z WalLib_scheme \<Rightarrow> bool outcome" where
  "test_verify_chain_detects_broken_prev_link lib =
     (let w = WalWriter_new lib world manifest in
     obind (ofold (step_n lib) [0, 1, 2] w) (\<lambda>w.
     (let log = tamper 1 (\<lambda>rec. rec\<lparr>prev_chain_hash := flip_first 1 (prev_chain_hash rec)\<rparr>) (from_writer w) in
     obind (verify_chain lib world log) (\<lambda>v.
       Done (v = Inl (ChainBroken 1))))))"

definition test_step_verdict_round_trips :: "'z WalLib_scheme \<Rightarrow> bool outcome" where
  "test_step_verdict_round_trips lib =
     (let w = WalWriter_new lib world manifest in
     obind (ok (append_step lib (qid 1) (sid 1) (Tick 0) 0xFF (BudgetPartial 3) (replicate 32 4) w)) (\<lambda>(_, w).
     (let log = from_writer w in
     obind (unwrap (serialize lib log)) (\<lambda>bs.
     obind (unwrap (deserialize lib bs)) (\<lambda>back.
       Done ((case map content (records back) of [Step _ _ _ _ _ v _] \<Rightarrow> v = BudgetPartial 3 | _ \<Rightarrow> False)))))))"

definition test_submit_record_round_trips_inputs :: "'z WalLib_scheme \<Rightarrow> bool outcome" where
  "test_submit_record_round_trips_inputs lib =
     (let w = WalWriter_new lib world manifest in
     obind (ok (append_submit lib (qid 9) (External (ExternalId 7)) (Some (e 42)) 0xDEADBEEF (Tick 5) (TypeCode 101) [9, 8, 7] (sid 3) w)) (\<lambda>(_, w).
     (let log = from_writer w in
     obind (unwrap (serialize lib log)) (\<lambda>bs.
     obind (unwrap (deserialize lib bs)) (\<lambda>back.
     obind (verify_chain lib world back) (\<lambda>v.
       Done ((case map content (records back) of [Submit _ inst _ a caps _ _ bytes aid] \<Rightarrow>
                inst = qid 9 \<and> a = Some (e 42) \<and> caps = 0xDEADBEEF \<and> aid = sid 3 \<and> bytes = [9, 8, 7] | _ \<Rightarrow> False) \<and> v = Inr ())))))))"

definition test_header_carries_magic_and_versions :: "'z WalLib_scheme \<Rightarrow> bool" where
  "test_header_carries_magic_and_versions lib \<longleftrightarrow>
     (let h = w_header (WalWriter_new lib world manifest)
      in magic h = bytes_of_string ''ARKHEWAL'' \<and> kernel_semver h = (0, 15, 0) \<and> abi_version h = (0, 15) \<and> world_id h = world \<and>
         manifest_digest h = manifest \<and> type_registry_pins h = [] \<and> verifying_key h = None)"

definition test_signature_class_none_produces_no_signature :: "'z WalLib_scheme \<Rightarrow> bool outcome" where
  "test_signature_class_none_produces_no_signature lib =
     (let w = WalWriter_new lib world manifest in
     obind (append_one lib w) (\<lambda>w.
     (let log = from_writer w in
     obind (verify_chain lib world log) (\<lambda>v.
       Done (verifying_key (header log) = None \<and> map signature (records log) = [None] \<and> v = Inr ())))))"

definition test_signature_class_ed25519_signs_each_record :: "'z WalLib_scheme \<Rightarrow> bool outcome" where
  "test_signature_class_ed25519_signs_each_record lib =
     (let w = with_signature lib world manifest (new_ed25519_from_secret lib (replicate 32 7)) in
     obind (ofold (\<lambda>_. append_one lib) [0, 1, 2 :: nat] w) (\<lambda>w.
     (let log = from_writer w in
       Done (verifying_key (header log) \<noteq> None \<and> length (records log) = 3 \<and>
             (\<forall>rec\<in>set (records log). \<exists>sg. signature rec = Some sg \<and> length sg = 64)))))"

definition test_verify_chain_validates_signatures :: "'z WalLib_scheme \<Rightarrow> bool outcome" where
  "test_verify_chain_validates_signatures lib =
     (let w = with_signature lib world manifest (new_ed25519_from_secret lib (replicate 32 11)) in
     obind (ofold (\<lambda>_. append_one lib) [0, 1, 2 :: nat] w) (\<lambda>w.
     (let log = from_writer w in
     obind (unwrap (serialize lib log)) (\<lambda>bs.
     obind (unwrap (deserialize lib bs)) (\<lambda>back.
     obind (verify_chain lib world back) (\<lambda>v.
       Done (v = Inr ())))))))"

definition test_missing_signature_fails_verify_when_header_has_key :: "'z WalLib_scheme \<Rightarrow> bool outcome" where
  "test_missing_signature_fails_verify_when_header_has_key lib =
     (let w = with_signature lib world manifest (new_ed25519_from_secret lib (replicate 32 17)) in
     obind (append_one lib w) (\<lambda>w.
     (let log = tamper 0 (\<lambda>rec. rec\<lparr>signature := None\<rparr>) (from_writer w) in
     obind (verify_chain lib world log) (\<lambda>v.
       Done (v = Inl (MissingSignature 0))))))"

definition test_signature_deterministic_across_runs :: "'z WalLib_scheme \<Rightarrow> bool outcome" where
  "test_signature_deterministic_across_runs lib =
     (let mk = (\<lambda>secret. obind (ofold (\<lambda>_. append_one lib) [0, 1 :: nat] (with_signature lib world manifest (new_ed25519_from_secret lib secret))) (\<lambda>w.
        Done (map signature (records (from_writer w))))) in
     obind (mk (replicate 32 29)) (\<lambda>sigs1.
     obind (mk (replicate 32 29)) (\<lambda>sigs2.
       Done (sigs1 = sigs2 \<and> None \<notin> set sigs1 \<and> map_option length (hd sigs1) = Some 64))))"

definition test_wal_record_persists_actor_for_replay_determinism :: "'z WalLib_scheme \<Rightarrow> bool outcome" where
  "test_wal_record_persists_actor_for_replay_determinism lib =
     (let w = WalWriter_new lib world manifest in
     obind (ok (append_submit lib (qid 1) System (Some (e 42)) 0 (Tick 0) (TypeCode 100) [1, 2, 3] (sid 1) w)) (\<lambda>(_, w).
     (let log = from_writer w in
     obind (verify_chain lib world log) (\<lambda>v.
       Done ((case map content (records log) of [Submit _ _ _ a _ _ _ _ _] \<Rightarrow> a = Some (e 42) | _ \<Rightarrow> False) \<and> v = Inr ())))))"

definition test_verify_chain_anchored_rejects_downgrade_and_substitution :: "'z WalLib_scheme \<Rightarrow> bool outcome" where
  "test_verify_chain_anchored_rejects_downgrade_and_substitution lib =
     (let c = new_ed25519_from_secret lib (replicate 32 7) in
     obind (expect (verifying_key_bytes c)) (\<lambda>vk.
     (let w = with_signature lib world manifest c in
     obind (append_one lib w) (\<lambda>w.
     (let log = from_writer w in
     obind (verify_chain_anchored lib world (TrustAnchor_default\<lparr>min_tier := Some TierEd25519, anchor_ed25519_key := Some vk\<rparr>) log) (\<lambda>good.
     obind (verify_chain_anchored lib world (TrustAnchor_default\<lparr>min_tier := Some TierHybrid\<rparr>) log) (\<lambda>downgrade.
     obind (verify_chain_anchored lib world (TrustAnchor_default\<lparr>min_tier := Some TierEd25519, anchor_ed25519_key := Some (replicate 32 0xAB)\<rparr>) log) (\<lambda>wrong_key.
       Done (good = Inr () \<and> downgrade = Inl TierDowngrade \<and> wrong_key = Inl VerifyingKeyMismatch)))))))))"

definition test_hybrid_writer_emits_both_signatures :: "'z WalLib_scheme \<Rightarrow> bool outcome" where
  "test_hybrid_writer_emits_both_signatures lib =
     (let w = with_signature lib world manifest (new_hybrid_from_secrets lib (replicate 32 7) (replicate 32 11)) in
     obind (ofold (\<lambda>_. append_one lib) [0, 1, 2 :: nat] w) (\<lambda>w.
     (let log = from_writer w in
       Done (map_option length (verifying_key (header log)) = Some 32 \<and> map_option length (verifying_key_pqc (header log)) = Some 1952 \<and>
             length (records log) = 3 \<and> (\<forall>rec\<in>set (records log). map_option length (signature rec) = Some 64 \<and>
               map_option length (signature_pqc rec) = Some 3309)))))"

definition test_hybrid_verify_chain_and_mode_passes_with_both_valid :: "'z WalLib_scheme \<Rightarrow> bool outcome" where
  "test_hybrid_verify_chain_and_mode_passes_with_both_valid lib =
     (let w = with_signature lib world manifest (new_hybrid_from_secrets lib (replicate 32 13) (replicate 32 17)) in
     obind (ofold (\<lambda>_. append_one lib) [0, 1, 2 :: nat] w) (\<lambda>w.
     (let log = from_writer w in
     obind (unwrap (serialize lib log)) (\<lambda>bs.
     obind (unwrap (deserialize lib bs)) (\<lambda>back.
     obind (verify_chain lib world back) (\<lambda>v.
       Done (v = Inr ())))))))"

definition test_hybrid_verify_chain_rejects_missing_pqc :: "'z WalLib_scheme \<Rightarrow> bool outcome" where
  "test_hybrid_verify_chain_rejects_missing_pqc lib =
     (let w = with_signature lib world manifest (new_hybrid_from_secrets lib (replicate 32 19) (replicate 32 23)) in
     obind (append_one lib w) (\<lambda>w.
     (let log = tamper 0 (\<lambda>rec. rec\<lparr>signature_pqc := None\<rparr>) (from_writer w) in
     obind (verify_chain lib world log) (\<lambda>v.
       Done (v = Inl (MissingPqcSignature 0))))))"

definition test_ed25519_only_wal_replays_under_hybrid_kernel :: "'z WalLib_scheme \<Rightarrow> bool outcome" where
  "test_ed25519_only_wal_replays_under_hybrid_kernel lib =
     (let w = with_signature lib world manifest (new_ed25519_from_secret lib (replicate 32 43)) in
     obind (ofold (\<lambda>_. append_one lib) [0, 1, 2 :: nat] w) (\<lambda>w.
     (let log = from_writer w in
     obind (unwrap (serialize lib log)) (\<lambda>bs.
     obind (unwrap (deserialize lib bs)) (\<lambda>back.
     obind (verify_chain lib world back) (\<lambda>v.
       Done (verifying_key (header log) \<noteq> None \<and> verifying_key_pqc (header log) = None \<and>
             (\<forall>rec\<in>set (records log). signature rec \<noteq> None \<and> signature_pqc rec = None) \<and> v = Inr ())))))))"

definition test_pqc_without_ed25519_envelope_rejected :: "'z WalLib_scheme \<Rightarrow> bool outcome" where
  "test_pqc_without_ed25519_envelope_rejected lib =
     (let w = with_signature lib world manifest (new_hybrid_from_secrets lib (replicate 32 47) (replicate 32 53)) in
     (let log = from_writer w in
     obind (verify_chain lib world (log\<lparr>header := (header log)\<lparr>verifying_key := None\<rparr>\<rparr>)) (\<lambda>v.
       Done (v = Inl PqcWithoutEd25519))))"

lemmas wal_eval = world_def manifest_def sid_def ScheduledActionId_new_def qid_def InstanceId_new_def e_def EntityId_new_def ok_def
  submit_one_def step_n_def append_one_def tamper_def TrustAnchor_default_def WalWriter_new_def with_signature_def append_submit_def
  append_step_def push_sealed_def seal_def from_writer_def serialize_def deserialize_def verify_chain_def from_record_def
  from_content_def check_signature_def chain_tip_def record_seq_def record_kind_def verify_chain_anchored_def header_tier_def
  pinned_def map_init_error_def less_SignatureTier_def MAGIC_def CURRENT_KERNEL_SEMVER_def ABI_VERSION_def saturating_add_def sig_eval

lemma passes_empty_writer_serializes_and_deserializes:
  assumes "good_lib lib"
  shows "test_empty_writer_serializes_and_deserializes lib = Done True"
  by (rule good_libE [OF assms]) (simp add: test_empty_writer_serializes_and_deserializes_def wal_eval)

lemma passes_multi_record_chain_links_each_record:
  assumes "good_lib lib"
  shows "test_multi_record_chain_links_each_record lib = Done True"
  by (rule good_libE [OF assms]) (simp add: test_multi_record_chain_links_each_record_def wal_eval)

lemma passes_submit_and_step_chain_verifies:
  assumes "good_lib lib"
  shows "test_submit_and_step_chain_verifies lib = Done True"
  by (rule good_libE [OF assms]) (simp add: test_submit_and_step_chain_verifies_def wal_eval)

text \<open>The step record that \<open>step_n\<close> appends as number \<open>n\<close>.\<close>

definition nth_step :: "u64 \<Rightarrow> u8 \<Rightarrow> WalRecordContent" where
  "nth_step n k = Step n (qid 1) (sid 1) (Tick (ucast k)) 0xFF Committed (replicate 32 k)"

lemma passes_tampered_step_body_breaks_verify_chain:
  assumes "good_lib lib"
  defines "key \<equiv> build_chain_key lib world"
  shows "test_tampered_step_body_breaks_verify_chain lib = Done True \<or>
    (\<exists>h. chain_link lib key zero32 (nth_step 1 0) = Some h \<and>
         chain_link lib key h (nth_step 2 1) = chain_link lib key h (flip_digest (nth_step 2 1)))"
  by (rule good_libE [OF assms(1)])
    (auto simp: test_tampered_step_body_breaks_verify_chain_def nth_step_def chain_link_def key_def wal_eval)

lemma passes_verify_chain_detects_broken_prev_link:
  assumes "good_lib lib"
  shows "test_verify_chain_detects_broken_prev_link lib = Done True"
  by (rule good_libE [OF assms]) (simp add: test_verify_chain_detects_broken_prev_link_def wal_eval flip_first_differs)

lemma passes_step_verdict_round_trips:
  assumes "good_lib lib"
  shows "test_step_verdict_round_trips lib = Done True"
  by (rule good_libE [OF assms]) (simp add: test_step_verdict_round_trips_def wal_eval)

lemma passes_submit_record_round_trips_inputs:
  assumes "good_lib lib"
  shows "test_submit_record_round_trips_inputs lib = Done True"
  by (rule good_libE [OF assms]) (simp add: test_submit_record_round_trips_inputs_def wal_eval)

lemma passes_header_carries_magic_and_versions:
  assumes "good_lib lib"
  shows "test_header_carries_magic_and_versions lib"
  by (rule good_libE [OF assms]) (simp add: test_header_carries_magic_and_versions_def wal_eval)

lemma passes_signature_class_none_produces_no_signature:
  assumes "good_lib lib"
  shows "test_signature_class_none_produces_no_signature lib = Done True"
  by (rule good_libE [OF assms]) (simp add: test_signature_class_none_produces_no_signature_def wal_eval)

lemma passes_signature_class_ed25519_signs_each_record:
  assumes "good_lib lib"
  shows "test_signature_class_ed25519_signs_each_record lib = Done True"
  by (rule good_libE [OF assms]) (simp add: test_signature_class_ed25519_signs_each_record_def wal_eval)

lemma passes_verify_chain_validates_signatures:
  assumes "good_lib lib"
  shows "test_verify_chain_validates_signatures lib = Done True"
  by (rule good_libE [OF assms]) (simp add: test_verify_chain_validates_signatures_def wal_eval)

lemma passes_missing_signature_fails_verify_when_header_has_key:
  assumes "good_lib lib"
  shows "test_missing_signature_fails_verify_when_header_has_key lib = Done True"
  by (rule good_libE [OF assms]) (simp add: test_missing_signature_fails_verify_when_header_has_key_def wal_eval)

lemma passes_signature_deterministic_across_runs:
  assumes "good_lib lib"
  shows "test_signature_deterministic_across_runs lib = Done True"
  by (rule good_libE [OF assms]) (simp add: test_signature_deterministic_across_runs_def wal_eval)

lemma passes_wal_record_persists_actor_for_replay_determinism:
  assumes "good_lib lib"
  shows "test_wal_record_persists_actor_for_replay_determinism lib = Done True"
  by (rule good_libE [OF assms]) (simp add: test_wal_record_persists_actor_for_replay_determinism_def wal_eval)

lemma passes_verify_chain_anchored_rejects_downgrade_and_substitution:
  assumes "good_lib lib" and "ed25519_public lib (replicate 32 7) \<noteq> replicate 32 0xAB"
  shows "test_verify_chain_anchored_rejects_downgrade_and_substitution lib = Done True"
  by (rule good_libE [OF assms(1)]) (simp add: test_verify_chain_anchored_rejects_downgrade_and_substitution_def wal_eval assms(2))

lemma passes_hybrid_writer_emits_both_signatures:
  assumes "good_lib lib"
  shows "test_hybrid_writer_emits_both_signatures lib = Done True"
  by (rule good_libE [OF assms]) (simp add: test_hybrid_writer_emits_both_signatures_def wal_eval)

lemma passes_hybrid_verify_chain_and_mode_passes_with_both_valid:
  assumes "good_lib lib"
  shows "test_hybrid_verify_chain_and_mode_passes_with_both_valid lib = Done True"
  by (rule good_libE [OF assms]) (simp add: test_hybrid_verify_chain_and_mode_passes_with_both_valid_def wal_eval)

lemma passes_hybrid_verify_chain_rejects_missing_pqc:
  assumes "good_lib lib"
  shows "test_hybrid_verify_chain_rejects_missing_pqc lib = Done True"
  by (rule good_libE [OF assms]) (simp add: test_hybrid_verify_chain_rejects_missing_pqc_def wal_eval)

lemma passes_ed25519_only_wal_replays_under_hybrid_kernel:
  assumes "good_lib lib"
  shows "test_ed25519_only_wal_replays_under_hybrid_kernel lib = Done True"
  by (rule good_libE [OF assms]) (simp add: test_ed25519_only_wal_replays_under_hybrid_kernel_def wal_eval)

lemma passes_pqc_without_ed25519_envelope_rejected:
  assumes "good_lib lib"
  shows "test_pqc_without_ed25519_envelope_rejected lib = Done True"
  by (rule good_libE [OF assms]) (simp add: test_pqc_without_ed25519_envelope_rejected_def wal_eval)

end
