(* ===== verification/Conformance_Replay.thy ===== *)
theory Conformance_Replay
  imports Conformance_Persist Snapshot Replay
begin

text \<open>
  The unit tests of \<open>persist/snapshot.rs\<close> and \<open>persist/replay.rs\<close>, and the tests of \<open>runtime/kernel.rs\<close> that
  attach a log, on the model. A replay test runs a kernel, exports its log and replays it into a second
  kernel; the hashes and the state digests stay symbolic, so that a test passes for every library that
  encodes the records. One test relies on the decoder of a struct with a field to reject empty input,
  which its lemma assumes.
\<close>

section \<open>Codecs\<close>

definition snap_codec :: "'z SnapLib_scheme \<Rightarrow> bool" where
  "snap_codec lib \<longleftrightarrow> (\<forall>s. \<exists>bs. postcard_snapshot lib s = Inr bs \<and> postcard_snapshot_from lib bs = Inr s)"

lemma codec_rules:
  assumes "codec ser deser"
  obtains enc where "\<And>a. ser a = Some (enc a)" "\<And>a. deser (enc a) = Some a"
proof -
  from assms obtain enc where "\<And>a. ser a = Some (enc a) \<and> deser (enc a) = Some a" unfolding codec_def by metis
  with that show thesis by blast
qed

lemma snap_rules:
  assumes "snap_codec lib"
  obtains senc where "\<And>s. postcard_snapshot lib s = Inr (senc s)" "\<And>s. postcard_snapshot_from lib (senc s) = Inr s"
proof -
  from assms obtain senc where "\<And>s. postcard_snapshot lib s = Inr (senc s) \<and> postcard_snapshot_from lib (senc s) = Inr s"
    unfolding snap_codec_def by metis
  with that show thesis by blast
qed

section \<open>\<open>persist/snapshot.rs\<close>\<close>

record SpawnSetAction =
  ssa_id :: u64

definition SpawnSetAction_type :: "SpawnSetAction Ser \<Rightarrow> SpawnSetAction Deser \<Rightarrow> SpawnSetAction ActionType" where
  "SpawnSetAction_type ser deser =
     \<lparr>TYPE_CODE = TypeCode 900, SCHEMA_VERSION = 1, postcard_to = ser, postcard_from = deser,
      compute = (\<lambda>self _. let ent = e (ssa_id self)
        in [SpawnEntity ent System, SetComponent ent (TypeCode 7) (replicate 4 0xCD) 4])\<rparr>"

definition submit_spawn_set :: "'z WalLib_scheme \<Rightarrow> SpawnSetAction Ser \<Rightarrow> SpawnSetAction Deser \<Rightarrow> InstanceId \<Rightarrow> u64 \<Rightarrow> 'o Kernel \<Rightarrow> 'o Kernel outcome" where
  "submit_spawn_set lib ser deser inst i k =
     obind (Action_canonical_bytes (SpawnSetAction_type ser deser) \<lparr>ssa_id = i\<rparr>) (\<lambda>bs.
       submit_as lib inst System (TYPE_CODE (SpawnSetAction_type ser deser)) bs k)"

definition boot_with_state :: "'z WalLib_scheme \<Rightarrow> SpawnSetAction Ser \<Rightarrow> SpawnSetAction Deser \<Rightarrow> u64 list \<Rightarrow> (unit Kernel \<times> InstanceId) outcome" where
  "boot_with_state lib ser deser actions =
     obind (create_instance InstanceConfig_default (register_action (SpawnSetAction_type ser deser) Kernel_new)) (\<lambda>(inst, k).
     obind (ofold (\<lambda>i k. obind (submit_spawn_set lib ser deser inst i k) (\<lambda>k.
              obind (step lib NullObs (Tick 0) SYSTEM k) (\<lambda>(_, k). Done k))) actions k) (\<lambda>k.
       Done (k, inst)))"

text \<open>\<open>Kernel::from_snapshot(KernelSnapshot::deserialize(&snap.serialize().unwrap()).unwrap())\<close>.\<close>

definition through_bytes :: "'z SnapLib_scheme \<Rightarrow> KernelSnapshot \<Rightarrow> 'o Kernel outcome" where
  "through_bytes lib snap =
     obind (unwrap (snapshot_serialize lib snap)) (\<lambda>bs.
     obind (unwrap (snapshot_deserialize lib bs)) (\<lambda>back. Done (kernel_from_snapshot back)))"

definition test_snapshot_empty_kernel_serdes_roundtrip :: "'z SnapLib_scheme \<Rightarrow> bool outcome" where
  "test_snapshot_empty_kernel_serdes_roundtrip lib =
     (let snap = snapshot (Kernel_new :: unit Kernel) in
     obind (unwrap (snapshot_serialize lib snap)) (\<lambda>bs.
     obind (unwrap (snapshot_deserialize lib bs)) (\<lambda>back.
       Done (snapshot_instance_count snap = 0 \<and> snapshot_instance_count back = 0))))"

definition test_snapshot_captures_instance_state :: "'z SnapLib_scheme \<Rightarrow> SpawnSetAction Ser \<Rightarrow> SpawnSetAction Deser \<Rightarrow> bool outcome" where
  "test_snapshot_captures_instance_state lib ser deser =
     obind (boot_with_state lib ser deser [1, 2, 3]) (\<lambda>(k, inst).
     (let snap = snapshot k in
       Done (snapshot_instance_count snap = 1 \<and> snapshot_instance_ids snap = [inst])))"

definition test_snapshot_preserves_entities_and_components :: "'z SnapLib_scheme \<Rightarrow> SpawnSetAction Ser \<Rightarrow> SpawnSetAction Deser \<Rightarrow> bool outcome" where
  "test_snapshot_preserves_entities_and_components lib ser deser =
     obind (boot_with_state lib ser deser [1, 2]) (\<lambda>(k1, inst).
     obind (through_bytes lib (snapshot k1)) (\<lambda>k2.
     obind (expect (instance_view inst k1)) (\<lambda>v1.
     obind (expect (instance_view inst (k2 :: unit Kernel))) (\<lambda>v2.
     (let k3 = register_action (SpawnSetAction_type ser deser) k2 in
     obind (submit_spawn_set lib ser deser inst 3 k3) (\<lambda>k4.
     obind (step lib NullObs (Tick 0) SYSTEM k4) (\<lambda>(_, k5).
     obind (expect (instance_view inst k5)) (\<lambda>v5.
       Done (view_entity_count v1 = view_entity_count v2 \<and> view_component_count v1 = view_component_count v2 \<and>
             view_component (e 1) (TypeCode 7) v1 = view_component (e 1) (TypeCode 7) v2 \<and>
             view_component (e 2) (TypeCode 7) v1 = view_component (e 2) (TypeCode 7) v2 \<and> view_entity_count v5 = 3)))))))))"

definition test_snapshot_preserves_id_counters :: "'z SnapLib_scheme \<Rightarrow> bool outcome" where
  "test_snapshot_preserves_id_counters lib =
     obind (create_instance InstanceConfig_default (Kernel_new :: unit Kernel)) (\<lambda>(_, k).
     obind (create_instance InstanceConfig_default k) (\<lambda>(_, k).
     obind (create_instance InstanceConfig_default k) (\<lambda>(_, k1).
     obind (through_bytes lib (snapshot k1)) (\<lambda>k2.
     obind (create_instance InstanceConfig_default k1) (\<lambda>(next1, _).
     obind (create_instance InstanceConfig_default (k2 :: unit Kernel)) (\<lambda>(next2, _).
       Done (next1 = next2 \<and> instance_id_get next1 = 4)))))))"

definition test_snapshot_preserves_local_tick_and_wall_remainder :: "'z SnapLib_scheme \<Rightarrow> SpawnSetAction Ser \<Rightarrow> SpawnSetAction Deser \<Rightarrow> bool outcome" where
  "test_snapshot_preserves_local_tick_and_wall_remainder lib ser deser =
     obind (boot_with_state lib ser deser [1]) (\<lambda>(k1, inst).
     obind (through_bytes lib (snapshot k1)) (\<lambda>k2.
     obind (expect (instance_view inst k1)) (\<lambda>v1.
     obind (expect (instance_view inst (k2 :: unit Kernel))) (\<lambda>v2.
       Done (view_local_tick v1 = view_local_tick v2)))))"

definition test_snapshot_deserialize_fresh_kernel_no_observers_no_registry :: "'z SnapLib_scheme \<Rightarrow> SpawnSetAction Ser \<Rightarrow> SpawnSetAction Deser \<Rightarrow> bool outcome" where
  "test_snapshot_deserialize_fresh_kernel_no_observers_no_registry lib ser deser =
     obind (boot_with_state lib ser deser [1]) (\<lambda>(k1, inst).
     obind (through_bytes lib (snapshot k1)) (\<lambda>k2.
     obind (submit_as lib inst System (TypeCode 900) [1] (k2 :: unit Kernel)) (\<lambda>k3.
     obind (step lib NullObs (Tick 0) SYSTEM k3) (\<lambda>(report, _).
       Done (observer_count (stats k2) = 0 \<and> actions_executed report = 1 \<and> report_applied report = 0)))))"

definition test_snapshot_deterministic_same_state_same_bytes :: "'z SnapLib_scheme \<Rightarrow> SpawnSetAction Ser \<Rightarrow> SpawnSetAction Deser \<Rightarrow> bool outcome" where
  "test_snapshot_deterministic_same_state_same_bytes lib ser deser =
     obind (boot_with_state lib ser deser [1, 2, 3]) (\<lambda>(k1, inst).
     obind (boot_with_state lib ser deser [1, 2, 3]) (\<lambda>(k2, inst).
     obind (unwrap (snapshot_serialize lib (snapshot k1))) (\<lambda>b1.
     obind (unwrap (snapshot_serialize lib (snapshot k2))) (\<lambda>b2.
       Done (b1 = b2)))))"

text \<open>A restored kernel has the captured instances and counters and nothing else.\<close>

lemma restored_kernel:
  "kernel_from_snapshot (snapshot k) = Kernel_new\<lparr>instances := instances k, next_instance_id := next_instance_id k\<rparr>"
  using restore_snapshot [of k] by (simp add: kernel_from_snapshot_def Kernel_new_def)

lemma snapshot_valid:
  assumes "\<forall>inst\<in>set (bt_values (instances k)). validate (inst_scheduler inst) = Inr ()"
  shows "validate_structure lib (snapshot k) = Inr ()"
proof -
  have "validate (inst_scheduler inst) = Inr ()" if "fmlookup (instances k) iid = Some inst" for iid inst
  proof -
    have "(iid, inst) \<in> set (sorted_list_of_fmap (instances k))" using that by (simp add: set_sorted_list_of_fmap)
    then have "inst \<in> set (bt_values (instances k))" unfolding bt_values_def by force
    then show ?thesis using assms by blast
  qed
  then show ?thesis by (auto simp: validate_structure_iff snapshot_def to_snapshot_def validate_iff [symmetric])
qed

lemma snapshot_ids:
  "snapshot_instance_count (snapshot k) = bt_len (instances k)" "snapshot_instance_ids (snapshot k) = bt_keys (instances k)"
  by (simp_all add: snapshot_instance_count_def snapshot_instance_ids_def snapshot_def bt_keys_eq bt_len_def)

lemma through_bytes_snapshot:
  assumes "snap_codec lib" and "\<forall>inst\<in>set (bt_values (instances k)). validate (inst_scheduler inst) = Inr ()"
  shows "through_bytes lib (snapshot k) = Done (Kernel_new\<lparr>instances := instances k, next_instance_id := next_instance_id k\<rparr>)"
proof (rule snap_rules [OF assms(1)])
  fix senc assume s: "\<And>s. postcard_snapshot lib s = Inr (senc s)" "\<And>s. postcard_snapshot_from lib (senc s) = Inr s"
  have "snapshot_deserialize lib (senc (snapshot k)) = Inr (snapshot k)"
    using s assms(2) by (simp add: deserialize_Inr snapshot_valid)
  then show ?thesis using s by (simp add: through_bytes_def snapshot_serialize_def unwrap_def restored_kernel)
qed

lemmas snapshot_eval = boot_with_state_def submit_spawn_set_def SpawnSetAction_type_def unwrap_def snapshot_serialize_def
  snapshot_ids snapshot_valid snapshot_deserialize_def kernel_eval scheduler_eval

lemma passes_snapshot_empty_kernel_serdes_roundtrip:
  assumes "snap_codec lib"
  shows "test_snapshot_empty_kernel_serdes_roundtrip lib = Done True"
  by (rule snap_rules [OF assms]) (simp add: test_snapshot_empty_kernel_serdes_roundtrip_def through_bytes_snapshot [OF assms] snapshot_eval)

lemma passes_snapshot_captures_instance_state:
  assumes "snap_codec lib" and "codec ser deser"
  shows "test_snapshot_captures_instance_state lib ser deser = Done True"
  by (rule codec_rules [OF assms(2)], rule snap_rules [OF assms(1)])
    (simp add: test_snapshot_captures_instance_state_def through_bytes_snapshot [OF assms(1)] snapshot_eval small_ranges)

lemma passes_snapshot_preserves_entities_and_components:
  assumes "snap_codec lib" and "codec ser deser"
  shows "test_snapshot_preserves_entities_and_components lib ser deser = Done True"
  by (rule codec_rules [OF assms(2)], rule snap_rules [OF assms(1)])
    (simp add: test_snapshot_preserves_entities_and_components_def through_bytes_snapshot [OF assms(1)] snapshot_eval small_ranges)

lemma passes_snapshot_preserves_id_counters:
  assumes "snap_codec lib"
  shows "test_snapshot_preserves_id_counters lib = Done True"
  by (rule snap_rules [OF assms]) (simp add: test_snapshot_preserves_id_counters_def through_bytes_snapshot [OF assms] snapshot_eval)

lemma passes_snapshot_preserves_local_tick_and_wall_remainder:
  assumes "snap_codec lib" and "codec ser deser"
  shows "test_snapshot_preserves_local_tick_and_wall_remainder lib ser deser = Done True"
  by (rule codec_rules [OF assms(2)], rule snap_rules [OF assms(1)])
    (simp add: test_snapshot_preserves_local_tick_and_wall_remainder_def through_bytes_snapshot [OF assms(1)] snapshot_eval small_ranges)

lemma passes_snapshot_deserialize_fresh_kernel_no_observers_no_registry:
  assumes "snap_codec lib" and "codec ser deser"
  shows "test_snapshot_deserialize_fresh_kernel_no_observers_no_registry lib ser deser = Done True"
  by (rule codec_rules [OF assms(2)], rule snap_rules [OF assms(1)])
    (simp add: test_snapshot_deserialize_fresh_kernel_no_observers_no_registry_def through_bytes_snapshot [OF assms(1)] snapshot_eval small_ranges)

lemma passes_snapshot_deterministic_same_state_same_bytes:
  assumes "snap_codec lib" and "codec ser deser"
  shows "test_snapshot_deterministic_same_state_same_bytes lib ser deser = Done True"
  by (rule codec_rules [OF assms(2)], rule snap_rules [OF assms(1)])
    (simp add: test_snapshot_deterministic_same_state_same_bytes_def through_bytes_snapshot [OF assms(1)] snapshot_eval small_ranges)

section \<open>\<open>persist/replay.rs\<close>\<close>

definition replay_world :: bytes where "replay_world = replicate 32 11"

definition priv_cfg :: InstanceConfig where
  "priv_cfg = InstanceConfig_default\<lparr>default_caps := SYSTEM, max_entities := 1024, max_scheduled := 1024, max_inbox_per_route := 16,
     memory_budget_bytes := push_bit 20 1\<rparr>"

record SpawnAction =
  spawn_id :: u64

definition SpawnAction_type :: "SpawnAction Ser \<Rightarrow> SpawnAction Deser \<Rightarrow> SpawnAction ActionType" where
  "SpawnAction_type ser deser =
     \<lparr>TYPE_CODE = TypeCode 100, SCHEMA_VERSION = 1, postcard_to = ser, postcard_from = deser,
      compute = (\<lambda>self _. [SpawnEntity (e (spawn_id self)) System])\<rparr>"

text \<open>The bytes of a child action inside \<open>compute\<close>: encoding it never fails (\<open>codec\<close>).\<close>

definition spawn_bytes :: "SpawnAction Ser \<Rightarrow> SpawnAction Deser \<Rightarrow> u64 \<Rightarrow> bytes" where
  "spawn_bytes ser deser i = (case Action_canonical_bytes (SpawnAction_type ser deser) \<lparr>spawn_id = i\<rparr> of Done bs \<Rightarrow> bs | Panic \<Rightarrow> [])"

record ScheduleChildAction =
  child_id :: u64
  child_at :: u64

definition ScheduleChildAction_type ::
  "SpawnAction Ser \<Rightarrow> SpawnAction Deser \<Rightarrow> ScheduleChildAction Ser \<Rightarrow> ScheduleChildAction Deser \<Rightarrow> ScheduleChildAction ActionType" where
  "ScheduleChildAction_type ser deser ser2 deser2 =
     \<lparr>TYPE_CODE = TypeCode 200, SCHEMA_VERSION = 1, postcard_to = ser2, postcard_from = deser2,
      compute = (\<lambda>self _. [ScheduleAction (Tick (child_at self)) None (TYPE_CODE (SpawnAction_type ser deser)) (spawn_bytes ser deser (child_id self))])\<rparr>"

record SignalToAction =
  signal_target :: u64

definition SignalToAction_type :: "SignalToAction Ser \<Rightarrow> SignalToAction Deser \<Rightarrow> SignalToAction ActionType" where
  "SignalToAction_type ser deser =
     \<lparr>TYPE_CODE = TypeCode 300, SCHEMA_VERSION = 1, postcard_to = ser, postcard_from = deser,
      compute = (\<lambda>self _. [SendSignal (qid (signal_target self)) (RouteId 1) (bytes_of_string ''ping'')])\<rparr>"

record TwoSetAction =
  two_a :: u64
  two_b :: u64

definition TwoSetAction_type :: "TwoSetAction Ser \<Rightarrow> TwoSetAction Deser \<Rightarrow> TwoSetAction ActionType" where
  "TwoSetAction_type ser deser =
     \<lparr>TYPE_CODE = TypeCode 400, SCHEMA_VERSION = 1, postcard_to = ser, postcard_from = deser,
      compute = (\<lambda>self _. [SpawnEntity (e 1) System,
        SetComponent (e 1) (TypeCode 7) (replicate (unat (two_a self)) 0) (two_a self),
        SetComponent (e 1) (TypeCode 8) (replicate (unat (two_b self)) 0) (two_b self)])\<rparr>"

definition ScheduleNeedsSystemAction :: "unit Ser \<Rightarrow> unit Deser \<Rightarrow> SpawnAction Ser \<Rightarrow> SpawnAction Deser \<Rightarrow> unit ActionType" where
  "ScheduleNeedsSystemAction ser deser ser2 deser2 =
     \<lparr>TYPE_CODE = TypeCode 500, SCHEMA_VERSION = 1, postcard_to = ser, postcard_from = deser,
      compute = (\<lambda>_ _. [ScheduleAction (Tick 9) None (TYPE_CODE (SpawnAction_type ser2 deser2)) []])\<rparr>"

definition ScheduleTwoSameTick :: "unit Ser \<Rightarrow> unit Deser \<Rightarrow> SpawnAction Ser \<Rightarrow> SpawnAction Deser \<Rightarrow> unit ActionType" where
  "ScheduleTwoSameTick ser deser ser2 deser2 =
     \<lparr>TYPE_CODE = TypeCode 600, SCHEMA_VERSION = 1, postcard_to = ser, postcard_from = deser,
      compute = (\<lambda>_ _. let mk = (\<lambda>i. ScheduleAction (Tick 5) None (TYPE_CODE (SpawnAction_type ser2 deser2)) (spawn_bytes ser2 deser2 i))
                        in [mk 11, mk 22])\<rparr>"

text \<open>What the tests read of the exported log, and the replay into a second kernel.\<close>

definition log_of :: "'o Kernel \<Rightarrow> Wal outcome" where
  "log_of k = expect (export_wal k)"

definition tip_now :: "'o Kernel \<Rightarrow> bytes outcome" where
  "tip_now k = expect (wal_chain_tip k)"

fun verdicts :: "WalRecordContent list \<Rightarrow> StepVerdict list" where
  "verdicts [] = []"
| "verdicts (Step _ _ _ _ _ v _ # cs) = v # verdicts cs"
| "verdicts (Submit _ _ _ _ _ _ _ _ _ # cs) = verdicts cs"

definition replay_test :: "'z WalLib_scheme \<Rightarrow> (ArkheError \<Rightarrow> string) \<Rightarrow> Wal \<Rightarrow> unit Kernel \<Rightarrow> (ReplayError + ReplayReport) outcome" where
  "replay_test lib dbg log k = obind (replay_into lib NullObs dbg log k) (\<lambda>(r, _). Done r)"

text \<open>\<open>submit\<close> unwrapped, with the arguments the replay tests vary.\<close>

definition submit_at ::
  "'z WalLib_scheme \<Rightarrow> InstanceId \<Rightarrow> Principal \<Rightarrow> CapabilityMask \<Rightarrow> Tick \<Rightarrow> TypeCode \<Rightarrow> bytes \<Rightarrow> 'o Kernel \<Rightarrow> 'o Kernel outcome" where
  "submit_at lib iid prin caps at tc bs k =
     obind (submit lib iid prin None caps at tc bs k) (\<lambda>(r, k'). case r of Inl _ \<Rightarrow> Panic | Inr _ \<Rightarrow> Done k')"

text \<open>The loop body of the kernel tests that fill a log.\<close>

definition submit_and_step :: "'z WalLib_scheme \<Rightarrow> InstanceId \<Rightarrow> unit Kernel \<Rightarrow> unit Kernel outcome" where
  "submit_and_step lib inst k =
     obind (submit_as lib inst System (TypeCode 100) [] k) (\<lambda>k. obind (step lib NullObs (Tick 0) SYSTEM k) (\<lambda>(_, k). Done k))"

definition test_replay_empty_wal_succeeds :: "'z WalLib_scheme \<Rightarrow> (ArkheError \<Rightarrow> string) \<Rightarrow> bool outcome" where
  "test_replay_empty_wal_succeeds lib dbg =
     (let log = from_writer (WalWriter_new lib replay_world zero32) in
     obind (replay_test lib dbg log (Kernel_new :: unit Kernel)) (\<lambda>r.
     obind (unwrap r) (\<lambda>rep.
       Done (submits_replayed rep = 0 \<and> steps_replayed rep = 0))))"

definition test_replay_rejects_wrong_magic :: "'z WalLib_scheme \<Rightarrow> (ArkheError \<Rightarrow> string) \<Rightarrow> bool outcome" where
  "test_replay_rejects_wrong_magic lib dbg =
     (let log = (from_writer (WalWriter_new lib replay_world zero32)); log = log\<lparr>header := (header log)\<lparr>magic := bytes_of_string ''BADMAGIC''\<rparr>\<rparr> in
     obind (replay_test lib dbg log (Kernel_new :: unit Kernel)) (\<lambda>r.
       Done ((\<exists>m. r = Inl (ReplayHeaderIncompatible m)))))"

definition test_replay_rejects_kernel_semver_major_mismatch :: "'z WalLib_scheme \<Rightarrow> (ArkheError \<Rightarrow> string) \<Rightarrow> bool outcome" where
  "test_replay_rejects_kernel_semver_major_mismatch lib dbg =
     (let log = (from_writer (WalWriter_new lib replay_world zero32)); log = log\<lparr>header := (header log)\<lparr>kernel_semver := (99, 0, 0)\<rparr>\<rparr> in
     obind (replay_test lib dbg log (Kernel_new :: unit Kernel)) (\<lambda>r.
       Done ((\<exists>a b. r = Inl (KernelSemverMismatch a b)))))"

definition test_replay_rejects_postcard_version_mismatch :: "'z WalLib_scheme \<Rightarrow> (ArkheError \<Rightarrow> string) \<Rightarrow> bool outcome" where
  "test_replay_rejects_postcard_version_mismatch lib dbg =
     (let log = (from_writer (WalWriter_new lib replay_world zero32)); log = log\<lparr>header := (header log)\<lparr>postcard_version := 999\<rparr>\<rparr> in
     obind (replay_test lib dbg log (Kernel_new :: unit Kernel)) (\<lambda>r.
       Done ((\<exists>a b. r = Inl (PostcardVersionMismatch a b)))))"

definition test_replay_internal_scheduling_is_bit_identical :: "'z WalLib_scheme \<Rightarrow> (ArkheError \<Rightarrow> string) \<Rightarrow> SpawnAction Ser \<Rightarrow> SpawnAction Deser \<Rightarrow> ScheduleChildAction Ser \<Rightarrow> ScheduleChildAction Deser \<Rightarrow> bool outcome" where
  "test_replay_internal_scheduling_is_bit_identical lib dbg ser deser ser2 deser2 =
     obind (create_instance priv_cfg (register_action (SpawnAction_type ser deser) (register_action (ScheduleChildAction_type ser deser ser2 deser2) (new_with_wal lib replay_world zero32)))) (\<lambda>(inst, k).
     obind (Action_canonical_bytes (ScheduleChildAction_type ser deser ser2 deser2) \<lparr>child_id = 77, child_at = 1\<rparr>) (\<lambda>bs.
     obind (submit_at lib inst System SYSTEM (Tick 0) (TypeCode 200) bs k) (\<lambda>k.
     obind (step lib NullObs (Tick 0) SYSTEM k) (\<lambda>(_, k).
     obind (step lib NullObs (Tick 1) SYSTEM k) (\<lambda>(_, k).
     obind (tip_now k) (\<lambda>tip.
     obind (log_of k) (\<lambda>log.
     obind (create_instance priv_cfg (register_action (SpawnAction_type ser deser) (register_action (ScheduleChildAction_type ser deser ser2 deser2) (new_with_wal lib replay_world zero32)))) (\<lambda>(_, k2).
     obind (replay_test lib dbg log k2) (\<lambda>r.
     obind (unwrap r) (\<lambda>rep.
       Done (map record_kind (records log) = [KindSubmit, KindStep, KindStep] \<and> submits_replayed rep = 1 \<and> steps_replayed rep = 2 \<and> final_chain_tip rep = tip)))))))))))"

definition test_replay_history_with_authorize_denial :: "'z WalLib_scheme \<Rightarrow> (ArkheError \<Rightarrow> string) \<Rightarrow> unit Ser \<Rightarrow> unit Deser \<Rightarrow> SpawnAction Ser \<Rightarrow> SpawnAction Deser \<Rightarrow> bool outcome" where
  "test_replay_history_with_authorize_denial lib dbg ser deser ser2 deser2 =
     obind (create_instance (InstanceConfig_default\<lparr>max_scheduled := 1024\<rparr>) (register_action (SpawnAction_type ser2 deser2) (register_action (ScheduleNeedsSystemAction ser deser ser2 deser2) (new_with_wal lib replay_world zero32)))) (\<lambda>(inst, k).
     obind (submit_at lib inst (External (ExternalId 7)) 0 (Tick 0) (TypeCode 500) [] k) (\<lambda>k.
     obind (step lib NullObs (Tick 0) SYSTEM k) (\<lambda>(_, k).
     obind (tip_now k) (\<lambda>tip.
     obind (log_of k) (\<lambda>log.
     obind (create_instance (InstanceConfig_default\<lparr>max_scheduled := 1024\<rparr>) (register_action (SpawnAction_type ser2 deser2) (register_action (ScheduleNeedsSystemAction ser deser ser2 deser2) (new_with_wal lib replay_world zero32)))) (\<lambda>(_, k2).
     obind (replay_test lib dbg log k2) (\<lambda>r.
     obind (unwrap r) (\<lambda>rep.
       Done (verdicts (map content (records log)) = [AuthDenied] \<and> length (records log) = 2 \<and> final_chain_tip rep = tip)))))))))"

definition test_replay_history_with_budget_partial :: "'z WalLib_scheme \<Rightarrow> (ArkheError \<Rightarrow> string) \<Rightarrow> TwoSetAction Ser \<Rightarrow> TwoSetAction Deser \<Rightarrow> bool outcome" where
  "test_replay_history_with_budget_partial lib dbg ser deser =
     obind (create_instance (InstanceConfig_default\<lparr>memory_budget_bytes := 100, max_entities := 1024\<rparr>) (register_action (TwoSetAction_type ser deser) (new_with_wal lib replay_world zero32))) (\<lambda>(inst, k).
     obind (Action_canonical_bytes (TwoSetAction_type ser deser) \<lparr>two_a = 40, two_b = 80\<rparr>) (\<lambda>bs.
     obind (submit_at lib inst System SYSTEM (Tick 0) (TypeCode 400) bs k) (\<lambda>k.
     obind (step lib NullObs (Tick 0) SYSTEM k) (\<lambda>(_, k).
     obind (tip_now k) (\<lambda>tip.
     obind (log_of k) (\<lambda>log.
     obind (create_instance (InstanceConfig_default\<lparr>memory_budget_bytes := 100, max_entities := 1024\<rparr>) (register_action (TwoSetAction_type ser deser) (new_with_wal lib replay_world zero32))) (\<lambda>(_, k2).
     obind (replay_test lib dbg log k2) (\<lambda>r.
     obind (unwrap r) (\<lambda>rep.
       Done (verdicts (map content (records log)) = [BudgetPartial 1] \<and> length (records log) = 2 \<and> final_chain_tip rep = tip))))))))))"

definition test_replay_skipped_unregistered_and_deserfailed :: "'z WalLib_scheme \<Rightarrow> (ArkheError \<Rightarrow> string) \<Rightarrow> SpawnAction Ser \<Rightarrow> SpawnAction Deser \<Rightarrow> bool outcome" where
  "test_replay_skipped_unregistered_and_deserfailed lib dbg ser deser =
     obind (create_instance priv_cfg (register_action (SpawnAction_type ser deser) (new_with_wal lib replay_world zero32))) (\<lambda>(inst, k).
     obind (submit_at lib inst System SYSTEM (Tick 0) (TypeCode 200) [1, 2, 3] k) (\<lambda>k.
     obind (submit_at lib inst System SYSTEM (Tick 1) (TypeCode 100) [] k) (\<lambda>k.
     obind (step lib NullObs (Tick 0) SYSTEM k) (\<lambda>(_, k).
     obind (step lib NullObs (Tick 1) SYSTEM k) (\<lambda>(_, k).
     obind (tip_now k) (\<lambda>tip.
     obind (log_of k) (\<lambda>log.
     obind (create_instance priv_cfg (register_action (SpawnAction_type ser deser) (new_with_wal lib replay_world zero32))) (\<lambda>(_, k2).
     obind (replay_test lib dbg log k2) (\<lambda>r.
     obind (unwrap r) (\<lambda>rep.
       Done (Skipped Unregistered \<in> set (verdicts (map content (records log))) \<and> Skipped DeserFailed \<in> set (verdicts (map content (records log))) \<and>
             final_chain_tip rep = tip)))))))))))"

definition test_next_seq_tiebreak_survives_replay :: "'z WalLib_scheme \<Rightarrow> (ArkheError \<Rightarrow> string) \<Rightarrow> unit Ser \<Rightarrow> unit Deser \<Rightarrow> SpawnAction Ser \<Rightarrow> SpawnAction Deser \<Rightarrow> bool outcome" where
  "test_next_seq_tiebreak_survives_replay lib dbg ser deser ser2 deser2 =
     obind (create_instance priv_cfg (register_action (SpawnAction_type ser2 deser2) (register_action (ScheduleTwoSameTick ser deser ser2 deser2) (new_with_wal lib replay_world zero32)))) (\<lambda>(inst, k).
     obind (submit_at lib inst System SYSTEM (Tick 0) (TypeCode 600) [] k) (\<lambda>k.
     obind (step lib NullObs (Tick 0) SYSTEM k) (\<lambda>(_, k).
     obind (step lib NullObs (Tick 5) SYSTEM k) (\<lambda>(_, k).
     obind (step lib NullObs (Tick 5) SYSTEM k) (\<lambda>(_, k).
     obind (tip_now k) (\<lambda>tip.
     obind (log_of k) (\<lambda>log.
     obind (create_instance priv_cfg (register_action (SpawnAction_type ser2 deser2) (register_action (ScheduleTwoSameTick ser deser ser2 deser2) (new_with_wal lib replay_world zero32)))) (\<lambda>(_, k2).
     obind (replay_test lib dbg log k2) (\<lambda>r.
     obind (unwrap r) (\<lambda>rep.
       Done (final_chain_tip rep = tip)))))))))))"

definition test_signal_routing_replays_bit_identical :: "'z WalLib_scheme \<Rightarrow> (ArkheError \<Rightarrow> string) \<Rightarrow> SignalToAction Ser \<Rightarrow> SignalToAction Deser \<Rightarrow> bool outcome" where
  "test_signal_routing_replays_bit_identical lib dbg ser deser =
     obind (create_instance priv_cfg (register_action (SignalToAction_type ser deser) (new_with_wal lib replay_world zero32))) (\<lambda>(inst, k).
     obind (create_instance priv_cfg k) (\<lambda>(_, k).
     obind (Action_canonical_bytes (SignalToAction_type ser deser) \<lparr>signal_target = 2\<rparr>) (\<lambda>bs.
     obind (submit_at lib inst System SYSTEM (Tick 0) (TypeCode 300) bs k) (\<lambda>k.
     obind (step lib NullObs (Tick 0) SYSTEM k) (\<lambda>(_, k).
     obind (tip_now k) (\<lambda>tip.
     obind (log_of k) (\<lambda>log.
     obind (create_instance priv_cfg (register_action (SignalToAction_type ser deser) (new_with_wal lib replay_world zero32))) (\<lambda>(_, k2).
     obind (create_instance priv_cfg k2) (\<lambda>(_, k2).
     obind (replay_test lib dbg log k2) (\<lambda>r.
     obind (unwrap r) (\<lambda>rep.
       Done (final_chain_tip rep = tip))))))))))))"

definition test_manifest_digest_validated_on_default_path :: "'z WalLib_scheme \<Rightarrow> (ArkheError \<Rightarrow> string) \<Rightarrow> SpawnAction Ser \<Rightarrow> SpawnAction Deser \<Rightarrow> bool outcome" where
  "test_manifest_digest_validated_on_default_path lib dbg ser deser =
     obind (create_instance priv_cfg (register_action (SpawnAction_type ser deser) (new_with_wal lib replay_world (replicate 32 0xAB)))) (\<lambda>(inst, k).
     obind (Action_canonical_bytes (SpawnAction_type ser deser) \<lparr>spawn_id = 1\<rparr>) (\<lambda>bs.
     obind (submit_at lib inst System SYSTEM (Tick 0) (TypeCode 100) bs k) (\<lambda>k.
     obind (step lib NullObs (Tick 0) SYSTEM k) (\<lambda>(_, k).
     obind (log_of k) (\<lambda>log.
     obind (create_instance priv_cfg (register_action (SpawnAction_type ser deser) (new_with_wal lib replay_world (replicate 32 0xCD)))) (\<lambda>(_, k2).
     obind (create_instance priv_cfg (register_action (SpawnAction_type ser deser) (new_with_wal lib replay_world (replicate 32 0xAB)))) (\<lambda>(_, k3).
     obind (replay_test lib dbg log k2) (\<lambda>r.
     obind (replay_test lib dbg log k3) (\<lambda>r3.
       Done ((\<exists>a b. r = Inl (ReplayManifestDigestMismatch a b)) \<and> \<not> isl r3))))))))))"

definition test_replay_measures_not_copies_tip :: "'z WalLib_scheme \<Rightarrow> (ArkheError \<Rightarrow> string) \<Rightarrow> SpawnAction Ser \<Rightarrow> SpawnAction Deser \<Rightarrow> bool outcome" where
  "test_replay_measures_not_copies_tip lib dbg ser deser =
     obind (create_instance priv_cfg (register_action (SpawnAction_type ser deser) (new_with_wal lib replay_world zero32))) (\<lambda>(inst, k).
     obind (Action_canonical_bytes (SpawnAction_type ser deser) \<lparr>spawn_id = 5\<rparr>) (\<lambda>bs.
     obind (submit_at lib inst System SYSTEM (Tick 0) (TypeCode 100) bs k) (\<lambda>k.
     obind (step lib NullObs (Tick 0) SYSTEM k) (\<lambda>(_, k).
     obind (log_of k) (\<lambda>log.
     obind (create_instance priv_cfg (new_with_wal lib replay_world zero32)) (\<lambda>(_, k2).
     obind (replay_test lib dbg log k2) (\<lambda>r.
       Done ((\<exists>s a b. r = Inl (VerdictDivergence s a b))))))))))"

definition test_replay_into_kernel_missing_instance_is_graceful_error :: "'z WalLib_scheme \<Rightarrow> (ArkheError \<Rightarrow> string) \<Rightarrow> SpawnAction Ser \<Rightarrow> SpawnAction Deser \<Rightarrow> bool outcome" where
  "test_replay_into_kernel_missing_instance_is_graceful_error lib dbg ser deser =
     obind (create_instance priv_cfg (register_action (SpawnAction_type ser deser) (new_with_wal lib replay_world zero32))) (\<lambda>(inst, k).
     obind (Action_canonical_bytes (SpawnAction_type ser deser) \<lparr>spawn_id = 1\<rparr>) (\<lambda>bs.
     obind (submit_at lib inst System SYSTEM (Tick 0) (TypeCode 100) bs k) (\<lambda>k.
     obind (step lib NullObs (Tick 0) SYSTEM k) (\<lambda>(_, k).
     obind (log_of k) (\<lambda>log.
     (let k2 = (register_action (SpawnAction_type ser deser) (new_with_wal lib replay_world zero32)) in
     obind (replay_test lib dbg log k2) (\<lambda>r.
       Done ((\<exists>m. r = Inl (SubmitFailed m))))))))))"

definition test_wal_kernel_export_then_verify_chain :: "'z WalLib_scheme \<Rightarrow> (ArkheError \<Rightarrow> string) \<Rightarrow> unit Ser \<Rightarrow> unit Deser \<Rightarrow> bool outcome" where
  "test_wal_kernel_export_then_verify_chain lib dbg ser deser =
     obind (create_instance InstanceConfig_default (register_action (SpawnOneAction ser deser) (new_with_wal lib (replicate 32 11) zero32))) (\<lambda>(inst, k).
     obind (ofold (\<lambda>_. submit_and_step lib inst) [0, 1, 2 :: nat] k) (\<lambda>k.
     obind (log_of k) (\<lambda>log.
     obind (verify_chain lib (replicate 32 11) log) (\<lambda>v.
       Done (length (records log) = 6 \<and> v = Inr ())))))"

definition test_replay_reconstructs_chain_tip :: "'z WalLib_scheme \<Rightarrow> (ArkheError \<Rightarrow> string) \<Rightarrow> unit Ser \<Rightarrow> unit Deser \<Rightarrow> bool outcome" where
  "test_replay_reconstructs_chain_tip lib dbg ser deser =
     obind (create_instance InstanceConfig_default (register_action (SpawnOneAction ser deser) (new_with_wal lib (replicate 32 42) zero32))) (\<lambda>(i1, k).
     obind (ofold (\<lambda>_. submit_and_step lib i1) [0, 1, 2, 3 :: nat] k) (\<lambda>k.
     obind (tip_now k) (\<lambda>tip.
     obind (log_of k) (\<lambda>log.
     obind (create_instance InstanceConfig_default (register_action (SpawnOneAction ser deser) (new_with_wal lib (replicate 32 42) zero32))) (\<lambda>(_, k2).
     obind (replay_test lib dbg log k2) (\<lambda>r.
     obind (unwrap r) (\<lambda>rep.
       Done (submits_replayed rep = 4 \<and> steps_replayed rep = 4 \<and> final_chain_tip rep = tip))))))))"

definition test_stats_wal_record_count_reflects_writer :: "'z WalLib_scheme \<Rightarrow> (ArkheError \<Rightarrow> string) \<Rightarrow> unit Ser \<Rightarrow> unit Deser \<Rightarrow> bool outcome" where
  "test_stats_wal_record_count_reflects_writer lib dbg ser deser =
     (let k0 = (register_action (SpawnOneAction ser deser) (new_with_wal lib (replicate 32 1) zero32)) in
     obind (create_instance InstanceConfig_default (k0 :: unit Kernel)) (\<lambda>(inst, k).
     obind (submit_as lib inst System (TypeCode 100) [] k) (\<lambda>k.
     obind (step lib NullObs (Tick 1) SYSTEM k) (\<lambda>(_, k).
       Done (wal_record_count (stats k0) = 0 \<and> wal_record_count (stats k) = 2)))))"

section \<open>Symbolic evaluation of a log\<close>

text \<open>The hash of a content behind \<open>prev\<close>, kept folded so that chains stay small.\<close>

definition sealed_hash :: "'z WalLib_scheme \<Rightarrow> bytes \<Rightarrow> bytes \<Rightarrow> WalRecordContent \<Rightarrow> bytes" where
  "sealed_hash lib key prev c = blake3_keyed lib key (prev @ projr (postcard_body lib (from_content c prev)))"

lemma push_sealed_plain:
  assumes "encodes_all lib" and "w_sig_class w = SigNone"
  shows "push_sealed lib c w =
    (Inr \<lparr>content = c, prev_chain_hash = w_prev_hash w, this_chain_hash = sealed_hash lib (w_chain_key w) (w_prev_hash w) c,
          signature = None, signature_pqc = None\<rparr>,
     w\<lparr>w_records := w_records w @ [\<lparr>content = c, prev_chain_hash = w_prev_hash w,
         this_chain_hash = sealed_hash lib (w_chain_key w) (w_prev_hash w) c, signature = None, signature_pqc = None\<rparr>],
       w_prev_hash := sealed_hash lib (w_chain_key w) (w_prev_hash w) c\<rparr>)"
proof -
  from assms(1) obtain b where "postcard_body lib (from_content c (w_prev_hash w)) = Inr b" unfolding encodes_all_def by blast
  with assms(2) show ?thesis by (simp add: push_sealed_def seal_def sealed_hash_def Let_def)
qed

lemma verify_records_plain:
  assumes "encodes_all lib"
  shows "verify_records lib key VerNone i prev (rec # recs) =
    (if prev_chain_hash rec \<noteq> prev then Done (Inl (ChainBroken i))
     else if sealed_hash lib key prev (content rec) \<noteq> this_chain_hash rec then Done (Inl (HashMismatch i))
     else verify_records lib key VerNone (Suc i) (sealed_hash lib key prev (content rec)) recs)"
proof -
  from assms obtain b where "postcard_body lib (from_content (content rec) prev) = Inr b" unfolding encodes_all_def by blast
  then show ?thesis by (simp add: sealed_hash_def from_record_def check_signature_def Let_def)
qed

lemmas log_eval = new_with_wal_def WalWriter_new_def with_signature_def rebuild_from_header_def append_submit_def append_step_def
  from_writer_def export_wal_def wal_chain_tip_def writer_chain_tip_def record_count_def chain_tip_def verify_chain_def
  from_header_bytes_def record_kind_def log_of_def tip_now_def MAGIC_def CURRENT_KERNEL_SEMVER_def ABI_VERSION_def POSTCARD_MAJOR_def
  BLAKE3_MAJOR_def

lemmas replay_eval = replay_test_def replay_into_def check_header_gates_def replay_records_def ReplayReport_default_def
  submit_with_id_def submit_at_def submit_and_step_def unwrap_def priv_cfg_def replay_world_def SpawnAction_type_def spawn_bytes_def
  ScheduleChildAction_type_def SignalToAction_type_def TwoSetAction_type_def ScheduleNeedsSystemAction_def ScheduleTwoSameTick_def
  log_eval kernel_eval

lemma passes_replay_empty_wal_succeeds:
  assumes "encodes_all lib"
  shows "test_replay_empty_wal_succeeds lib dbg = Done True"
  by (simp add: test_replay_empty_wal_succeeds_def push_sealed_plain [OF assms(1)] verify_records_plain [OF assms(1)] replay_eval del: verify_records.simps(2))

lemma passes_replay_rejects_wrong_magic:
  assumes "encodes_all lib"
  shows "test_replay_rejects_wrong_magic lib dbg = Done True"
  by (simp add: test_replay_rejects_wrong_magic_def push_sealed_plain [OF assms(1)] verify_records_plain [OF assms(1)] replay_eval del: verify_records.simps(2))

lemma passes_replay_rejects_kernel_semver_major_mismatch:
  assumes "encodes_all lib"
  shows "test_replay_rejects_kernel_semver_major_mismatch lib dbg = Done True"
  by (simp add: test_replay_rejects_kernel_semver_major_mismatch_def push_sealed_plain [OF assms(1)] verify_records_plain [OF assms(1)] replay_eval del: verify_records.simps(2))

lemma passes_replay_rejects_postcard_version_mismatch:
  assumes "encodes_all lib"
  shows "test_replay_rejects_postcard_version_mismatch lib dbg = Done True"
  by (simp add: test_replay_rejects_postcard_version_mismatch_def push_sealed_plain [OF assms(1)] verify_records_plain [OF assms(1)] replay_eval del: verify_records.simps(2))

lemma passes_replay_internal_scheduling_is_bit_identical:
  assumes "encodes_all lib" and "codec ser deser" and "codec ser2 deser2"
  shows "test_replay_internal_scheduling_is_bit_identical lib dbg ser deser ser2 deser2 = Done True"
  by (rule codec_rules [OF assms(2)], rule codec_rules [OF assms(3)])
    (simp add: test_replay_internal_scheduling_is_bit_identical_def push_sealed_plain [OF assms(1)] verify_records_plain [OF assms(1)] replay_eval del: verify_records.simps(2))

lemma passes_replay_history_with_authorize_denial:
  assumes "encodes_all lib" and "unit_codec ser deser" and "codec ser2 deser2"
  shows "test_replay_history_with_authorize_denial lib dbg ser deser ser2 deser2 = Done True"
  by (rule codec_rules [OF assms(3)])
    (simp add: test_replay_history_with_authorize_denial_def push_sealed_plain [OF assms(1)] verify_records_plain [OF assms(1)] replay_eval assms(2) [unfolded unit_codec_def] del: verify_records.simps(2))

lemma passes_replay_history_with_budget_partial:
  assumes "encodes_all lib" and "codec ser deser"
  shows "test_replay_history_with_budget_partial lib dbg ser deser = Done True"
  by (rule codec_rules [OF assms(2)])
    (simp add: test_replay_history_with_budget_partial_def push_sealed_plain [OF assms(1)] verify_records_plain [OF assms(1)] replay_eval del: verify_records.simps(2))

lemma passes_replay_skipped_unregistered_and_deserfailed:
  assumes "encodes_all lib" and "codec ser deser" and "deser [] = None"
  shows "test_replay_skipped_unregistered_and_deserfailed lib dbg ser deser = Done True"
  by (rule codec_rules [OF assms(2)])
    (simp add: test_replay_skipped_unregistered_and_deserfailed_def push_sealed_plain [OF assms(1)] verify_records_plain [OF assms(1)] replay_eval assms(3) del: verify_records.simps(2))

lemma passes_next_seq_tiebreak_survives_replay:
  assumes "encodes_all lib" and "unit_codec ser deser" and "codec ser2 deser2"
  shows "test_next_seq_tiebreak_survives_replay lib dbg ser deser ser2 deser2 = Done True"
  by (rule codec_rules [OF assms(3)])
    (simp add: test_next_seq_tiebreak_survives_replay_def push_sealed_plain [OF assms(1)] verify_records_plain [OF assms(1)] replay_eval assms(2) [unfolded unit_codec_def] del: verify_records.simps(2))

lemma passes_signal_routing_replays_bit_identical:
  assumes "encodes_all lib" and "codec ser deser"
  shows "test_signal_routing_replays_bit_identical lib dbg ser deser = Done True"
  by (rule codec_rules [OF assms(2)])
    (simp add: test_signal_routing_replays_bit_identical_def push_sealed_plain [OF assms(1)] verify_records_plain [OF assms(1)] replay_eval del: verify_records.simps(2))

lemma passes_manifest_digest_validated_on_default_path:
  assumes "encodes_all lib" and "codec ser deser"
  shows "test_manifest_digest_validated_on_default_path lib dbg ser deser = Done True"
  by (rule codec_rules [OF assms(2)])
    (simp add: test_manifest_digest_validated_on_default_path_def push_sealed_plain [OF assms(1)] verify_records_plain [OF assms(1)] replay_eval del: verify_records.simps(2))

lemma passes_replay_measures_not_copies_tip:
  assumes "encodes_all lib" and "codec ser deser"
  shows "test_replay_measures_not_copies_tip lib dbg ser deser = Done True"
  by (rule codec_rules [OF assms(2)])
    (simp add: test_replay_measures_not_copies_tip_def push_sealed_plain [OF assms(1)] verify_records_plain [OF assms(1)] replay_eval del: verify_records.simps(2))

lemma passes_replay_into_kernel_missing_instance_is_graceful_error:
  assumes "encodes_all lib" and "codec ser deser"
  shows "test_replay_into_kernel_missing_instance_is_graceful_error lib dbg ser deser = Done True"
  by (rule codec_rules [OF assms(2)])
    (simp add: test_replay_into_kernel_missing_instance_is_graceful_error_def push_sealed_plain [OF assms(1)] verify_records_plain [OF assms(1)] replay_eval del: verify_records.simps(2))

lemma passes_wal_kernel_export_then_verify_chain:
  assumes "encodes_all lib" and "unit_codec ser deser"
  shows "test_wal_kernel_export_then_verify_chain lib dbg ser deser = Done True"
  by (simp add: test_wal_kernel_export_then_verify_chain_def push_sealed_plain [OF assms(1)] verify_records_plain [OF assms(1)] replay_eval assms(2) [unfolded unit_codec_def] del: verify_records.simps(2))

lemma passes_replay_reconstructs_chain_tip:
  assumes "encodes_all lib" and "unit_codec ser deser"
  shows "test_replay_reconstructs_chain_tip lib dbg ser deser = Done True"
  by (simp add: test_replay_reconstructs_chain_tip_def push_sealed_plain [OF assms(1)] verify_records_plain [OF assms(1)] replay_eval assms(2) [unfolded unit_codec_def] del: verify_records.simps(2))

lemma passes_stats_wal_record_count_reflects_writer:
  assumes "encodes_all lib" and "unit_codec ser deser"
  shows "test_stats_wal_record_count_reflects_writer lib dbg ser deser = Done True"
  by (simp add: test_stats_wal_record_count_reflects_writer_def push_sealed_plain [OF assms(1)] verify_records_plain [OF assms(1)] replay_eval assms(2) [unfolded unit_codec_def] del: verify_records.simps(2))

end
