(* ===== verification/Spec2Isabelle.thy ===== *)
theory Spec2Isabelle
  imports Quota Replay Reachable Snapshot Replay_Events Kernel_Types Display Macros Dice Conformance_Replay
begin

text \<open>
  A verification of the Arkhe kernel (\<open>arkhe-kernel/src\<close>), a deterministic, capability-checked world
  kernel with a hash-chained log, with its derive macros (\<open>arkhe-macros\<close>) and its example client
  (\<open>examples/dice\<close>). The theories follow the crate's modules; every definition keeps the source's name
  where HOL allows it.

  \<^bold>\<open>The program.\<close> A kernel owns instances (entities, components, a byte ledger, a scheduler, inboxes),
  a registry of action types, observers and an optional write-ahead log. \<open>submit\<close> admits a serialized
  action at a tick; \<open>step\<close> lets every instance, in ascending id order, pop at most one due action, run its
  \<open>compute\<close>, gate each returned operation (authorization, byte budget, entity and scheduling quotas),
  stage the accepted ones and apply them, deliver events to the observers and route signals to other
  instances. The log records admissions and the facts of each pop; \<open>replay\<close> re-executes it and compares.
  Snapshots capture the instances.

  \<^bold>\<open>The theories.\<close>
  \<^item> \<open>Arkhe_Prelude\<close>: word types, saturating arithmetic, ordered-map views of finite maps, and the type
    \<open>outcome\<close> whose value \<open>Panic\<close> is a Rust panic. \<open>Fmt\<close>: the texts of \<open>core::fmt\<close> and how to read them back.
  \<^item> \<open>Abi\<close>: \<open>abi/*.rs\<close>. \<open>Scheduler\<close>: \<open>state/scheduler.rs\<close>. \<open>Ledger\<close>: \<open>state/ledger.rs\<close>. \<open>Quota\<close>:
    \<open>state/quota.rs\<close>. \<open>Instance\<close>: \<open>state/instance.rs\<close> and \<open>config.rs\<close>. \<open>Actions\<close>: \<open>state/op.rs\<close>,
    \<open>context.rs\<close>, \<open>traits.rs\<close>, \<open>authz.rs\<close>, \<open>scope.rs\<close> and \<open>runtime/registry.rs\<close>. \<open>Observer\<close>: \<open>runtime/event.rs\<close> and
    \<open>observer.rs\<close>. \<open>Stage\<close>: \<open>runtime/stage.rs\<close>, \<open>dispatch.rs\<close>, \<open>apply.rs\<close>.
  \<^item> \<open>Signature\<close>: \<open>persist/signature.rs\<close>. \<open>Wal\<close>: \<open>persist/wal.rs\<close>.
  \<^item> \<open>Kernel\<close>: \<open>runtime/kernel.rs\<close>, \<open>runtime/view.rs\<close> and the definitions of \<open>persist/snapshot.rs\<close>.
    \<open>Step_Core\<close> proves what one pop does, \<open>Kernel_Refine\<close> what a step and the signal router do. \<open>Replay\<close>
    models and proves \<open>persist/replay.rs\<close>, \<open>Replay_Events\<close> adds what observers see of a run and of its replay.
    \<open>Reachable\<close> proves what holds in every kernel that the public operations, restores and replays bring
    about, \<open>Snapshot\<close> what snapshots preserve, \<open>Kernel_Types\<close> that identifiers stay within their types.
  \<^item> \<open>Display\<close>: the \<open>Display\<close> and hand-written \<open>Debug\<close> implementations of all modules. \<open>Macros\<close>: the derive
    macros of \<open>arkhe-macros/src/lib.rs\<close>. \<open>Dice\<close>: \<open>examples/dice/src/main.rs\<close>, a client that exercises all of it.
  \<^item> \<open>Conformance_State\<close>, \<open>Conformance_Runtime\<close>, \<open>Conformance_Kernel\<close>, \<open>Conformance_Persist\<close> and \<open>Conformance_Replay\<close>: the
    unit tests of \<open>abi\<close>, \<open>state\<close>, \<open>runtime\<close> and \<open>persist\<close> as definitions over the model, and for each the lemma that
    it passes. They tie the definitions to what the authors expect of the code on concrete inputs.
  \<^item> This theory holds the property that joins snapshots with everything a kernel can do next.

  \<^bold>\<open>Correspondence.\<close> Structs are records, enums datatypes, unsigned integers words of their width with
  saturation written out, \<open>BTreeMap\<close> and \<open>BTreeSet\<close> finite maps and sets read in key order, \<open>&mut self\<close>
  explicit state passing, \<open>Result\<close> a sum with the error on the left, \<open>expect\<close> and \<open>unreachable!\<close> the
  outcome \<open>Panic\<close>. A \<open>usize\<close> length is a natural number: no collection of the program can outgrow the
  address space. The typestate parameter of \<open>Effect\<close> is a phantom type parameter.

  \<^bold>\<open>Parameters.\<close> Code outside the repository is a field of a library record (\<open>DigestLib\<close>, \<open>SigLib\<close>,
  \<open>WalLib\<close>, \<open>SnapLib\<close>, \<open>DiceLib\<close>): postcard encoders, BLAKE3, Ed25519 and ML-DSA-65. What a theorem needs of them is
  a named hypothesis (\<open>ed25519_laws\<close>, \<open>mldsa_laws\<close>, \<open>digest32\<close>, \<open>encodes_all\<close>, \<open>dice_codec\<close>, a codec round trip on the
  value at hand). No hash is assumed free of collisions: the tamper evidence of the log concludes in
  a disjunction with an explicit collision among the hashes computed. A user's action type is a
  record of its codec and its \<open>compute\<close> function; an observer is a callback that returns its next state,
  or \<open>None\<close> when it unwinds (\<open>catch_unwind\<close>).

  \<^bold>\<open>Interfaces.\<close> The locale \<open>due_queue\<close> (\<open>Scheduler\<close>) is what the kernel needs of a scheduler, interpreted on
  \<open>pop_due\<close>; \<open>byte_ledger\<close> (\<open>Stage\<close>) relates staged ledger operations to the accounted sizes, interpreted on
  the ledger; \<open>hash_chain\<close> (\<open>Wal\<close>) states that a tip determines a chain, interpreted on the log;
  \<open>deterministic_log\<close> (\<open>Replay\<close>) states that redoing what an input logged takes the state where the input
  took it, interpreted on the observer-free kernel; \<open>observed_log\<close> (\<open>Replay_Events\<close>) extends it with the events
  an input shows, interpreted on the same kernel with the events of each pop.

  \<^bold>\<open>What is shown.\<close>
  \<^item> Replay: a log replays to exactly the live instances and tip; an accepted replay re-executed exactly
    the logged facts; a replay under a pinned tip ends in the live instances or exhibits a hash collision;
    observers of a replay see the events of the run; no log makes replay panic.
  \<^item> Kernel: \<open>step\<close> refines an observer-free specification and returns on every kernel; the invariant and the
    hard limits hold in every reachable kernel; ids are not reused and never zero; the signal router is a
    bounded queue per target and route; observers cannot influence the state; a restored kernel goes on
    like the original.
  \<^item> Clients: the dice demonstration succeeds and prints exactly its rolls; the attributes of the derive
    macros mean the last value given or the first error; error texts determine the error; \<open>Debug\<close> of
    key material shows no secret.
  \<^item> One pop: it is total, keeps the instance consistent, respects the quotas and (for actions that
    detach no component twice) the byte budget, rolls back on denial, and confines what it schedules.
  \<^item> Log: written logs verify; a tip pins the log; anchored verification decides exactly its policy.
  \<^item> Scheduler, ledger, observers, quotas: validation, canonical order, absence of starvation, exact
    cancellation, exact accounting below saturation, eviction, and the throttling target.
  \<^item> Deviations found on the way are theorems too: a repeated removal defeats the byte budget, a forced
    unload breaks replay, a failing post-quantum signer leaves an unverifiable log, throttling raises
    idle children, replay readmits submits past the scheduling limit and under ids in use, evictions are
    not announced, and a restored kernel refuses logs under a non-zero manifest.

  \<^bold>\<open>Bounds.\<close> No definition uses fuel: every loop of the program runs over a finite collection. The reachability
  invariant is stated for \<open>n\<close> calls with actions of at most \<open>M\<close> intents and \<open>(n + 1) (M + 1) < 2 ^ 64\<close>, the
  region in which the 64-bit id counters cannot saturate. A replay counts one call per record, and its log has
  to be \<open>admissible\<close>: every submit record is one that \<open>submit\<close> would make at that point. The log of every run is;
  for other logs \<open>Reachable\<close> shows how readmission breaks the limit and the tables. Reachability covers restoring
  a kernel's own snapshot; of bytes of foreign origin, \<open>Snapshot\<close> shows what acceptance guarantees.

  \<^bold>\<open>Not modelled.\<close> Zeroization of key material and the lifetime brand of \<open>scope.rs\<close> (neither has a run-time
  value), the \<open>debug_assert\<close> of \<open>apply_quota_reduction\<close>, token spans of the macros, the banner the example
  prints, benchmarks, the tests that only make the compiler check a bound, and those whose verdict a library
  decides alone (frozen digests and encodings, forged signatures).
\<close>

section \<open>Going on after a restore\<close>

text \<open>A kernel restored from a snapshot, with the action types registered again.\<close>

definition restored :: "KernelSnapshot \<Rightarrow> ActionRegistry \<Rightarrow> 'o Kernel" where
  "restored snap reg = (kernel_from_snapshot snap)\<lparr>action_registry := reg\<rparr>"

text \<open>Two kernels that agree on what their instances are and will become; log, observers and manifest may differ.\<close>

definition same_state :: "'o Kernel \<Rightarrow> 'p Kernel \<Rightarrow> bool" where
  "same_state k k' \<longleftrightarrow> instances k = instances k' \<and> next_instance_id k = next_instance_id k' \<and> action_registry k = action_registry k'"

lemma restored_same: "same_state k (restored (snapshot k) (action_registry k))"
  by (simp add: same_state_def restored_def restore_snapshot)

lemma step_same_state:
  fixes k :: "'o Kernel" and k' :: "'p Kernel"
  assumes "same_state k k'"
  shows "\<exists>rep k1 rep' k1'. step lib oe now caps k = Done (rep, k1) \<and> step lib oe' now caps k' = Done (rep', k1') \<and> same_state k1 k1'"
  using step_refines [of lib oe now caps k] step_refines [of lib oe' now caps k'] assms
    pure_step_unmeasured [of lib "action_registry k" now caps "wal k \<noteq> None" "bt_keys (instances k)" "instances k" "wal k' \<noteq> None"]
  by (auto simp: same_state_def rest_of_def)

lemma submit_same_state:
  fixes k :: "'o Kernel" and k' :: "'p Kernel"
  assumes "same_state k k'"
  shows "\<exists>r k1 k1'. submit lib iid prin actor caps at tc bs k = Done (r, k1) \<and> submit lib iid prin actor caps at tc bs k' = Done (r, k1') \<and>
     same_state k1 k1'"
proof -
  have e: "instances k' = instances k" using assms by (simp add: same_state_def)
  show ?thesis
  proof (cases rule: submit_cases [of k iid lib prin actor caps at tc bs])
    case none
    then have "submit lib iid prin actor caps at tc bs k' = Done (Inl InstanceNotFound, k')"
      by (cases rule: submit_cases [of k' iid lib prin actor caps at tc bs]) (simp_all add: e)
    with none(2) assms show ?thesis by blast
  next
    case (full inst)
    then have "submit lib iid prin actor caps at tc bs k' = Done (Inl QuotaExceeded, k')"
      by (cases rule: submit_cases [of k' iid lib prin actor caps at tc bs]) (simp_all add: e)
    with full(4) assms show ?thesis by blast
  next
    case (ok inst n)
    then obtain w where "submit lib iid prin actor caps at tc bs k' = Done (Inr (ScheduledActionId n),
        k'\<lparr>instances := fmupd iid (admit (ScheduledActionId n) prin actor caps at tc bs n inst) (instances k), wal := w\<rparr>)"
      by (cases rule: submit_cases [of k' iid lib prin actor caps at tc bs]) (simp_all add: e)
    moreover have "same_state (k\<lparr>instances := i, wal := w1\<rparr>) (k'\<lparr>instances := i, wal := w2\<rparr>)" for i w1 w2
      using assms by (simp add: same_state_def)
    ultimately show ?thesis using ok(4) by blast
  qed
qed

lemma call_same_state:
  fixes k :: "'o Kernel" and k' :: "'p Kernel"
  assumes "same_state k k'"
  shows "\<exists>k1 k1'. api_call lib oe c k = Done k1 \<and> api_call lib oe' c k' = Done k1' \<and> same_state k1 k1'"
proof (cases c)
  case (ApiCreate config)
  then show ?thesis using assms by (simp add: create_instance_eq same_state_def)
next
  case (ApiInput i)
  show ?thesis
  proof (cases i)
    case (InSubmit iid prin actor caps at tc bs)
    with ApiInput submit_same_state [OF assms, of lib iid prin actor caps at tc bs] show ?thesis by auto
  next
    case (InStep now caps)
    with ApiInput step_same_state [OF assms, of lib oe now caps oe'] show ?thesis by auto
  qed
next
  case (ApiUnload route caps)
  then show ?thesis using assms by (simp add: force_unload_def same_state_def Let_def)
next
  case (ApiReadmit iid prin actor caps sid at tc bs)
  then show ?thesis using assms by (auto simp: submit_with_id_def same_state_def Let_def split: option.splits)
qed

lemma calls_same_state:
  fixes k :: "'o Kernel" and k' :: "'p Kernel"
  assumes "same_state k k'"
  shows "\<exists>k1 k1'. ofold (api_call lib oe) calls k = Done k1 \<and> ofold (api_call lib oe') calls k' = Done k1' \<and> same_state k1 k1'"
  using assms
proof (induction calls arbitrary: k k')
  case (Cons c calls)
  from call_same_state [OF Cons.prems, of lib oe c oe'] obtain k1 k1' where
    "api_call lib oe c k = Done k1" "api_call lib oe' c k' = Done k1'" "same_state k1 k1'" by blast
  with Cons.IH [of k1 k1'] show ?case by simp
qed simp

text \<open>
  C4 (a restored kernel goes on like the original). Take any reachable kernel, in the middle of its work, encode
  its snapshot, decode and check the bytes, restore a kernel from them and register the action types again.
  Whatever calls of \<open>create_instance\<close>, \<open>submit\<close>, \<open>step\<close>, \<open>force_unload\<close> and replay readmission follow, the original
  and the restored kernel both return and end with the same instances and the same id counter, although
  the restored one has no log, no observers and the zero manifest. The codec is assumed to decode what it
  encoded.
\<close>

theorem restored_kernel_continues:
  fixes k :: "'o Kernel" and oe' :: "'p \<Rightarrow> KernelEvent \<Rightarrow> 'p option"
  assumes "kernel_reach lib oe M n k" and "Suc n * Suc M < 2 ^ 64"
    and "postcard_snapshot lib (snapshot k) = Inr bs" and "postcard_snapshot_from lib bs = Inr (snapshot k)"
  shows "\<exists>snap k1 kr. deserialize_verified lib bs (snapshot_digest lib bs) = Inr snap \<and>
     ofold (api_call lib oe) calls k = Done k1 \<and> ofold (api_call lib oe') calls (restored snap (action_registry k)) = Done kr \<and>
     instances kr = instances k1 \<and> next_instance_id kr = next_instance_id k1"
proof -
  have "deserialize_verified lib bs (snapshot_digest lib bs) = Inr (snapshot k)"
    by (rule reachable_snapshot_decodes(2) [OF assms])
  with calls_same_state [OF restored_same, of lib oe calls k oe'] show ?thesis by (auto simp: same_state_def)
qed

text \<open>A kernel with an action scheduled, and a codec that knows its snapshot.\<close>

definition busy_kernel :: "unit Kernel" where
  "busy_kernel = plain_kernel\<lparr>instances := fmupd (InstanceId 1)
     (admit (ScheduledActionId 1) System None 1 (Tick 0) (TypeCode 7) [3] 1 (Instance_new (InstanceId 1) bypass_config)) (instances plain_kernel)\<rparr>"

lemma busy_kernel_reach: "kernel_reach lib ignore_events 3 2 busy_kernel"
proof -
  have l: "fmlookup (instances plain_kernel) (InstanceId 1) = Some (Instance_new (InstanceId 1) bypass_config)" "wal plain_kernel = None"
    by (simp_all add: plain_kernel_def Kernel_new_def)
  have "\<exists>r. submit lib (InstanceId 1) System None 1 (Tick 0) (TypeCode 7) [3] plain_kernel = Done (r, busy_kernel)"
  proof (rule submit_cases [of plain_kernel "InstanceId 1" lib System None 1 "Tick 0" "TypeCode 7" "[3]"], goal_cases)
    case (3 inst m)
    then have "m = 1" "inst = Instance_new (InstanceId 1) bypass_config"
      using l by (auto simp: Instance_new_def IdCounters_default_def saturating_add_def)
    with 3(4) l show ?case by (auto simp: busy_kernel_def)
  qed (use l in \<open>auto simp: Instance_new_def bypass_config_def InstanceConfig_default_def\<close>)
  with kernel_reach.submit [OF plain_kernel_reach] show ?thesis by (fastforce simp: numeral_2_eq_2)
qed

definition busy_lib :: SnapLib where
  "busy_lib = WalLib.extend sample_lib
     \<lparr>postcard_snapshot = (\<lambda>s. if s = snapshot busy_kernel then Inr [1] else Inl ''unknown''),
      postcard_snapshot_from = (\<lambda>bs. if bs = [1] then Inr (snapshot busy_kernel) else Inl ''unknown'')\<rparr>"

theorem restored_kernel_continues_witness:
  "\<exists>snap k1 (kr :: unit Kernel). deserialize_verified busy_lib [1] (snapshot_digest busy_lib [1]) = Inr snap \<and>
     ofold (api_call busy_lib ignore_events) [ApiInput (InStep (Tick 0) 1), ApiCreate bypass_config, ApiUnload (RouteId 1) ADMIN_UNLOAD] busy_kernel = Done k1 \<and>
     ofold (api_call busy_lib ignore_events) [ApiInput (InStep (Tick 0) 1), ApiCreate bypass_config, ApiUnload (RouteId 1) ADMIN_UNLOAD]
       (restored snap (action_registry busy_kernel)) = Done kr \<and>
     instances kr = instances k1"
  using restored_kernel_continues [OF busy_kernel_reach, of busy_lib "[1]"
      "[ApiInput (InStep (Tick 0) 1), ApiCreate bypass_config, ApiUnload (RouteId 1) ADMIN_UNLOAD]" ignore_events]
  by (auto simp: busy_lib_def WalLib.defs)

text \<open>
  A restored kernel and a log. The restored kernel declares the zero manifest and no operation changes it, so
  \<open>replay_into\<close> refuses every log sealed under another manifest, without applying a record; the anchored entry
  point, which compares the manifest with the caller's pin, goes on to the records.
\<close>

theorem restored_kernel_refuses_manifest:
  assumes "written lib wid md cls w" and "class_keys_match lib cls" and "ed25519_laws lib" and "mldsa_laws lib" and "md \<noteq> zero32"
  shows "replay_into lib oe dbg (from_writer w) (restored snap reg) = Done (Inl (ReplayManifestDigestMismatch md zero32), restored snap reg)"
    and "replay_into_verified lib oe dbg (from_writer w) wid (tip_anchor md w) (restored snap reg) =
      replay_records lib oe dbg (from_writer w) (restored snap reg)"
  using written_replay [OF assms(1-4), of oe dbg "restored snap reg"] written_verified [OF assms(1-4)] assms(5)
  by (simp_all add: restored_def restored_rest)

end
